(* ===== verification/Kernel_Prelude.thy ===== *)
theory Kernel_Prelude
  imports Main "HOL-Library.Word" "HOL-Library.Code_Target_Numeral"
begin

text \<open>
  Shared vocabulary of the development: Rust's machine integers, panics as values, the
  arithmetic of a \<open>dev\<close> profile build (the default of the \<^verbatim>\<open>Makefile\<close>: overflow panics),
  indexing and slicing with their bounds checks, and little-endian decoding
  (\<^verbatim>\<open>from_le_bytes\<close>).

  \<^item> \<open>u8\<close>, \<open>u16\<close>, \<open>u32\<close> and \<open>u64\<close> are words of their width. A \<open>usize\<close>, which the code uses
    as a count or an index, is a \<open>nat\<close> with the 64-bit bound checked by \<open>usize_add\<close>,
    \<open>usize_sub\<close> and \<open>usize_mul\<close>.
  \<^item> A computation that may panic has type \<open>'a result\<close>, that is \<open>panic + 'a\<close>; \<open>rbind\<close>
    sequences two of them and stops at the first panic.
  \<^item> A computation with a state that survives the panic (the kernel's log does: the panic
    handler prints it) returns \<open>'s \<times> 'a result\<close>; \<open>sbind\<close> sequences those.
\<close>

section \<open>Collections of the development\<close>

named_theorems outcome_simps \<open>equations that evaluate results, binds and checked operations\<close>

named_theorems code_consts \<open>the constants the source declares\<close>

section \<open>Integers\<close>

type_synonym u8 = "8 word"
type_synonym u16 = "16 word"
type_synonym u32 = "32 word"
type_synonym u64 = "64 word"
type_synonym usize = nat

lemma unat_bounds:
  "unat (b :: u8) < 256"
  "unat (h :: u16) < 65536"
  "unat (w :: u32) < 4294967296"
  "unat (d :: u64) < 18446744073709551616"
  by (rule order_less_le_trans [OF unsigned_less]; simp)+

lemma unat_ucast_widen [simp]:
  "unat (ucast (b :: u8) :: u32) = unat b"
  "unat (ucast (b :: u8) :: u64) = unat b"
  "unat (ucast (h :: u16) :: u64) = unat h"
  "unat (ucast (w :: u32) :: u64) = unat w"
  by (transfer, simp)+

section \<open>Panics and results\<close>

datatype panic =
    IndexOutOfBounds
  | SliceOutOfBounds
  | ArithOverflow
  | UnwrapNone
  | UnwrapErr
  | AssertFailed
  | Todo
  | ExplicitPanic

type_synonym 'a result = "panic + 'a"

definition rbind :: "'a result \<Rightarrow> ('a \<Rightarrow> 'b result) \<Rightarrow> 'b result" where
  "rbind m f = (case m of Inl p \<Rightarrow> Inl p | Inr x \<Rightarrow> f x)"

lemma rbind_simps [simp, outcome_simps]:
  "rbind (Inl p) f = Inl p"
  "rbind (Inr x) f = f x"
  by (simp_all add: rbind_def)

lemma rbind_Inr_iff [simp]:
  "rbind m f = Inr y \<longleftrightarrow> (\<exists>x. m = Inr x \<and> f x = Inr y)"
  by (cases m) auto

lemma rbind_if [simp]:
  "rbind (if c then Inr x else Inl e) f = (if c then f x else Inl e)"
  by simp

lemma rbind_Inl_iff:
  "rbind m f = Inl p \<longleftrightarrow> m = Inl p \<or> (\<exists>x. m = Inr x \<and> f x = Inl p)"
  by (cases m) auto

lemma rbind_assoc: "rbind (rbind m f) g = rbind m (\<lambda>x. rbind (f x) g)"
  by (cases m) auto

lemma rbind_Inr_right: "rbind m Inr = m"
  by (cases m) auto

lemma rbind_cong [fundef_cong]:
  "m = m' \<Longrightarrow> (\<And>x. m' = Inr x \<Longrightarrow> f x = f' x) \<Longrightarrow> rbind m f = rbind m' f'"
  by (cases m') auto

definition is_ok :: "'a result \<Rightarrow> bool" where
  "is_ok r = (case r of Inl _ \<Rightarrow> False | Inr _ \<Rightarrow> True)"

lemma is_ok_simps [simp]: "is_ok (Inr x)" "\<not> is_ok (Inl p)"
  by (simp_all add: is_ok_def)

lemma is_ok_iff: "is_ok r \<longleftrightarrow> (\<exists>x. r = Inr x)"
  by (cases r) auto

text \<open>\<^verbatim>\<open>Option::unwrap\<close> and \<^verbatim>\<open>Result::unwrap\<close> (the error value is not kept).\<close>

definition unwrap_option :: "'a option \<Rightarrow> 'a result" where
  "unwrap_option x = (case x of None \<Rightarrow> Inl UnwrapNone | Some v \<Rightarrow> Inr v)"

definition unwrap_result :: "'a option \<Rightarrow> 'a result" where
  "unwrap_result x = (case x of None \<Rightarrow> Inl UnwrapErr | Some v \<Rightarrow> Inr v)"

lemma unwrap_simps [simp, outcome_simps]:
  "unwrap_option None = Inl UnwrapNone"
  "unwrap_option (Some v) = Inr v"
  "unwrap_result None = Inl UnwrapErr"
  "unwrap_result (Some v) = Inr v"
  by (simp_all add: unwrap_option_def unwrap_result_def)

lemma is_ok_rbind: "is_ok (rbind m f) \<longleftrightarrow> (\<exists>x. m = Inr x \<and> is_ok (f x))"
  by (cases m) auto

lemma unwrap_Inr_iff [simp]:
  "unwrap_option x = Inr v \<longleftrightarrow> x = Some v"
  "unwrap_result x = Inr v \<longleftrightarrow> x = Some v"
  by (cases x; simp)+

text \<open>\<^verbatim>\<open>assert_eq!\<close>.\<close>

definition assert_eq :: "'a \<Rightarrow> 'a \<Rightarrow> unit result" where
  "assert_eq a b = (if a = b then Inr () else Inl AssertFailed)"

lemma assert_eq_Inr [simp]: "assert_eq a b = Inr u \<longleftrightarrow> a = b"
  by (simp add: assert_eq_def)

section \<open>Results with a state\<close>

definition sbind ::
    "'s \<times> 'a result \<Rightarrow> ('s \<Rightarrow> 'a \<Rightarrow> 's \<times> 'b result) \<Rightarrow> 's \<times> 'b result" where
  "sbind m f = (case m of (s, Inl p) \<Rightarrow> (s, Inl p) | (s, Inr x) \<Rightarrow> f s x)"

lemma sbind_simps [simp, outcome_simps]:
  "sbind (s, Inl p) f = (s, Inl p)"
  "sbind (s, Inr x) f = f s x"
  by (simp_all add: sbind_def)

lemma sbind_Inr_iff:
  "sbind m f = (s', Inr y) \<longleftrightarrow> (\<exists>s x. m = (s, Inr x) \<and> f s x = (s', Inr y))"
  by (cases m; cases "snd m") auto

lemma sbind_cong [fundef_cong]:
  "m = m' \<Longrightarrow> (\<And>s x. m' = (s, Inr x) \<Longrightarrow> f s x = f' s x) \<Longrightarrow> sbind m f = sbind m' f'"
  by (cases m'; cases "snd m'") auto

lemma sbind_assoc: "sbind (sbind m f) g = sbind m (\<lambda>s x. sbind (f s x) g)"
  by (cases m; cases "snd m") auto

text \<open>A \<^verbatim>\<open>for\<close> loop whose body acts on a state and may panic.\<close>

fun each :: "('a \<Rightarrow> 's \<Rightarrow> 's \<times> unit result) \<Rightarrow> 'a list \<Rightarrow> 's \<Rightarrow> 's \<times> unit result" where
  "each f [] s = (s, Inr ())"
| "each f (x # xs) s = sbind (f x s) (\<lambda>s _. each f xs s)"

lemma each_append: "each f (xs @ ys) s = sbind (each f xs s) (\<lambda>s _. each f ys s)"
  by (induction xs arbitrary: s) (simp_all add: sbind_assoc)

lemma each_cong: "(\<And>x s. x \<in> set xs \<Longrightarrow> f x s = g x s) \<Longrightarrow> each f xs s = each g xs s"
proof (induction xs arbitrary: s)
  case (Cons x xs)
  then have "each f xs s = each g xs s" for s by simp
  with Cons.prems show ?case by simp
qed simp

lemma each_steps:
  assumes "\<And>x s. x \<in> set xs \<Longrightarrow> \<exists>s'. f x s = (s', Inr ()) \<and> R s s'"
    and "\<And>s. R s s" "\<And>a b c. R a b \<Longrightarrow> R b c \<Longrightarrow> R a c"
  shows "\<exists>s'. each f xs s = (s', Inr ()) \<and> R s s'"
  using assms(1)
proof (induction xs arbitrary: s)
  case (Cons x xs)
  obtain s1 where "f x s = (s1, Inr ())" "R s s1" using Cons.prems [of x s] by auto
  moreover obtain s2 where "each f xs s1 = (s2, Inr ())" "R s1 s2"
    using Cons.IH [of s1] Cons.prems by auto
  ultimately show ?case using assms(3) by auto
qed (simp add: assms(2))

lemma each_map: "each f (map h xs) s = each (\<lambda>x. f (h x)) xs s"
proof (induction xs arbitrary: s)
  case (Cons x xs)
  then show ?case by simp
qed simp

text \<open>\<^verbatim>\<open>iter().enumerate()\<close> as a loop over the indices.\<close>

lemma each_take_enumerate:
  "each f (take n (enumerate 0 xs)) = each (\<lambda>i. f (i, xs ! i)) [0..<min n (length xs)]"
proof
  have "take n (enumerate 0 xs) = map (\<lambda>i. (i, xs ! i)) [0..<min n (length xs)]"
    by (rule nth_equalityI) (simp_all add: nth_enumerate_eq)
  then show "each f (take n (enumerate 0 xs)) s = each (\<lambda>i. f (i, xs ! i)) [0..<min n (length xs)] s"
    for s by (simp add: each_map)
qed

section \<open>Checked arithmetic\<close>

text \<open>
  The operators \<open>+\<close>, \<open>-\<close> and \<open>*\<close> of the source, as a build with overflow checks compiles
  them.
\<close>

definition checked_add :: "'a::len word \<Rightarrow> 'a word \<Rightarrow> 'a word result" where
  "checked_add a b =
     (if unat a + unat b < 2 ^ LENGTH('a) then Inr (a + b) else Inl ArithOverflow)"

definition checked_sub :: "'a::len word \<Rightarrow> 'a word \<Rightarrow> 'a word result" where
  "checked_sub a b = (if b \<le> a then Inr (a - b) else Inl ArithOverflow)"

definition checked_mul :: "'a::len word \<Rightarrow> 'a word \<Rightarrow> 'a word result" where
  "checked_mul a b =
     (if unat a * unat b < 2 ^ LENGTH('a) then Inr (a * b) else Inl ArithOverflow)"

lemma checked_add_Inr:
  "checked_add a b = Inr c \<longleftrightarrow> unat a + unat b < 2 ^ LENGTH('a) \<and> c = a + b"
  for a b c :: "'a::len word"
  by (auto simp: checked_add_def)

lemma checked_add_unat: "checked_add a b = Inr c \<Longrightarrow> unat c = unat a + unat b"
  by (auto simp: checked_add_Inr unat_word_ariths)

lemma checked_sub_Inr: "checked_sub a b = Inr c \<longleftrightarrow> b \<le> a \<and> c = a - b"
  by (auto simp: checked_sub_def)

lemma checked_sub_unat: "checked_sub a b = Inr c \<Longrightarrow> unat c = unat a - unat b"
  by (auto simp: checked_sub_Inr unat_sub)

lemma checked_mul_Inr:
  "checked_mul a b = Inr c \<longleftrightarrow> unat a * unat b < 2 ^ LENGTH('a) \<and> c = a * b"
  for a b c :: "'a::len word"
  by (auto simp: checked_mul_def)

lemma checked_mul_unat: "checked_mul a b = Inr c \<Longrightarrow> unat c = unat a * unat b"
  by (auto simp: checked_mul_Inr unat_word_ariths)

definition usize_add :: "usize \<Rightarrow> usize \<Rightarrow> usize result" where
  "usize_add a b = (if a + b < 2 ^ 64 then Inr (a + b) else Inl ArithOverflow)"

definition usize_sub :: "usize \<Rightarrow> usize \<Rightarrow> usize result" where
  "usize_sub a b = (if b \<le> a then Inr (a - b) else Inl ArithOverflow)"

definition usize_mul :: "usize \<Rightarrow> usize \<Rightarrow> usize result" where
  "usize_mul a b = (if a * b < 2 ^ 64 then Inr (a * b) else Inl ArithOverflow)"

lemma usize_Inr:
  "usize_add a b = Inr c \<longleftrightarrow> a + b < 2 ^ 64 \<and> c = a + b"
  "usize_sub a b = Inr c \<longleftrightarrow> b \<le> a \<and> c = a - b"
  "usize_mul a b = Inr c \<longleftrightarrow> a * b < 2 ^ 64 \<and> c = a * b"
  by (auto simp: usize_add_def usize_sub_def usize_mul_def)

section \<open>Indexing and slicing\<close>

definition index :: "'a list \<Rightarrow> usize \<Rightarrow> 'a result" where
  "index xs i = (if i < length xs then Inr (xs ! i) else Inl IndexOutOfBounds)"

definition slice_from :: "'a list \<Rightarrow> usize \<Rightarrow> 'a list result" where
  "slice_from xs i = (if i \<le> length xs then Inr (drop i xs) else Inl SliceOutOfBounds)"

definition slice_to :: "'a list \<Rightarrow> usize \<Rightarrow> 'a list result" where
  "slice_to xs i = (if i \<le> length xs then Inr (take i xs) else Inl SliceOutOfBounds)"

definition slice :: "'a list \<Rightarrow> usize \<Rightarrow> usize \<Rightarrow> 'a list result" where
  "slice xs i j =
     (if i \<le> j \<and> j \<le> length xs then Inr (take (j - i) (drop i xs)) else Inl SliceOutOfBounds)"

lemma index_Inr: "index xs i = Inr x \<longleftrightarrow> i < length xs \<and> x = xs ! i"
  by (auto simp: index_def)

text \<open>The array expression \<^verbatim>\<open>[data[i], data[i + 1], ..., data[i + n - 1]]\<close>.\<close>

fun bytes_at :: "'a list \<Rightarrow> usize \<Rightarrow> nat \<Rightarrow> 'a list result" where
  "bytes_at xs i 0 = Inr []"
| "bytes_at xs i (Suc n) =
     rbind (index xs i) (\<lambda>x. rbind (bytes_at xs (Suc i) n) (\<lambda>ys. Inr (x # ys)))"

lemma bytes_at_Suc:
  "bytes_at xs i (Suc n) =
     (if i + Suc n \<le> length xs then Inr (take (Suc n) (drop i xs)) else Inl IndexOutOfBounds)"
proof (induction n arbitrary: i)
  case 0
  then show ?case
    by (auto simp: index_def take_Suc hd_drop_conv_nth)
next
  case (Suc n)
  then show ?case
    by (subst bytes_at.simps)
       (auto simp: index_def Cons_nth_drop_Suc [symmetric] simp del: bytes_at.simps)
qed

lemma bytes_at_eq:
  "0 < n \<Longrightarrow> bytes_at xs i n =
     (if i + n \<le> length xs then Inr (take n (drop i xs)) else Inl IndexOutOfBounds)"
  by (cases n) (simp_all add: bytes_at_Suc del: bytes_at.simps)

section \<open>Little-endian integers\<close>

fun le_nat :: "u8 list \<Rightarrow> nat" where
  "le_nat [] = 0"
| "le_nat (b # bs) = unat b + 256 * le_nat bs"

definition from_le_bytes :: "u8 list \<Rightarrow> 'a::len word" where
  "from_le_bytes bs = word_of_nat (le_nat bs)"

fun nat_le :: "nat \<Rightarrow> nat \<Rightarrow> u8 list" where
  "nat_le 0 v = []"
| "nat_le (Suc n) v = word_of_nat (v mod 256) # nat_le n (v div 256)"

definition to_le_bytes :: "nat \<Rightarrow> 'a::len word \<Rightarrow> u8 list" where
  "to_le_bytes n w = nat_le n (unat w)"

lemma length_nat_le [simp]: "length (nat_le n v) = n"
  by (induction n v rule: nat_le.induct) auto

lemma length_to_le_bytes [simp]: "length (to_le_bytes n w) = n"
  by (simp add: to_le_bytes_def)

lemma le_nat_nat_le: "le_nat (nat_le n v) = v mod 256 ^ n"
proof (induction n v rule: nat_le.induct)
  case (1 v)
  then show ?case by simp
next
  case (2 n v)
  have "v mod 256 ^ Suc n = 256 * (v div 256 mod 256 ^ n) + v mod 256"
    by (simp add: mod_mult2_eq)
  moreover have "unat (word_of_nat (v mod 256) :: u8) = v mod 256"
    by (simp add: unat_of_nat)
  ultimately show ?case using 2 by simp
qed

lemma le_nat_less: "le_nat bs < 256 ^ length bs"
proof (induction bs)
  case Nil
  then show ?case by simp
next
  case (Cons b bs)
  have "unat b < 256"
    using unsigned_less [of b] by simp
  with Cons show ?case by simp
qed

lemma from_to_le_bytes:
  assumes "LENGTH('a::len) \<le> 8 * n"
  shows "from_le_bytes (to_le_bytes n w) = (w :: 'a word)"
proof -
  have "unat w < 2 ^ LENGTH('a)" by simp
  also have "\<dots> \<le> 2 ^ (8 * n)" using assms by (simp add: power_increasing)
  also have "\<dots> = 256 ^ n" by (simp add: power_mult)
  finally show ?thesis
    by (simp add: from_le_bytes_def to_le_bytes_def le_nat_nat_le)
qed

lemma from_to_le_bytes_simps [simp]:
  "from_le_bytes (to_le_bytes 2 (w2 :: u16)) = w2"
  "from_le_bytes (to_le_bytes 4 (w4 :: u32)) = w4"
  "from_le_bytes (to_le_bytes 8 (w8 :: u64)) = w8"
  by (simp_all add: from_to_le_bytes)

text \<open>The expressions \<^verbatim>\<open>u16::from_le_bytes([data[i], data[i + 1]])\<close> and so on.\<close>

definition u16_at :: "u8 list \<Rightarrow> usize \<Rightarrow> u16 result" where
  "u16_at data i = rbind (bytes_at data i 2) (\<lambda>bs. Inr (from_le_bytes bs))"

definition u32_at :: "u8 list \<Rightarrow> usize \<Rightarrow> u32 result" where
  "u32_at data i = rbind (bytes_at data i 4) (\<lambda>bs. Inr (from_le_bytes bs))"

definition u64_at :: "u8 list \<Rightarrow> usize \<Rightarrow> u64 result" where
  "u64_at data i = rbind (bytes_at data i 8) (\<lambda>bs. Inr (from_le_bytes bs))"

lemma le_at_eq:
  "u16_at data i = (if i + 2 \<le> length data then Inr (from_le_bytes (take 2 (drop i data)))
     else Inl IndexOutOfBounds)"
  "u32_at data i = (if i + 4 \<le> length data then Inr (from_le_bytes (take 4 (drop i data)))
     else Inl IndexOutOfBounds)"
  "u64_at data i = (if i + 8 \<le> length data then Inr (from_le_bytes (take 8 (drop i data)))
     else Inl IndexOutOfBounds)"
  by (simp_all add: u16_at_def u32_at_def u64_at_def bytes_at_eq)

end
