(* ===== verification/Rust_Text.thy ===== *)
theory Rust_Text
  imports Kernel_Prelude
begin

text \<open>
  Rust's text as the kernel uses it. A \<^verbatim>\<open>char\<close> is a Unicode scalar value, so here a \<open>nat\<close>;
  a \<^verbatim>\<open>&str\<close> or a \<^verbatim>\<open>String\<close> is the list of its characters (\<open>rstr\<close>), and \<open>lit ''...''\<close> is an
  ASCII literal. UTF-8 enters where the code calls \<^verbatim>\<open>from_utf8\<close>: \<open>utf8_decode\<close> is the standard
  library's validation table, \<open>utf8_encode\<close> its inverse. The rest models the few functions of
  \<^verbatim>\<open>core::str\<close>, \<^verbatim>\<open>core::char\<close> and \<^verbatim>\<open>core::fmt\<close> that the source calls.
\<close>

section \<open>Characters and strings\<close>

type_synonym rchar = nat
type_synonym rstr = "nat list"

definition lit :: "string \<Rightarrow> rstr" where
  "lit s = map of_char s"

lemma lit_simps [simp]: "lit [] = []" "lit (c # s) = of_char c # lit s"
  by (simp_all add: lit_def)

lemma length_lit [simp]: "length (lit s) = length s"
  by (simp add: lit_def)

definition scalar_value :: "nat \<Rightarrow> bool" where
  "scalar_value c \<longleftrightarrow> c < 0xD800 \<or> 0xE000 \<le> c \<and> c < 0x110000"

lemma scalar_value_ascii [simp]: "c < 128 \<Longrightarrow> scalar_value c"
  by (simp add: scalar_value_def)

section \<open>UTF-8\<close>

definition continuation :: "nat \<Rightarrow> bool" where
  "continuation b \<longleftrightarrow> 128 \<le> b \<and> b < 192"

definition second_of_3 :: "nat \<Rightarrow> nat \<Rightarrow> bool" where
  "second_of_3 a b \<longleftrightarrow>
     (if a = 0xE0 then 0xA0 \<le> b \<and> b < 0xC0
      else if a = 0xED then 0x80 \<le> b \<and> b < 0xA0
      else continuation b)"

definition second_of_4 :: "nat \<Rightarrow> nat \<Rightarrow> bool" where
  "second_of_4 a b \<longleftrightarrow>
     (if a = 0xF0 then 0x90 \<le> b \<and> b < 0xC0
      else if a = 0xF4 then 0x80 \<le> b \<and> b < 0x90
      else continuation b)"

fun utf8_decode :: "nat list \<Rightarrow> rstr option" where
  "utf8_decode [] = Some []"
| "utf8_decode (a # bs) =
    (if a < 0x80 then map_option ((#) a) (utf8_decode bs)
     else if 0xC2 \<le> a \<and> a < 0xE0 then
       (case bs of
          b # rest \<Rightarrow>
            if continuation b
            then map_option ((#) ((a - 0xC0) * 64 + (b - 128))) (utf8_decode rest)
            else None
        | _ \<Rightarrow> None)
     else if 0xE0 \<le> a \<and> a < 0xF0 then
       (case bs of
          b # c # rest \<Rightarrow>
            if second_of_3 a b \<and> continuation c
            then map_option ((#) ((a - 0xE0) * 4096 + (b - 128) * 64 + (c - 128)))
                   (utf8_decode rest)
            else None
        | _ \<Rightarrow> None)
     else if 0xF0 \<le> a \<and> a < 0xF5 then
       (case bs of
          b # c # d # rest \<Rightarrow>
            if second_of_4 a b \<and> continuation c \<and> continuation d
            then map_option
                   ((#) ((a - 0xF0) * 262144 + (b - 128) * 4096 + (c - 128) * 64 + (d - 128)))
                   (utf8_decode rest)
            else None
        | _ \<Rightarrow> None)
     else None)"

definition from_utf8 :: "u8 list \<Rightarrow> rstr option" where
  "from_utf8 bs = utf8_decode (map unat bs)"

definition utf8_char :: "nat \<Rightarrow> nat list" where
  "utf8_char c =
    (if c < 0x80 then [c]
     else if c < 0x800 then [0xC0 + c div 64, 128 + c mod 64]
     else if c < 0x10000 then [0xE0 + c div 4096, 128 + c div 64 mod 64, 128 + c mod 64]
     else [0xF0 + c div 262144, 128 + c div 4096 mod 64, 128 + c div 64 mod 64, 128 + c mod 64])"

definition utf8_encode :: "rstr \<Rightarrow> nat list" where
  "utf8_encode s = concat (map utf8_char s)"

lemma utf8_encode_simps [simp]:
  "utf8_encode [] = []"
  "utf8_encode (c # s) = utf8_char c @ utf8_encode s"
  by (simp_all add: utf8_encode_def)

lemma split_base64: "c div 4096 * 4096 + c div 64 mod 64 * 64 + c mod 64 = (c :: nat)"
proof -
  have "c div 4096 = c div 64 div 64" by (simp add: div_mult2_eq [symmetric])
  moreover have "c div 64 div 64 * 64 + c div 64 mod 64 = c div 64" by (rule div_mult_mod_eq)
  moreover have "c div 64 * 64 + c mod 64 = c" by (rule div_mult_mod_eq)
  ultimately show ?thesis by linarith
qed

lemma split_base64_4:
  "c div 262144 * 262144 + c div 4096 mod 64 * 4096 + c div 64 mod 64 * 64 + c mod 64 = (c :: nat)"
proof -
  have "c div 262144 = c div 4096 div 64" by (simp add: div_mult2_eq [symmetric])
  moreover have "c div 4096 div 64 * 64 + c div 4096 mod 64 = c div 4096" by (rule div_mult_mod_eq)
  ultimately show ?thesis using split_base64 [of c] by linarith
qed

lemma mod_64_less: "x mod 64 < (64 :: nat)"
  by simp

lemma utf8_decode_3:
  assumes "0xE0 \<le> a" "a < 0xF0" "second_of_3 a b" "continuation c"
  shows "utf8_decode (a # b # c # bs) =
    map_option ((#) ((a - 0xE0) * 4096 + (b - 128) * 64 + (c - 128))) (utf8_decode bs)"
  using assms by simp

lemma utf8_decode_4:
  assumes "0xF0 \<le> a" "a < 0xF5" "second_of_4 a b" "continuation c" "continuation d"
  shows "utf8_decode (a # b # c # d # bs) =
    map_option ((#) ((a - 0xF0) * 262144 + (b - 128) * 4096 + (c - 128) * 64 + (d - 128)))
      (utf8_decode bs)"
  using assms by simp

lemma utf8_decode_char_3:
  assumes "scalar_value c" "0x800 \<le> c" "c < 0x10000"
  shows "utf8_decode (utf8_char c @ bs) = map_option ((#) c) (utf8_decode bs)"
proof -
  define x y z where "x = c div 4096" and "y = c div 64 mod 64" and "z = c mod 64"
  have c: "x * 4096 + y * 64 + z = c" and y: "y < 64" and z: "z < 64"
    unfolding x_def y_def z_def by (rule split_base64, rule mod_64_less, rule mod_64_less)
  have "x < 16" using c assms by linarith
  moreover have "x = 0 \<Longrightarrow> 32 \<le> y" using c z assms by linarith
  moreover have "x = 13 \<Longrightarrow> y < 32" using c y z assms unfolding scalar_value_def by arith
  ultimately have "second_of_3 (0xE0 + x) (128 + y)" "continuation (128 + z)" "0xE0 + x < 0xF0"
    using y z by (auto simp: second_of_3_def continuation_def)
  moreover have "utf8_char c = [0xE0 + x, 128 + y, 128 + z]"
    using assms by (simp add: utf8_char_def x_def y_def z_def)
  ultimately show ?thesis using c by (simp only: append_Cons append_Nil utf8_decode_3) simp
qed

lemma utf8_decode_char_4:
  assumes "0x10000 \<le> c" "c < 0x110000"
  shows "utf8_decode (utf8_char c @ bs) = map_option ((#) c) (utf8_decode bs)"
proof -
  define w x y z where "w = c div 262144" and "x = c div 4096 mod 64"
    and "y = c div 64 mod 64" and "z = c mod 64"
  have c: "w * 262144 + x * 4096 + y * 64 + z = c" and x: "x < 64" and y: "y < 64" and z: "z < 64"
    unfolding w_def x_def y_def z_def
    by (rule split_base64_4, rule mod_64_less, rule mod_64_less, rule mod_64_less)
  have "w < 5" using c assms by linarith
  moreover have "w = 0 \<Longrightarrow> 16 \<le> x" using c y z assms by linarith
  moreover have "w = 4 \<Longrightarrow> x < 16" using c assms by linarith
  ultimately have "second_of_4 (0xF0 + w) (128 + x)" "continuation (128 + y)"
      "continuation (128 + z)" "0xF0 + w < 0xF5"
    using x y z by (auto simp: second_of_4_def continuation_def)
  moreover have "utf8_char c = [0xF0 + w, 128 + x, 128 + y, 128 + z]"
    using assms by (simp add: utf8_char_def w_def x_def y_def z_def)
  ultimately show ?thesis using c by (simp only: append_Cons append_Nil utf8_decode_4) simp
qed

lemma utf8_decode_char:
  assumes "scalar_value c"
  shows "utf8_decode (utf8_char c @ bs) = map_option ((#) c) (utf8_decode bs)"
proof -
  consider "c < 0x80" | "0x80 \<le> c" "c < 0x800" | "0x800 \<le> c" "c < 0x10000"
    | "0x10000 \<le> c" "c < 0x110000"
    using assms by (force simp: scalar_value_def)
  then show ?thesis
  proof cases
    case 1
    then show ?thesis by (simp add: utf8_char_def)
  next
    case 2
    have "c div 64 * 64 + c mod 64 = c" by simp
    moreover have "2 \<le> c div 64" "c div 64 < 32" using 2 by simp_all
    moreover have "c mod 64 < 64" by simp
    ultimately show ?thesis using 2 by (simp add: utf8_char_def continuation_def)
  next
    case 3
    with assms show ?thesis by (intro utf8_decode_char_3)
  next
    case 4
    then show ?thesis by (rule utf8_decode_char_4)
  qed
qed

lemma utf8_decode_encode_append:
  assumes "\<forall>c\<in>set s. scalar_value c"
  shows "utf8_decode (utf8_encode s @ bs) = map_option (\<lambda>t. s @ t) (utf8_decode bs)"
  using assms
  by (induction s; cases "utf8_decode bs") (simp_all add: utf8_decode_char)

lemma utf8_decode_encode: "\<forall>c\<in>set s. scalar_value c \<Longrightarrow> utf8_decode (utf8_encode s) = Some s"
  using utf8_decode_encode_append [of s "[]"] by simp

lemma utf8_decode_zeros: "utf8_decode (replicate n 0) = Some (replicate n 0)"
  by (induction n) auto

lemma utf8_decode_ascii: "\<forall>b\<in>set bs. b < 128 \<Longrightarrow> utf8_decode bs = Some bs"
  by (induction bs) auto

lemma utf8_char_bytes: "scalar_value c \<Longrightarrow> b \<in> set (utf8_char c) \<Longrightarrow> b < 256"
  by (auto simp: utf8_char_def scalar_value_def split: if_splits)

definition utf8_bytes :: "rstr \<Rightarrow> u8 list" where
  "utf8_bytes s = map word_of_nat (utf8_encode s)"

lemma map_unat_utf8_bytes:
  assumes "\<forall>c\<in>set s. scalar_value c"
  shows "map unat (utf8_bytes s) = utf8_encode s"
proof -
  have "\<forall>b\<in>set (utf8_encode s). b < 256"
    using assms by (auto simp: utf8_encode_def dest: utf8_char_bytes)
  then show ?thesis
    by (simp add: utf8_bytes_def comp_def unat_of_nat map_idI)
qed

lemma from_utf8_padded:
  assumes "\<forall>c\<in>set s. scalar_value c"
  shows "from_utf8 (utf8_bytes s @ replicate n 0) = Some (s @ replicate n 0)"
  using assms
  by (simp add: from_utf8_def map_unat_utf8_bytes utf8_decode_encode_append utf8_decode_zeros)

lemma from_utf8_bytes: "\<forall>c\<in>set s. scalar_value c \<Longrightarrow> from_utf8 (utf8_bytes s) = Some s"
  using from_utf8_padded [of s 0] by simp

lemma utf8_encode_ascii: "\<forall>c\<in>set s. c < 128 \<Longrightarrow> utf8_encode s = s"
  by (induction s) (simp_all add: utf8_char_def)

lemma length_utf8_bytes_ascii: "\<forall>c\<in>set s. c < 128 \<Longrightarrow> length (utf8_bytes s) = length s"
  by (simp add: utf8_bytes_def utf8_encode_ascii)

section \<open>Searching and splitting\<close>

text \<open>\<^verbatim>\<open>char::is_whitespace\<close>: the characters with the property White_Space.\<close>

definition is_whitespace :: "rchar \<Rightarrow> bool" where
  "is_whitespace c \<longleftrightarrow>
     9 \<le> c \<and> c \<le> 13 \<or> c = 32 \<or> c = 0x85 \<or> c = 0xA0 \<or> c = 0x1680
     \<or> 0x2000 \<le> c \<and> c \<le> 0x200A \<or> c = 0x2028 \<or> c = 0x2029 \<or> c = 0x202F \<or> c = 0x205F \<or> c = 0x3000"

definition trim_end_matches :: "rchar \<Rightarrow> rstr \<Rightarrow> rstr" where
  "trim_end_matches c s = rev (dropWhile (\<lambda>x. x = c) (rev s))"

definition trim_end :: "rstr \<Rightarrow> rstr" where
  "trim_end s = rev (dropWhile is_whitespace (rev s))"

definition split_once_whitespace :: "rstr \<Rightarrow> (rstr \<times> rstr) option" where
  "split_once_whitespace s =
     (case dropWhile (\<lambda>c. \<not> is_whitespace c) s of
        [] \<Rightarrow> None
      | _ # rest \<Rightarrow> Some (takeWhile (\<lambda>c. \<not> is_whitespace c) s, rest))"

fun split_char :: "rchar \<Rightarrow> rstr \<Rightarrow> rstr list" where
  "split_char d [] = [[]]"
| "split_char d (c # s) =
     (if c = d then [] # split_char d s
      else case split_char d s of w # ws \<Rightarrow> (c # w) # ws | [] \<Rightarrow> [[c]])"

text \<open>\<^verbatim>\<open>split_terminator\<close> leaves out the last substring when it is empty.\<close>

definition split_terminator :: "rchar \<Rightarrow> rstr \<Rightarrow> rstr list" where
  "split_terminator d s =
     (let ws = split_char d s in if last ws = [] then butlast ws else ws)"

text \<open>\<^verbatim>\<open>split_whitespace\<close> leaves out every empty substring.\<close>

fun split_ws :: "rstr \<Rightarrow> rstr list" where
  "split_ws [] = [[]]"
| "split_ws (c # s) =
     (if is_whitespace c then [] # split_ws s
      else case split_ws s of w # ws \<Rightarrow> (c # w) # ws | [] \<Rightarrow> [[c]])"

definition split_whitespace :: "rstr \<Rightarrow> rstr list" where
  "split_whitespace s = filter (\<lambda>w. w \<noteq> []) (split_ws s)"

text \<open>\<^verbatim>\<open>Iterator::nth\<close>, with the iterator that remains.\<close>

definition iter_nth :: "'a list \<Rightarrow> nat \<Rightarrow> 'a option \<times> 'a list" where
  "iter_nth xs n = (if n < length xs then (Some (xs ! n), drop (Suc n) xs) else (None, []))"

lemma trim_end_matches_padded:
  assumes "s = [] \<or> last s \<noteq> c"
  shows "trim_end_matches c (s @ replicate n c) = s"
proof -
  have "dropWhile (\<lambda>x. x = c) (replicate n c @ rev s) = dropWhile (\<lambda>x. x = c) (rev s)"
    by (induction n) auto
  moreover have "dropWhile (\<lambda>x. x = c) (rev s) = rev s"
    using assms by (cases "rev s") (auto simp: last_rev [symmetric])
  ultimately show ?thesis by (simp add: trim_end_matches_def)
qed

lemma split_char_nonempty [simp]: "split_char d s \<noteq> []"
  by (induction s) (auto split: list.splits)

lemma split_char_word: "d \<notin> set s \<Longrightarrow> split_char d s = [s]"
  by (induction s) auto

lemma split_char_first: "d \<notin> set a \<Longrightarrow> split_char d (a @ d # b) = a # split_char d b"
  by (induction a) auto

lemma split_char_last: "d \<notin> set t \<Longrightarrow> \<exists>ws. split_char d (s @ d # t) = ws @ [t] \<and> ws \<noteq> []"
proof (induction s)
  case (Cons c s)
  then obtain ws where ws: "split_char d (s @ d # t) = ws @ [t]" "ws \<noteq> []" by auto
  then show ?case
    by (cases ws) (auto intro: exI [of _ "[] # ws"])
qed (simp add: split_char_word)

lemma split_terminator_last:
  assumes "d \<notin> set t" "t \<noteq> []"
  shows "split_terminator d (s @ d # t) \<noteq> [] \<and> last (split_terminator d (s @ d # t)) = t"
  using split_char_last [OF assms(1), of s] assms(2) by (auto simp: split_terminator_def Let_def)

lemma split_terminator_first:
  "d \<notin> set a \<Longrightarrow> split_terminator d (a @ d # b) = a # split_terminator d b"
  by (simp add: split_terminator_def split_char_first Let_def)

lemma trim_end_newline:
  "s = [] \<or> \<not> is_whitespace (last s) \<Longrightarrow> trim_end (s @ [10]) = s"
  by (cases s rule: rev_cases) (auto simp: trim_end_def is_whitespace_def)

lemma split_ws_nonempty [simp]: "split_ws s \<noteq> []"
  by (induction s) (auto split: list.splits)

lemma split_ws_word: "\<forall>c\<in>set a. \<not> is_whitespace c \<Longrightarrow> split_ws a = [a]"
  by (induction a) auto

lemma split_ws_first:
  "\<forall>c\<in>set a. \<not> is_whitespace c \<Longrightarrow> is_whitespace w \<Longrightarrow> split_ws (a @ w # b) = a # split_ws b"
  by (induction a) auto

lemma split_whitespace_first:
  "\<forall>c\<in>set a. \<not> is_whitespace c \<Longrightarrow> is_whitespace w \<Longrightarrow> a \<noteq> [] \<Longrightarrow>
     split_whitespace (a @ w # b) = a # split_whitespace b"
  by (simp add: split_whitespace_def split_ws_first)

lemma split_whitespace_word:
  "\<forall>c\<in>set a. \<not> is_whitespace c \<Longrightarrow> a \<noteq> [] \<Longrightarrow> split_whitespace a = [a]"
  by (simp add: split_whitespace_def split_ws_word)

section \<open>Numbers as text\<close>

function radix_digits :: "nat \<Rightarrow> nat \<Rightarrow> nat list" where
  "radix_digits r n =
     (if n < r \<or> r < 2 then [n] else radix_digits r (n div r) @ [n mod r])"
  by pat_completeness auto
termination
  by (relation "measure snd") auto

declare radix_digits.simps [simp del]

definition digit_char :: "nat \<Rightarrow> rchar" where
  "digit_char d = (if d < 10 then 48 + d else 87 + d)"

text \<open>\<^verbatim>\<open>{}\<close>, \<^verbatim>\<open>{:x}\<close> and \<^verbatim>\<open>{:02}\<close> of an unsigned integer.\<close>

definition fmt_dec :: "nat \<Rightarrow> rstr" where
  "fmt_dec n = map digit_char (radix_digits 10 n)"

definition fmt_hex :: "nat \<Rightarrow> rstr" where
  "fmt_hex n = map digit_char (radix_digits 16 n)"

definition fmt_02 :: "nat \<Rightarrow> rstr" where
  "fmt_02 n = (let s = fmt_dec n in replicate (2 - length s) 48 @ s)"

definition to_digit :: "nat \<Rightarrow> rchar \<Rightarrow> nat option" where
  \<comment> \<open>for a radix of at most ten, the only ones the kernel uses\<close>
  "to_digit r c = (if 48 \<le> c \<and> c < 48 + r then Some (c - 48) else None)"

fun accumulate_digits :: "nat \<Rightarrow> nat \<Rightarrow> nat \<Rightarrow> rstr \<Rightarrow> nat option" where
  "accumulate_digits lim r acc [] = Some acc"
| "accumulate_digits lim r acc (c # cs) =
     (case to_digit r c of
        None \<Rightarrow> None
      | Some d \<Rightarrow>
          if acc * r + d < lim then accumulate_digits lim r (acc * r + d) cs else None)"

text \<open>
  \<^verbatim>\<open>from_str_radix\<close> and \<^verbatim>\<open>from_str\<close> of an unsigned type with \<open>lim\<close> values: an empty string, a
  lone sign, a character that is no digit and a value out of range are errors.
\<close>

definition from_str_radix :: "nat \<Rightarrow> nat \<Rightarrow> rstr \<Rightarrow> nat option" where
  "from_str_radix lim r s =
     (let ds = (case s of c # cs \<Rightarrow> if c = 43 then cs else s | [] \<Rightarrow> [])
      in if ds = [] then None else accumulate_digits lim r 0 ds)"

fun digits_value :: "nat \<Rightarrow> nat \<Rightarrow> nat list \<Rightarrow> nat" where
  "digits_value r acc [] = acc"
| "digits_value r acc (d # ds) = digits_value r (acc * r + d) ds"

lemma digits_value_append:
  "digits_value r acc (ds @ es) = digits_value r (digits_value r acc ds) es"
  by (induction r acc ds rule: digits_value.induct) auto

lemma digits_value_radix_digits: "2 \<le> r \<Longrightarrow> digits_value r 0 (radix_digits r n) = n"
proof (induction r n rule: radix_digits.induct)
  case (1 r n)
  then show ?case
    by (cases "n < r") (simp_all add: radix_digits.simps [of r n] digits_value_append)
qed

lemma digits_value_mono: "2 \<le> r \<Longrightarrow> acc \<le> digits_value r acc ds"
proof (induction r acc ds rule: digits_value.induct)
  case (2 r acc d ds)
  have "acc \<le> acc * r + d" using 2(2) by (cases r) auto
  with 2 show ?case by (auto intro: order_trans)
qed simp

lemma radix_digits_less: "2 \<le> r \<Longrightarrow> d \<in> set (radix_digits r n) \<Longrightarrow> d < r"
proof (induction r n rule: radix_digits.induct)
  case (1 r n)
  then show ?case
    by (cases "n < r") (auto simp: radix_digits.simps [of r n])
qed

lemma radix_digits_nonempty [simp]: "radix_digits r n \<noteq> []"
  by (simp add: radix_digits.simps [of r n])

lemma accumulate_digits_value:
  assumes "2 \<le> r" "r \<le> 10" "\<forall>d\<in>set ds. d < r" "digits_value r acc ds < lim"
  shows "accumulate_digits lim r acc (map digit_char ds) = Some (digits_value r acc ds)"
  using assms
proof (induction r acc ds rule: digits_value.induct)
  case (2 r acc d ds)
  have "acc * r + d < lim"
    using digits_value_mono [of r "acc * r + d" ds] 2(2,5) by simp
  with 2 show ?case by (simp add: to_digit_def digit_char_def)
qed simp

lemma from_str_radix_digits:
  assumes "2 \<le> r" "r \<le> 10" "ds \<noteq> []" "\<forall>d\<in>set ds. d < r" "digits_value r 0 ds < lim"
  shows "from_str_radix lim r (map digit_char ds) = Some (digits_value r 0 ds)"
proof -
  obtain d es where ds: "ds = d # es" using assms(3) by (cases ds) auto
  then have "digit_char d \<noteq> 43" using assms(2,4) by (simp add: digit_char_def)
  then show ?thesis
    using accumulate_digits_value [of r ds 0 lim] assms ds
    by (simp add: from_str_radix_def)
qed

lemma from_str_fmt_dec: "n < lim \<Longrightarrow> from_str_radix lim 10 (fmt_dec n) = Some n"
  unfolding fmt_dec_def
  using from_str_radix_digits [of 10 "radix_digits 10 n" lim]
  by (simp add: digits_value_radix_digits radix_digits_less)

lemma fmt_dec_ascii: "c \<in> set (fmt_dec n) \<Longrightarrow> 48 \<le> c \<and> c < 58"
  using radix_digits_less [of 10 _ n] by (auto simp: fmt_dec_def digit_char_def)

lemma fmt_dec_nonempty [simp]: "fmt_dec n \<noteq> []"
  by (simp add: fmt_dec_def)

lemma fmt_dec_no_whitespace: "\<forall>c\<in>set (fmt_dec n). \<not> is_whitespace c"
  by (auto simp: is_whitespace_def dest!: fmt_dec_ascii)

lemma utf8_bytes_ascii: "\<forall>c\<in>set s. c < 128 \<Longrightarrow> utf8_bytes s = map word_of_nat s"
  by (simp add: utf8_bytes_def utf8_encode_ascii)

end
