(* ===== verification/Logger.thy ===== *)
theory Logger
  imports Rust_Text
begin

text \<open>
  The kernel log: \<^verbatim>\<open>kernel/src/logger.rs\<close>, with the escape sequences of
  \<^verbatim>\<open>kernel/src/ansi.rs\<close> that its \<^verbatim>\<open>Display\<close> uses. The six macros are the six functions
  \<open>debug\<close> to \<open>warn\<close>: each formats its message first and then appends one entry. The global
  \<^verbatim>\<open>LOGGER\<close> is a \<open>logger\<close> value that the other components pass along.
\<close>

section \<open>Escape sequences\<close>

definition ESC :: rchar where [code_consts]: "ESC = 0x1b"

definition BLUE :: rstr where [code_consts]: "BLUE = ESC # lit ''[38;2;0;151;230m''"
definition BOLD :: rstr where [code_consts]: "BOLD = ESC # lit ''[1m''"
definition DEFAULT :: rstr where [code_consts]: "DEFAULT = ESC # lit ''[39m''"
definition GREEN :: rstr where [code_consts]: "GREEN = ESC # lit ''[38;2;68;189;50m''"
definition NORMAL :: rstr where [code_consts]: "NORMAL = ESC # lit ''[0m''"
definition ORANGE :: rstr where [code_consts]: "ORANGE = ESC # lit ''[38;2;194;54;52m''"
definition PURPLE :: rstr where [code_consts]: "PURPLE = ESC # lit ''[38;2;140;122;230m''"
definition RED :: rstr where [code_consts]: "RED = ESC # lit ''[38;2;232;65;24m''"
definition YELLOW :: rstr where [code_consts]: "YELLOW = ESC # lit ''[38;2;251;197;49m''"

section \<open>Entries and the log\<close>

datatype level = Fatal | Error | Warn | Info | Debug | Trace

record log =
  log_level :: level
  log_message :: rstr

record logger =
  logs :: "log list"

definition level_label :: "level \<Rightarrow> rstr" where
  "level_label l =
     (case l of
        Debug \<Rightarrow> GREEN @ lit ''[DEBUG]'' @ DEFAULT
      | Error \<Rightarrow> RED @ lit ''[ERROR]'' @ DEFAULT
      | Fatal \<Rightarrow> ORANGE @ lit ''[FATAL]'' @ DEFAULT
      | Info \<Rightarrow> BLUE @ lit ''[INFO]'' @ DEFAULT
      | Trace \<Rightarrow> PURPLE @ lit ''[TRACE]'' @ DEFAULT
      | Warn \<Rightarrow> YELLOW @ lit ''[WARN]'' @ DEFAULT)"

definition fmt_log :: "log \<Rightarrow> rstr" where
  "fmt_log g = level_label (log_level g) @ lit '' '' @ log_message g"

definition logger_new :: logger where
  "logger_new = \<lparr>logs = []\<rparr>"

definition logger_log :: "logger \<Rightarrow> level \<Rightarrow> rstr \<Rightarrow> logger" where
  "logger_log lg l m = lg\<lparr>logs := logs lg @ [\<lparr>log_level = l, log_message = m\<rparr>]\<rparr>"

definition get_logs :: "logger \<Rightarrow> log list" where
  "get_logs lg = logs lg"

definition debug :: "logger \<Rightarrow> rstr \<Rightarrow> logger" where "debug lg m = logger_log lg Debug m"
definition error :: "logger \<Rightarrow> rstr \<Rightarrow> logger" where "error lg m = logger_log lg Error m"
definition fatal :: "logger \<Rightarrow> rstr \<Rightarrow> logger" where "fatal lg m = logger_log lg Fatal m"
definition info :: "logger \<Rightarrow> rstr \<Rightarrow> logger" where "info lg m = logger_log lg Info m"
definition trace :: "logger \<Rightarrow> rstr \<Rightarrow> logger" where "trace lg m = logger_log lg Trace m"
definition warn :: "logger \<Rightarrow> rstr \<Rightarrow> logger" where "warn lg m = logger_log lg Warn m"

lemmas logger_macro_defs = debug_def error_def fatal_def info_def trace_def warn_def

section \<open>The log only grows\<close>

definition extends_log :: "logger \<Rightarrow> logger \<Rightarrow> bool" where
  "extends_log lg lg' \<longleftrightarrow> (\<exists>new. logs lg' = logs lg @ new)"

lemma extends_log_refl [simp, intro]: "extends_log lg lg"
  by (simp add: extends_log_def)

lemma extends_log_trans [trans]:
  "extends_log a b \<Longrightarrow> extends_log b c \<Longrightarrow> extends_log a c"
  by (auto simp: extends_log_def)

lemma extends_log_log [simp, intro]: "extends_log lg (logger_log lg l m)"
  by (simp add: extends_log_def logger_log_def)

lemma logs_logger_log [simp]:
  "logs (logger_log lg l m) = logs lg @ [\<lparr>log_level = l, log_message = m\<rparr>]"
  by (simp add: logger_log_def)

end
