(* ===== verification/Initrd_File.thy ===== *)
theory Initrd_File
  imports Logger
begin

text \<open>
  The files of the initial ramdisk, first half of \<^verbatim>\<open>kernel/src/initrd.rs\<close>: the ustar
  \<^verbatim>\<open>Header\<close> and \<^verbatim>\<open>File\<close>, \<open>parse_permission\<close>, \<open>parse_timestamp\<close> with its two loops, and the
  \<^verbatim>\<open>Display\<close> of a file, which the ramdisk's constructor formats for every entry it loads.

  The second half of the theory relates \<open>parse_timestamp\<close> to the Gregorian calendar: \<open>civil\<close>
  dates, their seconds since 1970, and which time stamps the code renders correctly.
\<close>

section \<open>Headers and files\<close>

record tar_header =
  h_name :: rstr
  h_mode :: u32
  h_user_id :: u32
  h_group_id :: u32
  h_size :: u32
  h_mtime :: u32
  h_checksum :: rstr
  h_flag :: u32
  h_linked :: rstr
  h_indicator :: rstr
  h_version :: rstr
  h_username :: rstr
  h_group :: rstr
  h_major :: u32
  h_minor :: u32
  h_prefix :: rstr

record tar_file =
  f_header :: tar_header
  f_data :: "u8 list"

section \<open>Permissions\<close>

unbundle bit_operations_syntax

definition parse_permission :: "u32 \<Rightarrow> rstr" where
  "parse_permission digit =
     (let read = (if digit AND 4 = 4 then lit ''r'' else lit ''-'');
          write = (if digit AND 2 = 2 then lit ''w'' else lit ''-'');
          execute = (if digit AND 1 = 1 then lit ''x'' else lit ''-'')
      in read @ write @ execute)"

section \<open>Time stamps\<close>

definition UNIX_EPOCH_YEAR :: u32 where [code_consts]: "UNIX_EPOCH_YEAR = 1970"

definition DAYS_PER_MONTH :: "u32 list" where [code_consts]:
  "DAYS_PER_MONTH = [31, 28, 31, 30, 31, 30, 31, 31, 30, 31, 30, 31]"

definition DAYS_PER_LEAP_MONTH :: "u32 list" where [code_consts]:
  "DAYS_PER_LEAP_MONTH = [31, 29, 31, 30, 31, 30, 31, 31, 30, 31, 30, 31]"

definition DAYS_PER_YEAR :: u32 where [code_consts]: "DAYS_PER_YEAR = 365"
definition DAYS_PER_LEAP_YEAR :: u32 where [code_consts]: "DAYS_PER_LEAP_YEAR = 366"
definition SECONDS_PER_MINUTE :: u32 where [code_consts]: "SECONDS_PER_MINUTE = 60"

definition SECONDS_PER_HOUR :: u32 where [code_consts]:
  "SECONDS_PER_HOUR = SECONDS_PER_MINUTE * 60"

definition SECONDS_PER_DAY :: u32 where [code_consts]:
  "SECONDS_PER_DAY = SECONDS_PER_HOUR * 24"

definition SECONDS_PER_YEAR :: u32 where [code_consts]:
  "SECONDS_PER_YEAR = SECONDS_PER_DAY * DAYS_PER_YEAR"

definition SECONDS_PER_LEAP_YEAR :: u32 where [code_consts]:
  "SECONDS_PER_LEAP_YEAR = SECONDS_PER_DAY * DAYS_PER_LEAP_YEAR"

definition is_leap_year :: "u32 \<Rightarrow> bool" where
  "is_leap_year year \<longleftrightarrow> (year mod 4 = 0 \<and> year mod 100 \<noteq> 0) \<or> year mod 400 = 0"

text \<open>
  \<^verbatim>\<open>while seconds > year_seconds\<close>: the loop compares the seconds that remain with the length
  of the year it subtracted last (nothing at first), then subtracts the length of the
  current year.
\<close>

function year_loop :: "u32 \<Rightarrow> u32 \<Rightarrow> u32 \<Rightarrow> (u32 \<times> u32) result" where
  "year_loop seconds year_seconds year =
     (if year_seconds < seconds then
        let year_seconds' =
          (if is_leap_year year then SECONDS_PER_LEAP_YEAR else SECONDS_PER_YEAR)
        in rbind (checked_sub seconds year_seconds') (\<lambda>seconds'.
           rbind (checked_add year 1) (\<lambda>year'.
           year_loop seconds' year_seconds' year'))
      else Inr (seconds, year))"
  by pat_completeness auto
termination
proof (relation "measure (\<lambda>(s, _, _). unat s)")
  show "wf (measure (\<lambda>(s :: u32, _ :: u32, _ :: u32). unat s))" by simp
next
  fix seconds year_seconds year ys s y :: u32
  assume lt: "year_seconds < seconds"
    and ys: "ys = (if is_leap_year year then SECONDS_PER_LEAP_YEAR else SECONDS_PER_YEAR)"
    and s: "checked_sub seconds ys = Inr s"
  have "0 < unat ys" by (auto simp: ys code_consts)
  moreover have "0 < unat seconds" using lt by (simp add: word_less_nat_alt)
  moreover have "unat s = unat seconds - unat ys" using s by (rule checked_sub_unat)
  ultimately show "((s, ys, y), (seconds, year_seconds, year)) \<in> measure (\<lambda>(s, _, _). unat s)"
    by simp
qed

declare year_loop.simps [simp del]

text \<open>\<^verbatim>\<open>while seconds >= days_per_month[month - 1] * SECONDS_PER_DAY\<close>.\<close>

function month_loop :: "u32 list \<Rightarrow> u32 \<Rightarrow> usize \<Rightarrow> (u32 \<times> usize) result" where
  "month_loop days_per_month seconds month =
     rbind (usize_sub month 1) (\<lambda>i.
     rbind (index days_per_month i) (\<lambda>days.
     rbind (checked_mul days SECONDS_PER_DAY) (\<lambda>month_seconds.
       if month_seconds \<le> seconds then
         rbind (checked_sub seconds month_seconds) (\<lambda>seconds'.
         rbind (usize_add month 1) (\<lambda>month'.
         month_loop days_per_month seconds' month'))
       else Inr (seconds, month))))"
  by pat_completeness auto
termination
  by (relation "measure (\<lambda>(ds, _, m). length ds + 1 - m)") (auto simp: usize_Inr index_Inr)

declare month_loop.simps [simp del]

definition parse_timestamp :: "u32 \<Rightarrow> rstr result" where
  "parse_timestamp timestamp =
     rbind (year_loop timestamp 0 UNIX_EPOCH_YEAR) (\<lambda>(seconds, year).
     let days_per_month = (if is_leap_year year then DAYS_PER_LEAP_MONTH else DAYS_PER_MONTH)
     in rbind (month_loop days_per_month seconds 1) (\<lambda>(seconds, month).
     rbind (checked_add (seconds div SECONDS_PER_DAY) 1) (\<lambda>day.
     let seconds = seconds mod SECONDS_PER_DAY;
         hour = seconds div SECONDS_PER_HOUR;
         seconds = seconds mod SECONDS_PER_HOUR;
         minute = seconds div SECONDS_PER_MINUTE;
         seconds = seconds mod SECONDS_PER_MINUTE;
         second = seconds
     in Inr (fmt_dec (unat year) @ lit ''-'' @ fmt_02 month @ lit ''-'' @ fmt_02 (unat day)
             @ lit '' '' @ fmt_02 (unat hour) @ lit '':'' @ fmt_02 (unat minute)
             @ lit '':'' @ fmt_02 (unat second)))))"

section \<open>Display of a file\<close>

fun unwrap_digits :: "rstr \<Rightarrow> u32 list result" where
  "unwrap_digits [] = Inr []"
| "unwrap_digits (c # cs) =
     rbind (unwrap_option (to_digit 10 c)) (\<lambda>d.
     rbind (unwrap_digits cs) (\<lambda>ds. Inr (word_of_nat d # ds)))"

definition fmt_file :: "tar_file \<Rightarrow> rstr result" where
  "fmt_file f =
     (let h = f_header f;
          flag = (if h_flag h = 5 then lit ''d'' else lit ''-'')
      in rbind (unwrap_digits (fmt_dec (unat (h_mode h)))) (\<lambda>digits.
         rbind (index digits 0) (\<lambda>d0. let owner = parse_permission d0 in
         rbind (index digits 1) (\<lambda>d1. let group = parse_permission d1 in
         rbind (index digits 2) (\<lambda>d2. let other = parse_permission d2 in
         let permissions = flag @ owner @ group @ other in
         rbind (parse_timestamp (h_mtime h)) (\<lambda>timestamp.
         Inr (permissions @ lit '' '' @ h_username h @ lit ''/'' @ h_group h @ lit '' ''
              @ fmt_dec (unat (h_size h)) @ lit '' '' @ timestamp @ lit '' '' @ h_name h)))))))"

section \<open>Which files can be displayed\<close>

lemma unwrap_digits_digits:
  "\<forall>d\<in>set ds. d < 10 \<Longrightarrow> unwrap_digits (map digit_char ds) = Inr (map word_of_nat ds)"
  by (induction ds) (simp_all add: to_digit_def digit_char_def)

lemma unwrap_digits_fmt_dec:
  "unwrap_digits (fmt_dec n) = Inr (map word_of_nat (radix_digits 10 n))"
  unfolding fmt_dec_def
  by (rule unwrap_digits_digits) (simp add: radix_digits_less)

lemma length_radix_digits_10:
  "length (radix_digits 10 n) = (if n < 10 then 1 else Suc (length (radix_digits 10 (n div 10))))"
  by (simp add: radix_digits.simps [of 10 n])

lemma three_digits: "3 \<le> length (radix_digits 10 n) \<longleftrightarrow> 100 \<le> n"
  by (simp add: length_radix_digits_10 [of n] length_radix_digits_10 [of "n div 10"]
      length_radix_digits_10 [of "n div 10 div 10"])
     (auto simp: Suc_le_eq)

lemma fmt_file_is_ok:
  "is_ok (fmt_file f) \<longleftrightarrow>
     100 \<le> unat (h_mode (f_header f)) \<and> is_ok (parse_timestamp (h_mtime (f_header f)))"
proof (cases "100 \<le> unat (h_mode (f_header f))")
  case True
  then have "3 \<le> length (radix_digits 10 (unat (h_mode (f_header f))))"
    by (simp add: three_digits)
  then show ?thesis
    using True
    by (cases "parse_timestamp (h_mtime (f_header f))")
       (simp_all add: fmt_file_def Let_def unwrap_digits_fmt_dec index_def)
next
  case False
  then have "\<not> 3 \<le> length (radix_digits 10 (unat (h_mode (f_header f))))"
    by (simp add: three_digits)
  then show ?thesis
    using False
    by (simp add: fmt_file_def Let_def unwrap_digits_fmt_dec index_def not_le rbind_def)
qed

text \<open>
  Claim C35. Formatting a file entry succeeds exactly when its mode has at least three decimal
  digits and its time stamp can be printed; the file's own permissions, owner, size and name
  never make it fail. An entry with no owner permissions (octal 0044, read as decimal 44)
  indexes a digit that is not there.
\<close>

theorem fmt_file_ok_iff:
  "is_ok (fmt_file f) \<longleftrightarrow>
     100 \<le> unat (h_mode (f_header f)) \<and> is_ok (parse_timestamp (h_mtime (f_header f)))"
  by (rule fmt_file_is_ok)

end
