(* ===== verification/Calendar.thy ===== *)
theory Calendar
  imports Initrd_File
begin

text \<open>
  The calendar that \<open>parse_timestamp\<close> is meant to compute, as a specification independent of
  its loops: a \<open>civil\<close> date and time, when it is valid in the proleptic Gregorian calendar,
  and how many seconds after 1970-01-01 00:00:00 it lies. The lemmas walk the code's two
  loops over this specification and find every time stamp on which one of them panics.
\<close>

section \<open>Civil dates\<close>

record civil =
  c_year :: nat
  c_month :: nat
  c_day :: nat
  c_hour :: nat
  c_minute :: nat
  c_second :: nat

definition leap :: "nat \<Rightarrow> bool" where
  "leap y \<longleftrightarrow> 4 dvd y \<and> (\<not> 100 dvd y \<or> 400 dvd y)"

definition month_days :: "nat \<Rightarrow> nat list" where
  "month_days y = [31, if leap y then 29 else 28, 31, 30, 31, 30, 31, 31, 30, 31, 30, 31]"

definition day_seconds :: nat where "day_seconds = 24 * 60 * 60"

definition year_seconds_of :: "nat \<Rightarrow> nat" where
  "year_seconds_of y = sum_list (month_days y) * day_seconds"

definition valid_civil :: "civil \<Rightarrow> bool" where
  "valid_civil c \<longleftrightarrow>
     1970 \<le> c_year c \<and> 1 \<le> c_month c \<and> c_month c \<le> 12
     \<and> 1 \<le> c_day c \<and> c_day c \<le> month_days (c_year c) ! (c_month c - 1)
     \<and> c_hour c < 24 \<and> c_minute c < 60 \<and> c_second c < 60"

definition year_start :: "nat \<Rightarrow> nat" where
  "year_start y = sum_list (map year_seconds_of [1970..<y])"

definition second_of_day :: "civil \<Rightarrow> nat" where
  "second_of_day c = (c_hour c * 60 + c_minute c) * 60 + c_second c"

definition second_of_year :: "civil \<Rightarrow> nat" where
  "second_of_year c =
     (sum_list (take (c_month c - 1) (month_days (c_year c))) + (c_day c - 1)) * day_seconds
     + second_of_day c"

definition seconds_since_epoch :: "civil \<Rightarrow> nat" where
  "seconds_since_epoch c = year_start (c_year c) + second_of_year c"

definition render_civil :: "civil \<Rightarrow> rstr" where
  "render_civil c =
     fmt_dec (c_year c) @ lit ''-'' @ fmt_02 (c_month c) @ lit ''-'' @ fmt_02 (c_day c)
     @ lit '' '' @ fmt_02 (c_hour c) @ lit '':'' @ fmt_02 (c_minute c)
     @ lit '':'' @ fmt_02 (c_second c)"

section \<open>Where the loops go wrong\<close>

text \<open>
  The year loop compares the remaining seconds with the length of the \<^emph>\<open>previous\<close> year. In
  1970 (no previous year) and on the last day of a leap year it therefore enters the body
  once too often, and the subtraction underflows.
\<close>

definition underflows :: "civil \<Rightarrow> bool" where
  "underflows c \<longleftrightarrow>
     (if c_year c = 1970 then 0 < second_of_year c
      else leap (c_year c) \<and> 365 * day_seconds < second_of_year c)"

text \<open>
  And it stops one year early where the remaining seconds do not exceed the length of the
  year before: at the first second after two years of equal length, and for the whole first
  day after a common year that followed a leap year. The month loop then runs past December.
\<close>

definition stops_early :: "civil \<Rightarrow> bool" where
  "stops_early c \<longleftrightarrow>
     1972 \<le> c_year c \<and> \<not> leap (c_year c - 1)
     \<and> (if leap (c_year c - 2) then second_of_year c \<le> day_seconds else second_of_year c = 0)"

section \<open>Years\<close>

definition previous_year_seconds :: "nat \<Rightarrow> nat" where
  "previous_year_seconds y = (if y \<le> 1970 then 0 else year_seconds_of (y - 1))"

lemma year_seconds_of_eq:
  "year_seconds_of y = (if leap y then 366 * day_seconds else 365 * day_seconds)"
  by (simp add: year_seconds_of_def month_days_def)

lemma day_seconds_eq: "day_seconds = 86400"
  by (simp add: day_seconds_def)

lemma year_start_Suc: "1970 \<le> y \<Longrightarrow> year_start (Suc y) = year_start y + year_seconds_of y"
  by (simp add: year_start_def)

lemma year_start_1970 [simp]: "year_start 1970 = 0"
  by (simp add: year_start_def)

lemma year_start_lower: "k * 31536000 \<le> year_start (1970 + k)"
proof (induction k)
  case (Suc k)
  have "year_start (1970 + Suc k) = year_start (1970 + k) + year_seconds_of (1970 + k)"
    using year_start_Suc [of "1970 + k"] by simp
  with Suc show ?case by (simp add: year_seconds_of_eq day_seconds_eq)
qed simp

lemma year_start_mono: "y \<le> z \<Longrightarrow> year_start y \<le> year_start z"
  by (rule lift_Suc_mono_le) (simp_all add: year_start_def)

lemma is_leap_year_leap: "is_leap_year y \<longleftrightarrow> leap (unat y)"
proof -
  have "y mod k = 0 \<longleftrightarrow> unat k dvd unat y" for k :: u32
    by (simp add: unat_eq_zero [symmetric] unat_mod_distrib dvd_eq_mod_eq_0)
  from this [of 4] this [of 100] this [of 400] show ?thesis
    by (auto simp: is_leap_year_def leap_def)
qed

lemma year_constants:
  "unat (if is_leap_year y then SECONDS_PER_LEAP_YEAR else SECONDS_PER_YEAR)
     = year_seconds_of (unat y)"
  by (simp add: is_leap_year_leap year_seconds_of_eq day_seconds_eq code_consts)

text \<open>One turn of the loop, over natural numbers.\<close>

definition year_loop_nat :: "nat \<Rightarrow> nat \<Rightarrow> nat \<Rightarrow> (u32 \<times> u32) result" where
  "year_loop_nat s ys y = year_loop (word_of_nat s) (word_of_nat ys) (word_of_nat y)"

lemma year_loop_nat_step:
  assumes "s < 2 ^ 32" "ys < 2 ^ 32" "y < 4000"
  shows "year_loop_nat s ys y =
    (if s \<le> ys then Inr (word_of_nat s, word_of_nat y)
     else if s < year_seconds_of y then Inl ArithOverflow
     else year_loop_nat (s - year_seconds_of y) (year_seconds_of y) (Suc y))"
proof -
  define W where "W = (word_of_nat s :: u32)"
  define P where "P = (word_of_nat ys :: u32)"
  define Y where "Y = (word_of_nat y :: u32)"
  define c where "c = (if is_leap_year Y then SECONDS_PER_LEAP_YEAR else SECONDS_PER_YEAR)"
  have [simp]: "unat W = s" "unat P = ys" "unat Y = y"
    using assms by (simp_all add: W_def P_def Y_def unat_of_nat)
  have c: "unat c = year_seconds_of y"
    unfolding c_def year_constants by simp
  have "Y + 1 = word_of_nat (Suc y)" by (simp add: Y_def)
  then have add: "checked_add Y 1 = Inr (word_of_nat (Suc y))"
    using assms by (simp add: checked_add_def unat_of_nat)
  have sub: "checked_sub W c = (if s < year_seconds_of y then Inl ArithOverflow
      else Inr (word_of_nat (s - year_seconds_of y)))"
  proof (cases "s < year_seconds_of y")
    case False
    then have le: "c \<le> W" by (simp add: word_le_nat_alt c)
    then have "unat (W - c) = s - year_seconds_of y" by (simp add: unat_sub c)
    then have "W - c = word_of_nat (s - year_seconds_of y)" by (metis of_nat_unat ucast_id)
    with le False show ?thesis by (simp add: checked_sub_def)
  qed (simp add: checked_sub_def word_le_nat_alt c)
  have "year_loop W P Y =
    (if P < W then rbind (checked_sub W c) (\<lambda>s'. year_loop s' c (word_of_nat (Suc y)))
     else Inr (W, Y))"
    by (subst year_loop.simps) (simp only: c_def [symmetric] add Let_def rbind_simps)
  moreover have "word_of_nat (year_seconds_of y) = c"
    by (metis c of_nat_unat ucast_id)
  ultimately have "year_loop W P Y =
    (if s \<le> ys then Inr (W, Y)
     else if s < year_seconds_of y then Inl ArithOverflow
     else year_loop (word_of_nat (s - year_seconds_of y)) (word_of_nat (year_seconds_of y))
            (word_of_nat (Suc y)))"
    by (simp only: sub word_less_nat_alt \<open>unat W = s\<close> \<open>unat P = ys\<close> not_le [symmetric])
       (simp only: rbind_simps if_distrib [of "\<lambda>r. rbind r _"] split: if_split, blast)
  then show ?thesis
    by (simp only: year_loop_nat_def W_def P_def Y_def)
qed

text \<open>As long as the guard holds and a whole year fits, the loop just counts years.\<close>

lemma year_loop_nat_skip:
  assumes "1970 \<le> y" "y + k < 4000" "year_start (y + k) \<le> t" "t < 2 ^ 32"
    and "\<forall>z. y \<le> z \<and> z < y + k \<longrightarrow> previous_year_seconds z < t - year_start z"
  shows "year_loop_nat (t - year_start y) (previous_year_seconds y) y
    = year_loop_nat (t - year_start (y + k)) (previous_year_seconds (y + k)) (y + k)"
  using assms
proof (induction k arbitrary: y)
  case 0
  then show ?case by simp
next
  case (Suc k)
  have mono: "year_start (Suc y) \<le> year_start (y + Suc k)"
    by (rule year_start_mono) simp
  have start: "year_start (Suc y) = year_start y + year_seconds_of y"
    using Suc.prems(1) by (rule year_start_Suc)
  have prev: "previous_year_seconds (Suc y) = year_seconds_of y"
    using Suc.prems(1) by (simp add: previous_year_seconds_def)
  have small: "previous_year_seconds y < 2 ^ 32"
    by (simp add: previous_year_seconds_def year_seconds_of_eq day_seconds_eq)
  have "year_loop_nat (t - year_start y) (previous_year_seconds y) y
    = year_loop_nat (t - year_start (Suc y)) (previous_year_seconds (Suc y)) (Suc y)"
    using Suc.prems mono start prev small
    by (subst year_loop_nat_step) (auto simp: not_le)
  also have "\<dots> = year_loop_nat (t - year_start (Suc y + k))
        (previous_year_seconds (Suc y + k)) (Suc y + k)"
    by (rule Suc.IH) (use Suc.prems in auto)
  finally show ?case by simp
qed

section \<open>Months\<close>

text \<open>The month loop subtracts the months it passes; \<open>skip_months\<close> is that on numbers.\<close>

fun skip_months :: "nat list \<Rightarrow> nat \<Rightarrow> nat \<Rightarrow> (nat \<times> nat) option" where
  "skip_months [] s m = None"
| "skip_months (d # ds) s m =
     (if d * day_seconds \<le> s then skip_months ds (s - d * day_seconds) (Suc m) else Some (s, m))"

lemma skip_months_hit:
  assumes "k < length ds" "r < ds ! k * day_seconds"
  shows "skip_months ds (sum_list (take k ds) * day_seconds + r) m = Some (r, m + k)"
  using assms
proof (induction ds arbitrary: k m)
  case (Cons d ds)
  show ?case
  proof (cases k)
    case 0
    with Cons.prems show ?thesis by simp
  next
    case (Suc j)
    have "skip_months ds (sum_list (take j ds) * day_seconds + r) (Suc m) = Some (r, Suc m + j)"
      using Cons.prems Suc by (intro Cons.IH) auto
    then show ?thesis using Suc by (simp add: algebra_simps)
  qed
qed simp

lemma skip_months_past: "sum_list ds * day_seconds \<le> s \<Longrightarrow> skip_months ds s m = None"
  by (induction ds arbitrary: s m) (auto simp: algebra_simps)

lemma unat_SECONDS_PER_DAY: "unat SECONDS_PER_DAY = day_seconds"
  by (simp add: code_consts day_seconds_eq)

lemma month_loop_skip_months:
  assumes "1 \<le> m" "m \<le> Suc (length ds)" "length ds < 100" "\<forall>d\<in>set ds. unat d < 100"
  shows "month_loop ds s m =
    (case skip_months (map unat (drop (m - 1) ds)) (unat s) m of
       None \<Rightarrow> Inl IndexOutOfBounds
     | Some (r, k) \<Rightarrow> Inr (word_of_nat r, k))"
  using assms
proof (induction ds s m rule: month_loop.induct)
  case (1 ds s m)
  obtain i where m: "m = Suc i" using 1(2) by (cases m) auto
  show ?case
  proof (cases "i < length ds")
    case False
    with 1(3) m have "i = length ds" by simp
    then show ?thesis
      by (simp add: m month_loop.simps [of ds s "Suc (length ds)"] usize_sub_def index_def)
  next
    case True
    define d where "d = ds ! i"
    have d: "unat d < 100" using 1 True by (simp add: d_def)
    have drop: "drop i ds = d # drop (Suc i) ds"
      using True by (simp add: d_def Cons_nth_drop_Suc [symmetric])
    have mul: "checked_mul d SECONDS_PER_DAY = Inr (d * SECONDS_PER_DAY)"
      and ud: "unat (d * SECONDS_PER_DAY) = unat d * day_seconds"
      using d by (simp_all add: checked_mul_def unat_SECONDS_PER_DAY day_seconds_eq unat_word_ariths)
    have unfold: "month_loop ds s (Suc i) =
      (if d * SECONDS_PER_DAY \<le> s then month_loop ds (s - d * SECONDS_PER_DAY) (Suc (Suc i))
       else Inr (s, Suc i))"
      using 1(2-4) True
      by (simp add: m month_loop.simps [of ds s "Suc i"] usize_sub_def usize_add_def index_def
            d_def [symmetric] mul checked_sub_def)
    show ?thesis
    proof (cases "d * SECONDS_PER_DAY \<le> s")
      case le: True
      have "month_loop ds (s - d * SECONDS_PER_DAY) (Suc (Suc i)) =
        (case skip_months (map unat (drop (Suc i) ds)) (unat (s - d * SECONDS_PER_DAY)) (Suc (Suc i)) of
           None \<Rightarrow> Inl IndexOutOfBounds
         | Some (r, k) \<Rightarrow> Inr (word_of_nat r, k))"
        using 1(1) [OF _ _ mul le, of i "s - d * SECONDS_PER_DAY" "Suc (Suc i)"] 1(2-) True le
        by (simp add: m usize_sub_def usize_add_def index_def d_def checked_sub_def)
      then show ?thesis
        using le by (simp add: m unfold drop word_le_nat_alt ud unat_sub)
    next
      case False
      then show ?thesis by (simp add: m unfold drop word_le_nat_alt ud)
    qed
  qed
qed

section \<open>The time stamp of a civil date\<close>

lemma second_of_day_less: "valid_civil c \<Longrightarrow> second_of_day c < day_seconds"
  by (simp add: valid_civil_def second_of_day_def day_seconds_def)

lemma month_part_less:
  assumes "valid_civil c"
  shows "(c_day c - 1) * day_seconds + second_of_day c
    < month_days (c_year c) ! (c_month c - 1) * day_seconds"
proof -
  let ?n = "month_days (c_year c) ! (c_month c - 1)"
  have "Suc (c_day c - 1) \<le> ?n" using assms by (auto simp: valid_civil_def)
  then have "Suc (c_day c - 1) * day_seconds \<le> ?n * day_seconds" by (rule mult_le_mono1)
  with second_of_day_less [OF assms] show ?thesis by simp
qed

lemma sum_list_take_nth_le:
  "k < length ds \<Longrightarrow> sum_list (take k ds) + ds ! k \<le> sum_list (ds :: nat list)"
  by (metis append_take_drop_id le_add1 sum_list_append take_Suc_conv_app_nth sum_list.Cons
      sum_list.Nil add_0_right)

lemma second_of_year_less:
  assumes "valid_civil c"
  shows "second_of_year c < year_seconds_of (c_year c)"
proof -
  let ?ds = "month_days (c_year c)" and ?k = "c_month c - 1"
  have k: "?k < length ?ds" using assms by (auto simp: valid_civil_def month_days_def)
  have "second_of_year c < (sum_list (take ?k ?ds) + ?ds ! ?k) * day_seconds"
    using month_part_less [OF assms] by (simp add: second_of_year_def algebra_simps)
  also have "\<dots> \<le> sum_list ?ds * day_seconds"
    by (rule mult_le_mono1) (rule sum_list_take_nth_le [OF k])
  finally show ?thesis by (simp add: year_seconds_of_def)
qed

lemma four_dvd_not_consecutive: "4 dvd y \<Longrightarrow> \<not> 4 dvd Suc y"
  by presburger

lemma leap_not_consecutive: "leap y \<Longrightarrow> \<not> leap (Suc y)"
  by (auto simp: leap_def dest: four_dvd_not_consecutive)

lemma two_years_longer:
  assumes "1970 \<le> z" "Suc z < y" "year_start y \<le> t"
  shows "previous_year_seconds z < t - year_start z"
proof -
  have "year_start (Suc (Suc z)) \<le> year_start y"
    using assms by (intro year_start_mono) simp
  then have "year_start z + year_seconds_of z + year_seconds_of (Suc z) \<le> t"
    using assms by (simp add: year_start_Suc)
  moreover have "previous_year_seconds z \<le> 366 * day_seconds"
    by (simp add: previous_year_seconds_def year_seconds_of_eq)
  moreover have "365 * day_seconds \<le> year_seconds_of z" "365 * day_seconds \<le> year_seconds_of (Suc z)"
    by (simp_all add: year_seconds_of_eq)
  ultimately show ?thesis unfolding day_seconds_eq by linarith
qed

lemma civil_year_bound:
  assumes "valid_civil c" "seconds_since_epoch c < 2 ^ 32"
  shows "c_year c < 2110"
proof -
  obtain k where k: "c_year c = 1970 + k"
    using assms by (auto simp: valid_civil_def le_iff_add)
  have "k * 31536000 < 2 ^ 32"
    using year_start_lower [of k] assms(2) by (simp add: k seconds_since_epoch_def)
  then show ?thesis using k by simp
qed

text \<open>
  With \<open>X\<close> the year before the date's: the loop gets to \<open>X\<close>, stops there exactly on the dates of
  \<open>stops_early\<close>, and goes on to the date's year otherwise, where it underflows on those of \<open>underflows\<close>.
\<close>

lemma stops_early_iff:
  assumes "c_year c = Suc X" "1970 \<le> X"
  shows "year_seconds_of X + second_of_year c \<le> previous_year_seconds X \<longleftrightarrow> stops_early c"
proof (cases "X = 1970")
  case True
  then show ?thesis
    using assms by (simp add: previous_year_seconds_def stops_early_def year_seconds_of_eq day_seconds_eq)
next
  case False
  then obtain W where W: "X = Suc W" "1970 \<le> W" using assms(2) by (cases X) auto
  then show ?thesis
    using assms leap_not_consecutive [of W]
    by (auto simp: previous_year_seconds_def stops_early_def year_seconds_of_eq day_seconds_eq)
qed

lemma underflows_iff:
  assumes "c_year c = Suc X" "1970 \<le> X" "second_of_year c < year_seconds_of (Suc X)"
  shows "second_of_year c \<le> year_seconds_of X \<longleftrightarrow> \<not> underflows c"
  using assms leap_not_consecutive [of X]
  by (auto simp: underflows_def year_seconds_of_eq day_seconds_eq split: if_splits)

lemma early_not_underflow: "stops_early c \<Longrightarrow> \<not> underflows c"
  by (auto simp: stops_early_def underflows_def day_seconds_eq split: if_splits)

lemma year_loop_before:
  assumes "1970 \<le> X" "X < 2109" "t = year_start (Suc X) + S" "t < 2 ^ 32"
  shows "year_loop_nat t 0 1970 = year_loop_nat (year_seconds_of X + S) (previous_year_seconds X) X"
proof -
  have tX: "t = year_start X + year_seconds_of X + S"
    using assms(1,3) by (simp add: year_start_Suc)
  have "year_loop_nat (t - year_start 1970) (previous_year_seconds 1970) 1970
    = year_loop_nat (t - year_start (1970 + (X - 1970)))
        (previous_year_seconds (1970 + (X - 1970))) (1970 + (X - 1970))"
    using two_years_longer [of _ "Suc X" t] assms tX by (intro year_loop_nat_skip) auto
  then show ?thesis
    using assms(1) tX by (simp add: previous_year_seconds_def [of 1970])
qed

lemma year_loop_last:
  assumes "c_year c = Suc X" "1970 \<le> X" "X < 2109" "second_of_year c < year_seconds_of (Suc X)"
  shows "year_loop_nat (year_seconds_of X + second_of_year c) (previous_year_seconds X) X =
    (if underflows c then Inl ArithOverflow
     else if stops_early c then Inr (word_of_nat (year_seconds_of X + second_of_year c), word_of_nat X)
     else Inr (word_of_nat (second_of_year c), word_of_nat (Suc X)))"
proof -
  let ?S = "second_of_year c"
  have small: "year_seconds_of X + ?S < 2 ^ 32" "year_seconds_of X < 2 ^ 32" "previous_year_seconds X < 2 ^ 32"
      "?S < 2 ^ 32"
    using assms(4) by (simp_all add: previous_year_seconds_def year_seconds_of_eq day_seconds_eq split: if_splits)
  have prev: "previous_year_seconds (Suc X) = year_seconds_of X"
    using assms(2) by (simp add: previous_year_seconds_def)
  have "year_loop_nat (year_seconds_of X + ?S) (previous_year_seconds X) X
    = (if stops_early c then Inr (word_of_nat (year_seconds_of X + ?S), word_of_nat X)
      else year_loop_nat ?S (year_seconds_of X) (Suc X))"
    using small assms stops_early_iff [OF assms(1,2)] by (subst year_loop_nat_step) auto
  also have "year_loop_nat ?S (year_seconds_of X) (Suc X) =
      (if ?S \<le> year_seconds_of X then Inr (word_of_nat ?S, word_of_nat (Suc X)) else Inl ArithOverflow)"
    using small assms prev by (subst year_loop_nat_step) auto
  finally show ?thesis
    using underflows_iff [OF assms(1,2,4)] early_not_underflow [of c] by auto
qed

lemma year_loop_civil:
  assumes valid: "valid_civil c" and bound: "seconds_since_epoch c < 2 ^ 32"
  shows "year_loop (word_of_nat (seconds_since_epoch c)) 0 UNIX_EPOCH_YEAR =
    (if underflows c then Inl ArithOverflow
     else if stops_early c
     then Inr (word_of_nat (year_seconds_of (c_year c - 1) + second_of_year c),
               word_of_nat (c_year c - 1))
     else Inr (word_of_nat (second_of_year c), word_of_nat (c_year c)))"
proof -
  let ?S = "second_of_year c" and ?t = "seconds_since_epoch c"
  note S = second_of_year_less [OF valid]
  have Y: "1970 \<le> c_year c" "c_year c < 2110"
    using valid civil_year_bound [OF valid bound] by (simp_all add: valid_civil_def)
  have start: "year_loop (word_of_nat ?t) 0 UNIX_EPOCH_YEAR = year_loop_nat ?t 0 1970"
    by (simp add: year_loop_nat_def UNIX_EPOCH_YEAR_def)
  show ?thesis
  proof (cases "c_year c = 1970")
    case True
    then have t: "?t = ?S" by (simp add: seconds_since_epoch_def)
    then have "year_loop_nat ?S 0 1970 = (if ?S = 0 then Inr (0, 1970) else Inl ArithOverflow)"
      using S True bound by (subst year_loop_nat_step) auto
    then show ?thesis
      using True t start by (auto simp: underflows_def stops_early_def)
  next
    case False
    then obtain X where X: "c_year c = Suc X" "1970 \<le> X" "X < 2109" using Y by (cases "c_year c") auto
    have "year_loop_nat ?t 0 1970 = year_loop_nat (year_seconds_of X + ?S) (previous_year_seconds X) X"
      by (rule year_loop_before) (use X bound in \<open>simp_all add: seconds_since_epoch_def\<close>)
    then show ?thesis
      using year_loop_last [OF X] S X(1) start by simp
  qed
qed

section \<open>The civil date of a time stamp\<close>

function find_year :: "nat \<Rightarrow> nat \<Rightarrow> nat \<times> nat" where
  "find_year s y =
     (if s < year_seconds_of y then (s, y) else find_year (s - year_seconds_of y) (Suc y))"
  by pat_completeness auto
termination
  by (relation "measure fst") (auto simp: year_seconds_of_eq day_seconds_eq split: if_splits)

declare find_year.simps [simp del]

definition civil_of :: "nat \<Rightarrow> civil" where
  "civil_of t =
     (let (s, y) = find_year t 1970;
          (r, m) = (case skip_months (month_days y) s 1 of Some rm \<Rightarrow> rm | None \<Rightarrow> (0, 0));
          u = r mod day_seconds
      in \<lparr>c_year = y, c_month = m, c_day = r div day_seconds + 1,
          c_hour = u div 3600, c_minute = u mod 3600 div 60, c_second = u mod 3600 mod 60\<rparr>)"

lemma find_year_correct:
  assumes "1970 \<le> y" "find_year s y = (s', y')"
  shows "1970 \<le> y' \<and> s' < year_seconds_of y' \<and> year_start y + s = year_start y' + s'"
  using assms
proof (induction s y rule: find_year.induct)
  case (1 s y)
  then show ?case
    by (cases "s < year_seconds_of y") (auto simp: find_year.simps [of s y] year_start_Suc)
qed

lemma skip_months_found:
  assumes "s < sum_list ds * day_seconds"
  shows "\<exists>r k. skip_months ds s m = Some (r, m + k) \<and> k < length ds
    \<and> r < ds ! k * day_seconds \<and> s = sum_list (take k ds) * day_seconds + r"
  using assms
proof (induction ds arbitrary: s m)
  case (Cons d ds)
  show ?case
  proof (cases "d * day_seconds \<le> s")
    case True
    with Cons.prems have "s - d * day_seconds < sum_list ds * day_seconds"
      by (simp add: algebra_simps)
    from Cons.IH [OF this, of "Suc m"] obtain r k where
      "skip_months ds (s - d * day_seconds) (Suc m) = Some (r, Suc m + k)" "k < length ds"
      "r < ds ! k * day_seconds" "s - d * day_seconds = sum_list (take k ds) * day_seconds + r"
      by blast
    with True show ?thesis
      by (intro exI [of _ r] exI [of _ "Suc k"]) (auto simp: algebra_simps)
  next
    case False
    then show ?thesis by (intro exI [of _ s] exI [of _ 0]) auto
  qed
qed simp

lemma civil_of_correct: "valid_civil (civil_of t) \<and> seconds_since_epoch (civil_of t) = t"
proof -
  obtain s y where fy: "find_year t 1970 = (s, y)" by fastforce
  have y: "1970 \<le> y" "s < year_seconds_of y" "t = year_start y + s"
    using find_year_correct [OF _ fy] by auto
  obtain r k where sm: "skip_months (month_days y) s 1 = Some (r, 1 + k)" "k < 12"
      "r < month_days y ! k * day_seconds" "s = sum_list (take k (month_days y)) * day_seconds + r"
    using skip_months_found [of s "month_days y" 1] y(2)
    by (auto simp: year_seconds_of_def) (auto simp: month_days_def)
  define u where "u = r mod day_seconds"
  have u: "u < 86400" by (simp add: u_def day_seconds_eq)
  have c: "civil_of t = \<lparr>c_year = y, c_month = Suc k, c_day = r div day_seconds + 1,
      c_hour = u div 3600, c_minute = u mod 3600 div 60, c_second = u mod 3600 mod 60\<rparr>"
    using fy sm(1) by (simp add: civil_of_def u_def Let_def)
  then have year: "c_year (civil_of t) = y" by simp
  have "r div day_seconds < month_days y ! k"
    using sm(3) by (simp add: less_mult_imp_div_less)
  then have "valid_civil (civil_of t)"
    using y(1) sm(2) u by (simp add: c valid_civil_def less_mult_imp_div_less)
  moreover have "(u div 3600 * 60 + u mod 3600 div 60) * 60 + u mod 3600 mod 60 = u"
    unfolding add_mult_distrib mult.assoc
    using div_mult_mod_eq [of u 3600] div_mult_mod_eq [of "u mod 3600" 60] by simp
  then have "second_of_year (civil_of t) = s"
    using sm(4) div_mult_mod_eq [of r day_seconds]
    by (simp add: c second_of_year_def second_of_day_def algebra_simps u_def)
  ultimately show ?thesis
    unfolding seconds_since_epoch_def year using y(3) by simp
qed

section \<open>What the code renders\<close>

lemma days_per_month_table:
  "map unat (if is_leap_year y then DAYS_PER_LEAP_MONTH else DAYS_PER_MONTH)
     = month_days (unat y)"
  by (simp add: is_leap_year_leap month_days_def code_consts)

lemma month_loop_table:
  assumes "tbl = (if is_leap_year y then DAYS_PER_LEAP_MONTH else DAYS_PER_MONTH)"
  shows "month_loop tbl s 1 =
    (case skip_months (month_days (unat y)) (unat s) 1 of
       None \<Rightarrow> Inl IndexOutOfBounds
     | Some (r, k) \<Rightarrow> Inr (word_of_nat r, k))"
proof -
  have "map unat (drop 0 tbl) = month_days (unat y)"
    unfolding assms drop_0 by (rule days_per_month_table)
  moreover have "\<forall>d\<in>set tbl. unat d < 100" "length tbl < 100"
    by (auto simp: assms code_consts)
  ultimately show ?thesis
    using month_loop_skip_months [of 1 tbl s] by simp
qed

lemma split_seconds:
  fixes R :: u32
  assumes "unat R = d * day_seconds + (h * 3600 + m * 60 + s)" "h < 24" "m < 60" "s < 60"
  shows "unat (R div SECONDS_PER_DAY) = d"
    and "unat (R mod SECONDS_PER_DAY div SECONDS_PER_HOUR) = h"
    and "unat (R mod SECONDS_PER_DAY mod SECONDS_PER_HOUR div SECONDS_PER_MINUTE) = m"
    and "unat (R mod SECONDS_PER_DAY mod SECONDS_PER_HOUR mod SECONDS_PER_MINUTE) = s"
proof -
  have H: "unat SECONDS_PER_HOUR = 3600" "unat SECONDS_PER_MINUTE = 60"
    by (simp_all add: code_consts)
  have u: "h * 3600 + m * 60 + s < day_seconds" using assms by (simp add: day_seconds_eq)
  have v: "m * 60 + s < 3600" using assms by simp
  have D: "unat R mod day_seconds = h * 3600 + (m * 60 + s)"
    using u by (simp add: assms(1))
  have E: "(h * 3600 + (m * 60 + s)) mod 3600 = m * 60 + s" using v by simp
  show "unat (R div SECONDS_PER_DAY) = d"
    using u by (simp add: unat_div_distrib unat_SECONDS_PER_DAY assms(1))
  show "unat (R mod SECONDS_PER_DAY div SECONDS_PER_HOUR) = h"
    using v by (simp add: unat_div_distrib unat_mod_distrib unat_SECONDS_PER_DAY D H)
  show "unat (R mod SECONDS_PER_DAY mod SECONDS_PER_HOUR div SECONDS_PER_MINUTE) = m"
    using assms(3,4) by (simp add: unat_div_distrib unat_mod_distrib unat_SECONDS_PER_DAY D H E)
  show "unat (R mod SECONDS_PER_DAY mod SECONDS_PER_HOUR mod SECONDS_PER_MINUTE) = s"
    using assms(4) v by (simp add: unat_mod_distrib unat_SECONDS_PER_DAY D H)
qed

text \<open>The month loop after a year loop that stopped a year early, and after one that did not.\<close>

lemma month_loop_early:
  assumes "stops_early c" "c_year c < 2110"
  shows "month_loop (if is_leap_year (word_of_nat (c_year c - 1)) then DAYS_PER_LEAP_MONTH else DAYS_PER_MONTH)
    (word_of_nat (year_seconds_of (c_year c - 1) + second_of_year c)) 1 = Inl IndexOutOfBounds"
proof -
  define T where "T = year_seconds_of (c_year c - 1) + second_of_year c"
  have "second_of_year c \<le> day_seconds" using assms(1) by (auto simp: stops_early_def split: if_splits)
  then have "T < 2 ^ 32" by (simp add: T_def year_seconds_of_eq day_seconds_eq)
  then have "unat (word_of_nat T :: u32) = T" by (simp add: unat_of_nat)
  moreover have "unat (word_of_nat (c_year c - 1) :: u32) = c_year c - 1" using assms(2) by (simp add: unat_of_nat)
  moreover have "skip_months (month_days (c_year c - 1)) T 1 = None"
    by (rule skip_months_past) (simp add: T_def year_seconds_of_def)
  ultimately show ?thesis
    unfolding T_def [symmetric] by (simp add: month_loop_table [OF refl] del: One_nat_def)
qed

lemma month_loop_civil:
  assumes "valid_civil c" "c_year c < 2110"
  obtains R where "month_loop (if is_leap_year (word_of_nat (c_year c)) then DAYS_PER_LEAP_MONTH else DAYS_PER_MONTH)
      (word_of_nat (second_of_year c)) 1 = Inr (R, c_month c)"
    "unat R = (c_day c - 1) * day_seconds + (c_hour c * 3600 + c_minute c * 60 + c_second c)"
proof -
  let ?Y = "c_year c" and ?S = "second_of_year c" and ?k = "c_month c - 1"
  define r where "r = (c_day c - 1) * day_seconds + second_of_day c"
  have k: "?k < length (month_days ?Y)" "1 + ?k = c_month c"
    using assms(1) by (auto simp: valid_civil_def month_days_def)
  have r: "r < month_days ?Y ! ?k * day_seconds"
    unfolding r_def by (rule month_part_less [OF assms(1)])
  have S: "?S = sum_list (take ?k (month_days ?Y)) * day_seconds + r" "?S < year_seconds_of ?Y"
    using second_of_year_less [OF assms(1)] by (simp_all add: second_of_year_def r_def algebra_simps)
  then have small: "?S < 2 ^ 32" "r < 2 ^ 32" by (simp_all add: year_seconds_of_eq day_seconds_eq split: if_splits)
  have "skip_months (month_days ?Y) ?S 1 = Some (r, c_month c)"
    using skip_months_hit [OF k(1) r, of 1] k(2) S(1) by simp
  moreover have "unat (word_of_nat ?S :: u32) = ?S" "unat (word_of_nat ?Y :: u32) = ?Y"
    using small(1) assms(2) by (simp_all add: unat_of_nat)
  ultimately have "month_loop (if is_leap_year (word_of_nat ?Y) then DAYS_PER_LEAP_MONTH
      else DAYS_PER_MONTH) (word_of_nat ?S) 1 = Inr (word_of_nat r, c_month c)"
    by (simp add: month_loop_table [OF refl] del: One_nat_def)
  moreover have "unat (word_of_nat r :: u32)
      = (c_day c - 1) * day_seconds + (c_hour c * 3600 + c_minute c * 60 + c_second c)"
    using small(2) by (simp add: unat_of_nat) (simp add: r_def second_of_day_def algebra_simps)
  ultimately show thesis by (rule that)
qed

lemma parse_timestamp_civil:
  assumes valid: "valid_civil c" and sec: "seconds_since_epoch c = unat t"
  shows "parse_timestamp t =
    (if underflows c then Inl ArithOverflow
     else if stops_early c then Inl IndexOutOfBounds
     else Inr (render_civil c))"
proof -
  let ?Y = "c_year c" and ?S = "second_of_year c"
  have bound: "seconds_since_epoch c < 2 ^ 32" using unsigned_less [of t] by (simp add: sec)
  have Y: "?Y < 2110" by (rule civil_year_bound [OF valid bound])
  have loop: "year_loop t 0 UNIX_EPOCH_YEAR =
    (if underflows c then Inl ArithOverflow
     else if stops_early c
     then Inr (word_of_nat (year_seconds_of (?Y - 1) + ?S), word_of_nat (?Y - 1))
     else Inr (word_of_nat ?S, word_of_nat ?Y))"
    using year_loop_civil [OF valid bound] by (simp add: sec)
  obtain R where month: "month_loop (if is_leap_year (word_of_nat ?Y) then DAYS_PER_LEAP_MONTH
        else DAYS_PER_MONTH) (word_of_nat ?S) 1 = Inr (R, c_month c)"
      "unat R = (c_day c - 1) * day_seconds + (c_hour c * 3600 + c_minute c * 60 + c_second c)"
    by (rule month_loop_civil [OF valid Y])
  have "c_hour c < 24" "c_minute c < 60" "c_second c < 60" using valid by (simp_all add: valid_civil_def)
  note split = split_seconds [OF month(2) this]
  have day: "1 \<le> c_day c" "c_day c \<le> 31"
    using valid by (auto simp: valid_civil_def month_days_def less_Suc_eq numeral_eq_Suc
        nth_Cons' split: if_splits)
  have unatY: "unat (word_of_nat ?Y :: u32) = ?Y" using Y by (simp add: unat_of_nat)
  have "checked_add (R div SECONDS_PER_DAY) 1 = Inr (R div SECONDS_PER_DAY + 1)"
      "unat (R div SECONDS_PER_DAY + 1) = c_day c"
    using split(1) day by (simp_all add: checked_add_def unat_word_ariths)
  then show ?thesis
    using month_loop_early [OF _ Y] split
    by (simp add: parse_timestamp_def loop month(1) unatY render_civil_def Let_def del: One_nat_def)
qed

text \<open>
  Claim C1. For every 32-bit time stamp, \<^verbatim>\<open>File::parse_timestamp\<close> either prints exactly the
  Gregorian date and time of that second, or panics, and it panics exactly on the dates of
  \<open>underflows\<close> (the subtraction in the year loop overflows) and \<open>stops_early\<close> (the month
  loop indexes past December).
\<close>

theorem parse_timestamp_spec:
  "parse_timestamp t =
    (let c = civil_of (unat t)
     in if underflows c then Inl ArithOverflow
        else if stops_early c then Inl IndexOutOfBounds
        else Inr (render_civil c))"
  using parse_timestamp_civil [of "civil_of (unat t)" t] civil_of_correct [of "unat t"]
  by (simp add: Let_def)

text \<open>
  No wrong date is ever printed: whatever text \<^verbatim>\<open>parse_timestamp\<close> returns is the
  rendering of a valid calendar date that lies exactly \<open>t\<close> seconds after the epoch.
\<close>

theorem parse_timestamp_sound:
  assumes "parse_timestamp t = Inr s"
  shows "\<exists>c. valid_civil c \<and> seconds_since_epoch c = unat t \<and> s = render_civil c"
proof -
  let ?c = "civil_of (unat t)"
  have c: "valid_civil ?c" "seconds_since_epoch ?c = unat t"
    using civil_of_correct [of "unat t"] by simp_all
  moreover have "s = render_civil ?c"
    using assms parse_timestamp_civil [OF c] by (simp split: if_splits)
  ultimately show ?thesis by blast
qed

definition boot_day :: civil where
  "boot_day = \<lparr>c_year = 2024, c_month = 8, c_day = 27, c_hour = 16, c_minute = 0, c_second = 0\<rparr>"

lemma boot_day_seconds: "valid_civil boot_day" "seconds_since_epoch boot_day = 1724774400"
  by (simp_all add: boot_day_def valid_civil_def month_days_def leap_def)
     (simp add: seconds_since_epoch_def year_start_def upt_rec_numeral year_seconds_of_eq leap_def
        day_seconds_eq second_of_year_def second_of_day_def month_days_def)

lemma boot_day_renders:
  "parse_timestamp 1724774400 = Inr (render_civil boot_day)"
  using parse_timestamp_civil [of boot_day 1724774400] boot_day_seconds
  by (simp add: boot_day_def underflows_def stops_early_def leap_def second_of_year_def
        second_of_day_def month_days_def day_seconds_eq)

lemma parse_timestamp_sound_witness:
  "\<exists>c. valid_civil c \<and> seconds_since_epoch c = unat (1724774400 :: u32)
     \<and> render_civil boot_day = render_civil c"
  by (rule parse_timestamp_sound [OF boot_day_renders])

text \<open>
  A file last modified at any moment of the first of January of a year that comes
  two years after a leap year (2022 or 2026, say) makes \<^verbatim>\<open>parse_timestamp\<close> index month 13,
  which panics.
\<close>

theorem parse_timestamp_new_year_panics:
  assumes "valid_civil c" "seconds_since_epoch c = unat t"
    and "c_month c = 1" "c_day c = 1" "1972 \<le> c_year c" "leap (c_year c - 2)"
  shows "parse_timestamp t = Inl IndexOutOfBounds"
proof -
  have "second_of_year c < day_seconds"
    using second_of_day_less [OF assms(1)] assms(3,4) by (simp add: second_of_year_def)
  moreover have "\<not> leap (c_year c - 1)"
  proof -
    have "c_year c - 1 = Suc (c_year c - 2)" using assms(5) by simp
    with leap_not_consecutive [OF assms(6)] show ?thesis by simp
  qed
  ultimately have "stops_early c" "\<not> underflows c"
    using assms(5,6) by (auto simp: stops_early_def underflows_def day_seconds_eq)
  then show ?thesis using parse_timestamp_civil [OF assms(1,2)] by simp
qed

definition new_year_2026 :: civil where
  "new_year_2026 =
     \<lparr>c_year = 2026, c_month = 1, c_day = 1, c_hour = 12, c_minute = 30, c_second = 0\<rparr>"

lemma parse_timestamp_new_year_panics_witness: "parse_timestamp 1767270600 = Inl IndexOutOfBounds"
proof (rule parse_timestamp_new_year_panics [of new_year_2026])
  show "valid_civil new_year_2026"
    by (simp add: new_year_2026_def valid_civil_def month_days_def)
  show "seconds_since_epoch new_year_2026 = unat (1767270600 :: u32)"
    by (simp add: new_year_2026_def seconds_since_epoch_def year_start_def upt_rec_numeral
        year_seconds_of_eq leap_def day_seconds_eq second_of_year_def second_of_day_def
        month_days_def)
qed (simp_all add: new_year_2026_def leap_def)

end
