(* ===== verification/Initrd.thy ===== *)
theory Initrd
  imports Initrd_File
begin

text \<open>
  The initial ramdisk, second half of \<^verbatim>\<open>kernel/src/initrd.rs\<close>: the ustar parser that walks the
  module the boot loader left in memory, the loop of \<^verbatim>\<open>Initrd::new\<close>, and the lookups.

  Memory is a function from 64-bit addresses to bytes. The response of the Limine boot
  protocol is an argument: \<open>None\<close> when the loader gave none, otherwise the addresses of the
  modules. The loop has no bound of its own (it runs to the first block of zeros), so it is a
  \<^theory_text>\<open>partial_function\<close> whose value \<open>None\<close> means that it does not stop.
\<close>

type_synonym memory = "u64 \<Rightarrow> u8"

definition BLOCK_SIZE :: usize where [code_consts]: "BLOCK_SIZE = 512"

definition EOF_BLOCK :: "u8 list" where "EOF_BLOCK = replicate BLOCK_SIZE 0"

section \<open>Fields\<close>

definition read_bytes :: "memory \<Rightarrow> u64 \<Rightarrow> usize \<Rightarrow> u8 list" where
  "read_bytes mem address n = map (\<lambda>i. mem (address + word_of_nat i)) [0..<n]"

definition parse_slice :: "memory \<Rightarrow> u64 \<Rightarrow> usize \<Rightarrow> rstr result" where
  "parse_slice mem address n =
     rbind (unwrap_result (from_utf8 (read_bytes mem address n))) (\<lambda>s.
     Inr (trim_end_matches 0 s))"

definition parse_string :: "memory \<Rightarrow> u64 \<Rightarrow> usize \<Rightarrow> rstr result" where
  "parse_string mem address n = parse_slice mem address n"

definition parse_integer :: "memory \<Rightarrow> u64 \<Rightarrow> usize \<Rightarrow> u32 result" where
  "parse_integer mem address n =
     rbind (parse_slice mem address n) (\<lambda>s.
     Inr (case from_str_radix (2 ^ 32) 10 s of None \<Rightarrow> 0 | Some v \<Rightarrow> word_of_nat v))"

definition parse_octal :: "memory \<Rightarrow> u64 \<Rightarrow> usize \<Rightarrow> u32 result" where
  "parse_octal mem address n =
     rbind (parse_slice mem address n) (\<lambda>s.
     rbind (unwrap_result (from_str_radix (2 ^ 32) 8 s)) (\<lambda>v. Inr (word_of_nat v)))"

text \<open>\<^verbatim>\<open>slice.as_ref().unwrap()\<close> fails on the null address.\<close>

definition parse_block :: "memory \<Rightarrow> u64 \<Rightarrow> usize \<Rightarrow> u8 list result" where
  "parse_block mem address n =
     (if address = 0 then Inl UnwrapNone else Inr (read_bytes mem address n))"

definition parse_data :: "memory \<Rightarrow> u64 \<Rightarrow> u32 \<Rightarrow> u8 list result" where
  "parse_data mem address n =
     (if address = 0 then Inl UnwrapNone else Inr (read_bytes mem address (unat n)))"

definition parse_header :: "memory \<Rightarrow> u64 \<Rightarrow> tar_header result" where
  "parse_header mem address =
     rbind (parse_string mem address 100) (\<lambda>name.
     rbind (parse_integer mem (address + 100) 8) (\<lambda>mode.
     rbind (parse_octal mem (address + 108) 8) (\<lambda>user_id.
     rbind (parse_octal mem (address + 116) 8) (\<lambda>group_id.
     rbind (parse_octal mem (address + 124) 12) (\<lambda>size.
     rbind (parse_octal mem (address + 136) 12) (\<lambda>mtime.
     rbind (parse_string mem (address + 148) 8) (\<lambda>checksum.
     rbind (parse_integer mem (address + 156) 1) (\<lambda>flag.
     rbind (parse_string mem (address + 157) 100) (\<lambda>linked.
     rbind (parse_string mem (address + 257) 6) (\<lambda>indicator.
     rbind (parse_string mem (address + 263) 2) (\<lambda>version.
     rbind (parse_string mem (address + 265) 32) (\<lambda>username.
     rbind (parse_string mem (address + 297) 32) (\<lambda>group.
     rbind (parse_integer mem (address + 329) 8) (\<lambda>major.
     rbind (parse_integer mem (address + 337) 8) (\<lambda>minor.
     rbind (parse_string mem (address + 345) 155) (\<lambda>prefix.
     Inr \<lparr>h_name = name, h_mode = mode, h_user_id = user_id, h_group_id = group_id,
          h_size = size, h_mtime = mtime, h_checksum = checksum, h_flag = flag,
          h_linked = linked, h_indicator = indicator, h_version = version,
          h_username = username, h_group = group, h_major = major, h_minor = minor,
          h_prefix = prefix\<rparr>))))))))))))))))"

section \<open>Loading the archive\<close>

record initrd =
  files :: "tar_file list"

definition div_ceil :: "u32 \<Rightarrow> u32 \<Rightarrow> u32" where
  "div_ceil a b = (if a mod b = 0 then a div b else a div b + 1)"

text \<open>The body of the loop: one entry, and the address of the next one.\<close>

definition load_entry ::
    "memory \<Rightarrow> u64 \<Rightarrow> logger \<Rightarrow> logger \<times> (tar_file \<times> u64) result" where
  "load_entry mem address lg =
     (case
        rbind (parse_header mem address) (\<lambda>header.
        rbind
          (if h_size header \<noteq> 0 then
             let address = address + word_of_nat BLOCK_SIZE in
             rbind (parse_data mem address (h_size header)) (\<lambda>data.
             rbind (usize_mul BLOCK_SIZE (unat (div_ceil (h_size header) (word_of_nat BLOCK_SIZE))))
               (\<lambda>n. Inr (data, address + word_of_nat n)))
           else Inr ([], address + word_of_nat BLOCK_SIZE)) (\<lambda>(data, address).
        let f = \<lparr>f_header = header, f_data = data\<rparr> in
        rbind (fmt_file f) (\<lambda>message. Inr (message, f, address))))
      of Inl p \<Rightarrow> (lg, Inl p)
       | Inr (message, f, address) \<Rightarrow> (trace lg message, Inr (f, address)))"

partial_function (option) initrd_loop ::
    "memory \<Rightarrow> u64 \<Rightarrow> logger \<Rightarrow> tar_file list \<Rightarrow> (logger \<times> tar_file list result) option" where
  "initrd_loop mem address lg fs =
     (case parse_block mem address BLOCK_SIZE of
        Inl p \<Rightarrow> Some (lg, Inl p)
      | Inr block \<Rightarrow>
          if block = EOF_BLOCK then Some (lg, Inr fs)
          else (case load_entry mem address lg of
                  (lg', Inl p) \<Rightarrow> Some (lg', Inl p)
                | (lg', Inr (f, address')) \<Rightarrow> initrd_loop mem address' lg' (fs @ [f])))"

definition initrd_new ::
    "memory \<Rightarrow> u64 list option \<Rightarrow> logger \<Rightarrow> (logger \<times> initrd result) option" where
  "initrd_new mem modules lg =
     (case rbind (unwrap_option modules) (\<lambda>ms. index ms 0) of
        Inl p \<Rightarrow> Some (lg, Inl p)
      | Inr address \<Rightarrow>
          map_option (\<lambda>(lg', r). (lg', rbind r (\<lambda>fs. Inr \<lparr>files = fs\<rparr>)))
            (initrd_loop mem address lg []))"

definition get_files :: "initrd \<Rightarrow> tar_file list" where
  "get_files rd = files rd"

definition get_data :: "initrd \<Rightarrow> rstr \<Rightarrow> u8 list result" where
  "get_data rd path =
     rbind (unwrap_option (List.find (\<lambda>x. h_name (f_header x) = path) (files rd))) (\<lambda>f.
     Inr (f_data f))"

definition initrd_initialize :: "initrd \<Rightarrow> logger \<Rightarrow> logger" where
  "initrd_initialize rd lg =
     debug lg (lit ''Loaded '' @ fmt_dec (length (get_files rd))
               @ lit '' files from the initial ramdisk.'')"

section \<open>The lookup interface\<close>

text \<open>
  What the loaders (ELF files, images, fonts, the shell's configuration) rely on: \<open>lookup\<close>
  answers from an association list of paths and contents, in which the first entry of a path
  counts, and panics on a path that is not there.
\<close>

locale asset_store =
  fixes lookup :: "'fs \<Rightarrow> rstr \<Rightarrow> u8 list result"
    and contents :: "'fs \<Rightarrow> (rstr \<times> u8 list) list"
  assumes lookup_contents: "lookup fs path = unwrap_option (map_of (contents fs) path)"
begin

lemma lookup_present: "map_of (contents fs) path = Some d \<Longrightarrow> lookup fs path = Inr d"
  by (simp add: lookup_contents)

lemma lookup_absent: "path \<notin> fst ` set (contents fs) \<Longrightarrow> lookup fs path = Inl UnwrapNone"
  using map_of_eq_None_iff [of "contents fs" path] by (simp add: lookup_contents)

lemma lookup_Inr_iff: "lookup fs path = Inr d \<longleftrightarrow> map_of (contents fs) path = Some d"
  by (simp add: lookup_contents)

lemma lookup_Inl: "lookup fs path = Inl p \<Longrightarrow> p = UnwrapNone \<and> path \<notin> fst ` set (contents fs)"
  by (cases "map_of (contents fs) path") (auto simp: lookup_contents map_of_eq_None_iff)

text \<open>A loader that parses what it looked up depends on the bytes under its path only.\<close>

lemma loader_cong:
  "map_of (contents fs) path = map_of (contents fs') path \<Longrightarrow>
     rbind (lookup fs path) parse = rbind (lookup fs' path) parse"
  by (simp add: lookup_contents)

lemma loader_present:
  "map_of (contents fs) path = Some d \<Longrightarrow> rbind (lookup fs path) parse = parse d"
  by (simp add: lookup_present)

lemma loader_absent:
  "path \<notin> fst ` set (contents fs) \<Longrightarrow> rbind (lookup fs path) parse = Inl UnwrapNone"
  by (simp add: lookup_absent)

end

definition initrd_contents :: "initrd \<Rightarrow> (rstr \<times> u8 list) list" where
  "initrd_contents rd = map (\<lambda>f. (h_name (f_header f), f_data f)) (files rd)"

lemma find_map_of:
  "map_option v (List.find (\<lambda>x. k x = p) xs) = map_of (map (\<lambda>x. (k x, v x)) xs) p"
  by (induction xs) auto

interpretation ramdisk: asset_store get_data initrd_contents
proof unfold_locales
  fix rd path
  have "map_of (initrd_contents rd) path
      = map_option f_data (List.find (\<lambda>x. h_name (f_header x) = path) (files rd))"
    by (simp add: initrd_contents_def find_map_of)
  then show "get_data rd path = unwrap_option (map_of (initrd_contents rd) path)"
    by (cases "List.find (\<lambda>x. h_name (f_header x) = path) (files rd)")
       (simp_all add: get_data_def)
qed

text \<open>A ramdisk with given contents, for concrete inputs.\<close>

definition file_of :: "rstr \<times> u8 list \<Rightarrow> tar_file" where
  "file_of pd = \<lparr>f_header = \<lparr>h_name = fst pd, h_mode = 644, h_user_id = 0, h_group_id = 0,
     h_size = word_of_nat (length (snd pd)), h_mtime = 0, h_checksum = [], h_flag = 0,
     h_linked = [], h_indicator = lit ''ustar'', h_version = lit ''00'',
     h_username = lit ''root'', h_group = lit ''root'', h_major = 0, h_minor = 0,
     h_prefix = []\<rparr>, f_data = snd pd\<rparr>"

definition ramdisk_with :: "(rstr \<times> u8 list) list \<Rightarrow> initrd" where
  "ramdisk_with pds = \<lparr>files = map file_of pds\<rparr>"

lemma contents_ramdisk_with [simp]: "initrd_contents (ramdisk_with pds) = pds"
  by (simp add: initrd_contents_def ramdisk_with_def file_of_def comp_def)

end
