(* ===== verification/Ustar.thy ===== *)
theory Ustar
  imports Initrd Calendar
begin

text \<open>
  The archive format that \<open>initrd_new\<close> reads, written down from the other side: an encoder for
  headers, files and whole archives (the layout that \<^verbatim>\<open>tar --format ustar\<close> produces, which the
  \<^verbatim>\<open>Makefile\<close> calls), and the proof that loading an encoded archive gives back its files.
\<close>

section \<open>Memory contents\<close>

definition mem_holds :: "memory \<Rightarrow> u64 \<Rightarrow> u8 list \<Rightarrow> bool" where
  "mem_holds mem a bs \<longleftrightarrow> read_bytes mem a (length bs) = bs"

lemma length_read_bytes [simp]: "length (read_bytes mem a n) = n"
  by (simp add: read_bytes_def)

lemma read_bytes_append:
  "read_bytes mem a (n + m) = read_bytes mem a n @ read_bytes mem (a + word_of_nat n) m"
  by (induction m) (simp_all add: read_bytes_def add.assoc)

lemma mem_holds_append:
  "mem_holds mem a (xs @ ys) \<longleftrightarrow>
     mem_holds mem a xs \<and> mem_holds mem (a + word_of_nat (length xs)) ys"
  by (simp add: mem_holds_def read_bytes_append append_eq_append_conv)

lemma mem_holds_read: "mem_holds mem a bs \<Longrightarrow> n = length bs \<Longrightarrow> read_bytes mem a n = bs"
  by (simp add: mem_holds_def)

section \<open>Encoding\<close>

definition text_fits :: "nat \<Rightarrow> rstr \<Rightarrow> bool" where
  "text_fits w s \<longleftrightarrow>
     length (utf8_bytes s) \<le> w \<and> (\<forall>c\<in>set s. scalar_value c) \<and> (s = [] \<or> last s \<noteq> 0)"

definition field_bytes :: "nat \<Rightarrow> rstr \<Rightarrow> u8 list" where
  "field_bytes w s = utf8_bytes s @ replicate (w - length (utf8_bytes s)) 0"

text \<open>A number in radix \<open>r\<close>, padded with leading zeros to one less than the field's width.\<close>

definition number_text :: "nat \<Rightarrow> nat \<Rightarrow> nat \<Rightarrow> rstr" where
  "number_text r w n =
     map digit_char (replicate (w - 1 - length (radix_digits r n)) 0 @ radix_digits r n)"

definition header_fields :: "tar_header \<Rightarrow> (nat \<times> rstr) list" where
  "header_fields h =
    [(100, h_name h), (8, number_text 10 8 (unat (h_mode h))),
     (8, number_text 8 8 (unat (h_user_id h))), (8, number_text 8 8 (unat (h_group_id h))),
     (12, number_text 8 12 (unat (h_size h))), (12, number_text 8 12 (unat (h_mtime h))),
     (8, h_checksum h), (1, number_text 10 1 (unat (h_flag h))), (100, h_linked h),
     (6, h_indicator h), (2, h_version h), (32, h_username h), (32, h_group h),
     (8, number_text 10 8 (unat (h_major h))), (8, number_text 10 8 (unat (h_minor h))),
     (155, h_prefix h)]"

definition encode_header :: "tar_header \<Rightarrow> u8 list" where
  "encode_header h = concat (map (\<lambda>(w, s). field_bytes w s) (header_fields h)) @ replicate 12 0"

definition padding :: "nat \<Rightarrow> u8 list" where
  "padding n = replicate ((512 - n mod 512) mod 512) 0"

definition encode_file :: "tar_file \<Rightarrow> u8 list" where
  "encode_file f = encode_header (f_header f) @ f_data f @ padding (length (f_data f))"

definition encode_archive :: "tar_file list \<Rightarrow> u8 list" where
  "encode_archive fs = concat (map encode_file fs) @ EOF_BLOCK"

definition header_fits :: "tar_header \<Rightarrow> bool" where
  "header_fits h \<longleftrightarrow>
     list_all (\<lambda>(w, s). text_fits w s) (header_fields h) \<and> h_name h \<noteq> [] \<and> hd (h_name h) \<noteq> 0"

definition file_fits :: "tar_file \<Rightarrow> bool" where
  "file_fits f \<longleftrightarrow> header_fits (f_header f) \<and> unat (h_size (f_header f)) = length (f_data f)"

section \<open>Fields read back\<close>

lemma length_field_bytes [simp]: "text_fits w s \<Longrightarrow> length (field_bytes w s) = w"
  by (simp add: field_bytes_def text_fits_def)

lemma parse_slice_field:
  assumes "text_fits w s" "mem_holds mem a (field_bytes w s)"
  shows "parse_slice mem a w = Inr s"
proof -
  have "read_bytes mem a w = field_bytes w s"
    using assms by (simp add: mem_holds_def)
  then show ?thesis
    using assms(1)
    by (simp add: parse_slice_def field_bytes_def text_fits_def from_utf8_padded
        trim_end_matches_padded)
qed

lemma digits_value_leading_zeros: "digits_value r 0 (replicate k 0 @ ds) = digits_value r 0 ds"
  by (induction k) simp_all

lemma text_fits_number_text:
  assumes "2 \<le> r" "r \<le> 10" "length (radix_digits r n) \<le> w" "1 \<le> w"
  shows "text_fits w (number_text r w n)"
proof -
  have digits: "\<forall>c\<in>set (number_text r w n). 48 \<le> c \<and> c < 58"
    using radix_digits_less [OF assms(1), of _ n] assms(2)
    by (fastforce simp: number_text_def digit_char_def)
  then have "\<forall>c\<in>set (number_text r w n). c < 128" by fastforce
  moreover have "length (number_text r w n) \<le> w"
    using assms(3,4) by (simp add: number_text_def)
  moreover have "number_text r w n \<noteq> [] \<Longrightarrow> 48 \<le> last (number_text r w n)"
    using digits last_in_set by blast
  ultimately show ?thesis
    by (cases "number_text r w n = []") (auto simp: text_fits_def length_utf8_bytes_ascii)
qed

lemma from_str_radix_number_text:
  assumes "2 \<le> r" "r \<le> 10" "n < lim"
  shows "from_str_radix lim r (number_text r w n) = Some n"
proof -
  let ?ds = "replicate (w - 1 - length (radix_digits r n)) 0 @ radix_digits r n"
  have "digits_value r 0 ?ds = n"
    using assms(1) by (simp add: digits_value_leading_zeros digits_value_radix_digits)
  moreover have "\<forall>d\<in>set ?ds. d < r" using assms(1) by (auto simp: radix_digits_less)
  ultimately show ?thesis
    unfolding number_text_def using from_str_radix_digits [of r ?ds lim] assms by simp
qed

lemma parse_integer_field:
  fixes v :: u32
  assumes "text_fits w (number_text 10 k (unat v))" "mem_holds mem a (field_bytes w (number_text 10 k (unat v)))"
  shows "parse_integer mem a w = Inr v"
proof -
  have "from_str_radix (2 ^ 32) 10 (number_text 10 k (unat v)) = Some (unat v)"
    using unat_bounds(3) [of v] by (intro from_str_radix_number_text) simp_all
  then show ?thesis
    using parse_slice_field [OF assms] by (simp add: parse_integer_def)
qed

lemma parse_octal_field:
  fixes v :: u32
  assumes "text_fits w (number_text 8 k (unat v))" "mem_holds mem a (field_bytes w (number_text 8 k (unat v)))"
  shows "parse_octal mem a w = Inr v"
proof -
  have "from_str_radix (2 ^ 32) 8 (number_text 8 k (unat v)) = Some (unat v)"
    using unat_bounds(3) [of v] by (intro from_str_radix_number_text) simp_all
  then show ?thesis
    using parse_slice_field [OF assms] by (simp add: parse_octal_def)
qed

lemma parse_header_encoded:
  assumes fits: "header_fits h" and mem: "mem_holds mem a (encode_header h)"
  shows "parse_header mem a = Inr h"
proof -
  note f = fits [unfolded header_fits_def header_fields_def, simplified]
  note m = mem [unfolded encode_header_def header_fields_def, simplified, unfolded mem_holds_append]
  note parsed = parse_slice_field [of _ _ mem] parse_integer_field [of _ _ _ mem]
    parse_octal_field [of _ _ _ mem]
  have "parse_string mem a 100 = Inr (h_name h)"
    "parse_integer mem (a + 100) 8 = Inr (h_mode h)"
    "parse_octal mem (a + 108) 8 = Inr (h_user_id h)"
    "parse_octal mem (a + 116) 8 = Inr (h_group_id h)"
    "parse_octal mem (a + 124) 12 = Inr (h_size h)"
    "parse_octal mem (a + 136) 12 = Inr (h_mtime h)"
    "parse_string mem (a + 148) 8 = Inr (h_checksum h)"
    "parse_integer mem (a + 156) 1 = Inr (h_flag h)"
    "parse_string mem (a + 157) 100 = Inr (h_linked h)"
    "parse_string mem (a + 257) 6 = Inr (h_indicator h)"
    "parse_string mem (a + 263) 2 = Inr (h_version h)"
    "parse_string mem (a + 265) 32 = Inr (h_username h)"
    "parse_string mem (a + 297) 32 = Inr (h_group h)"
    "parse_integer mem (a + 329) 8 = Inr (h_major h)"
    "parse_integer mem (a + 337) 8 = Inr (h_minor h)"
    "parse_string mem (a + 345) 155 = Inr (h_prefix h)"
    using f m by (auto intro!: parsed simp: parse_string_def add.commute [of a])
  then show ?thesis by (simp add: parse_header_def)
qed

section \<open>Entries and the loop\<close>

lemma length_encode_header: "header_fits h \<Longrightarrow> length (encode_header h) = 512"
  by (simp add: header_fits_def encode_header_def header_fields_def)

lemma length_padding [simp]: "length (padding n) = (512 - n mod 512) mod 512"
  by (simp add: padding_def)

lemma length_encode_file:
  "file_fits f \<Longrightarrow>
     length (encode_file f) = 512 + length (f_data f) + (512 - length (f_data f) mod 512) mod 512"
  by (simp add: encode_file_def file_fits_def length_encode_header)

lemma round_up_512: "512 * (if n mod 512 = 0 then n div 512 else n div 512 + 1)
    = n + (512 - n mod 512) mod (512 :: nat)"
proof (cases "n mod 512 = 0")
  case True
  then show ?thesis using mult_div_mod_eq [of 512 n] by simp
next
  case False
  moreover have "n mod 512 < 512" by simp
  moreover have "512 * (n div 512) + n mod 512 = n" by (rule mult_div_mod_eq)
  moreover have "512 * (q + 1) = k + (512 - r)" if "r < 512" "512 * q + r = k" for q r k :: nat
    using that by simp
  ultimately have "512 * (n div 512 + 1) = n + (512 - n mod 512)" by blast
  with False show ?thesis by simp
qed

lemma div_ceil_block:
  "512 * unat (div_ceil s 512) = unat s + (512 - unat s mod 512) mod 512"
proof -
  have d: "unat (s div 512) = unat s div 512" and m: "unat (s mod 512) = unat s mod 512"
    by (simp_all add: unat_div_distrib unat_mod_distrib)
  have "unat s div 512 < 2 ^ 32 - 1"
    using unat_bounds(3) [of s] by simp
  then have "unat (s div 512 + 1) = unat s div 512 + 1"
    using d by (simp add: unat_word_ariths)
  moreover have "s mod 512 = 0 \<longleftrightarrow> unat s mod 512 = 0"
    using m by (metis unat_0_iff)
  ultimately have "unat (div_ceil s 512)
      = (if unat s mod 512 = 0 then unat s div 512 else unat s div 512 + 1)"
    using d by (simp add: div_ceil_def)
  then show ?thesis using round_up_512 [of "unat s"] by simp
qed

lemma load_entry_encoded:
  assumes fits: "file_fits f" and mem: "mem_holds mem a (encode_file f)" and ok: "a + 512 \<noteq> 0"
  shows "load_entry mem a lg =
    (case fmt_file f of
       Inl p \<Rightarrow> (lg, Inl p)
     | Inr m \<Rightarrow> (trace lg m, Inr (f, a + word_of_nat (length (encode_file f)))))"
proof -
  let ?h = "f_header f" and ?n = "length (f_data f)"
  have h: "header_fits ?h" and n: "unat (h_size ?h) = ?n" using fits by (simp_all add: file_fits_def)
  have m: "mem_holds mem a (encode_header ?h)" "mem_holds mem (a + 512) (f_data f)"
    using mem length_encode_header [OF h] by (auto simp: encode_file_def mem_holds_append)
  have f: "\<lparr>f_header = ?h, f_data = f_data f\<rparr> = f" by simp
  have len: "length (encode_file f) = 512 + 512 * unat (div_ceil (h_size ?h) 512)"
    using length_encode_file [OF fits] div_ceil_block [of "h_size ?h"] by (simp add: n)
  have small: "512 * unat (div_ceil (h_size ?h) 512) < 2 ^ 64"
    using unat_bounds(3) [of "div_ceil (h_size ?h) 512"] by simp
  show ?thesis
  proof (cases "h_size ?h = 0")
    case True
    then have "f_data f = []" using n by simp
    then have "length (encode_file f) = 512" and f0: "\<lparr>f_header = ?h, f_data = []\<rparr> = f"
      using length_encode_file [OF fits] by simp_all
    with True show ?thesis
      by (simp add: load_entry_def parse_header_encoded [OF h m(1)] BLOCK_SIZE_def split: sum.split)
  next
    case False
    have data: "parse_data mem (a + 512) (h_size ?h) = Inr (f_data f)"
      using ok m(2) by (simp add: parse_data_def n mem_holds_def)
    have mul: "usize_mul 512 (unat (div_ceil (h_size ?h) 512))
        = Inr (512 * unat (div_ceil (h_size ?h) 512))"
      using small by (simp add: usize_mul_def)
    from False show ?thesis
      by (cases "fmt_file f")
         (simp_all add: load_entry_def parse_header_encoded [OF h m(1)] BLOCK_SIZE_def data mul len f
            Let_def add.assoc)
  qed
qed

lemma utf8_char_first: "c \<noteq> 0 \<Longrightarrow> \<exists>b bs. utf8_char c = b # bs \<and> b \<noteq> 0"
  by (simp add: utf8_char_def)

lemma encode_header_not_eof:
  assumes "header_fits h"
  shows "encode_header h \<noteq> EOF_BLOCK"
proof -
  obtain c s where name: "h_name h = c # s" "c \<noteq> 0" "scalar_value c"
    using assms by (cases "h_name h") (auto simp: header_fits_def header_fields_def text_fits_def)
  from utf8_char_first [OF name(2)] obtain b bs where b: "utf8_char c = b # bs" "b \<noteq> 0" by blast
  then have "b < 256" using utf8_char_bytes [OF name(3), of b] by simp
  then have "(word_of_nat b :: u8) \<noteq> 0"
    using b(2) by (simp add: unat_eq_zero [symmetric] unat_of_nat)
  then have "hd (encode_header h) \<noteq> 0"
    by (simp add: encode_header_def header_fields_def field_bytes_def utf8_bytes_def name(1) b(1))
  then show ?thesis
    by (auto simp: EOF_BLOCK_def BLOCK_SIZE_def)
qed

fun load_all :: "tar_file list \<Rightarrow> logger \<Rightarrow> tar_file list \<Rightarrow> logger \<times> tar_file list result" where
  "load_all [] lg loaded = (lg, Inr loaded)"
| "load_all (f # fs) lg loaded =
     (case fmt_file f of
        Inl p \<Rightarrow> (lg, Inl p)
      | Inr m \<Rightarrow> load_all fs (trace lg m) (loaded @ [f]))"

lemma unat_add_offset:
  "unat a + n < 2 ^ 64 \<Longrightarrow> unat (a + word_of_nat n) = unat a + n" for a :: u64
  by (simp add: unat_word_ariths unat_of_nat)

lemma initrd_loop_encoded:
  assumes "\<forall>f\<in>set fs. file_fits f" "mem_holds mem a (encode_archive fs)"
    and "a \<noteq> 0" "unat a + length (encode_archive fs) \<le> 2 ^ 64"
  shows "initrd_loop mem a lg loaded = Some (load_all fs lg loaded)"
  using assms
proof (induction fs arbitrary: a lg loaded)
  case Nil
  then have "read_bytes mem a 512 = EOF_BLOCK"
    by (intro mem_holds_read) (simp_all add: encode_archive_def EOF_BLOCK_def BLOCK_SIZE_def)
  with Nil show ?case
    by (subst initrd_loop.simps) (simp add: parse_block_def BLOCK_SIZE_def)
next
  case (Cons f fs)
  let ?n = "length (encode_file f)" and ?h = "encode_header (f_header f)"
  have fits: "file_fits f" "header_fits (f_header f)"
    using Cons.prems(1) by (auto simp: file_fits_def)
  have split: "encode_archive (f # fs) = encode_file f @ encode_archive fs"
    by (simp add: encode_archive_def)
  have m: "mem_holds mem a (encode_file f)" "mem_holds mem (a + word_of_nat ?n) (encode_archive fs)"
    using Cons.prems(2) by (simp_all add: split mem_holds_append)
  have "512 \<le> length (encode_archive fs)"
    by (simp add: encode_archive_def EOF_BLOCK_def BLOCK_SIZE_def)
  then have bound: "unat a + ?n + 512 \<le> 2 ^ 64" "unat a + ?n + length (encode_archive fs) \<le> 2 ^ 64"
    using Cons.prems(4) by (simp_all add: split)
  then have next_addr: "unat (a + word_of_nat ?n) = unat a + ?n"
    by (intro unat_add_offset) simp
  have "0 < unat a" using Cons.prems(3) by (simp add: unat_gt_0)
  then have nz: "a + word_of_nat ?n \<noteq> 0" using next_addr by (metis add_gr_0 unat_gt_0)
  have "512 \<le> ?n" using length_encode_file [OF fits(1)] by simp
  then have "unat (a + word_of_nat 512) = unat a + 512"
    using bound by (intro unat_add_offset) simp
  then have nz512: "a + 512 \<noteq> 0" using \<open>0 < unat a\<close> by (metis add_gr_0 of_nat_numeral unat_gt_0)
  have "mem_holds mem a ?h" using m(1) by (simp add: encode_file_def mem_holds_append)
  then have block: "parse_block mem a BLOCK_SIZE = Inr ?h"
    using Cons.prems(3) by (simp add: parse_block_def BLOCK_SIZE_def mem_holds_def
        length_encode_header [OF fits(2)])
  have IH: "initrd_loop mem (a + word_of_nat ?n) lg' l = Some (load_all fs lg' l)" for lg' l
    using Cons.prems(1) m(2) nz bound next_addr by (intro Cons.IH) auto
  show ?case
    by (subst initrd_loop.simps)
       (simp add: block encode_header_not_eof [OF fits(2)] load_entry_encoded [OF fits(1) m(1) nz512]
         IH split: sum.split)
qed

section \<open>Loading is the inverse of archiving\<close>

definition archive_at :: "memory \<Rightarrow> u64 \<Rightarrow> tar_file list \<Rightarrow> bool" where
  "archive_at mem a fs \<longleftrightarrow>
     (\<forall>f\<in>set fs. file_fits f) \<and> mem_holds mem a (encode_archive fs)
     \<and> a \<noteq> 0 \<and> unat a + length (encode_archive fs) \<le> 2 ^ 64"

definition trace_entry :: "tar_file \<Rightarrow> log" where
  "trace_entry f = \<lparr>log_level = Trace, log_message = projr (fmt_file f)\<rparr>"

lemma initrd_new_archive_at:
  "archive_at mem a fs \<Longrightarrow>
     initrd_new mem (Some (a # ms)) lg =
       Some (case load_all fs lg [] of (lg', r) \<Rightarrow> (lg', rbind r (\<lambda>fs. Inr \<lparr>files = fs\<rparr>)))"
  using initrd_loop_encoded [of fs mem a lg "[]"]
  by (simp add: archive_at_def initrd_new_def index_def)

lemma load_all_ok:
  assumes "\<forall>f\<in>set fs. is_ok (fmt_file f)"
  shows "\<exists>lg'. load_all (fs @ gs) lg loaded = load_all gs lg' (loaded @ fs)
    \<and> logs lg' = logs lg @ map trace_entry fs"
  using assms
proof (induction fs arbitrary: lg loaded)
  case (Cons f fs)
  then obtain m where m: "fmt_file f = Inr m" by (auto simp: is_ok_iff)
  from Cons.prems Cons.IH [of "trace lg m" "loaded @ [f]"] show ?case
    by (auto simp: m trace_entry_def trace_def)
qed auto

text \<open>
  Claim C2. For any archive laid out in memory as \<^verbatim>\<open>tar --format ustar\<close> lays it out, whose entries
  can all be displayed, \<^verbatim>\<open>Initrd::new\<close> stops, returns exactly the archived files in order and
  has traced each of them once.
\<close>

theorem initrd_new_roundtrip:
  assumes "archive_at mem a fs" "\<forall>f\<in>set fs. is_ok (fmt_file f)"
  shows "\<exists>lg'. initrd_new mem (Some (a # ms)) lg = Some (lg', Inr \<lparr>files = fs\<rparr>)
    \<and> logs lg' = logs lg @ map trace_entry fs"
  using load_all_ok [OF assms(2), of "[]" lg "[]"] initrd_new_archive_at [OF assms(1), of ms lg]
  by auto

text \<open>
  One entry that cannot be displayed stops the boot: the constructor panics with that
  entry's panic, after tracing the entries before it, however many follow.
\<close>

theorem initrd_new_panics:
  assumes "archive_at mem a (gs @ f # hs)" "\<forall>g\<in>set gs. is_ok (fmt_file g)" "fmt_file f = Inl p"
  shows "\<exists>lg'. initrd_new mem (Some (a # ms)) lg = Some (lg', Inl p)
    \<and> logs lg' = logs lg @ map trace_entry gs"
  using load_all_ok [OF assms(2), of "f # hs" lg "[]"] initrd_new_archive_at [OF assms(1), of ms lg]
    assms(3)
  by auto

text \<open>
  Claim C29. Looking a path up after loading returns the bytes that were archived under it, the
  first entry's if the path occurs twice, and panics if it does not occur.
\<close>

theorem archive_lookup:
  assumes "archive_at mem a fs" "\<forall>f\<in>set fs. is_ok (fmt_file f)"
  shows "\<exists>lg' rd. initrd_new mem (Some (a # ms)) lg = Some (lg', Inr rd)
    \<and> (\<forall>path. get_data rd path
          = unwrap_option (map_of (map (\<lambda>f. (h_name (f_header f), f_data f)) fs) path))"
proof -
  obtain lg' where "initrd_new mem (Some (a # ms)) lg = Some (lg', Inr \<lparr>files = fs\<rparr>)"
    using load_all_ok [OF assms(2), of "[]" lg "[]"] initrd_new_archive_at [OF assms(1), of ms lg]
    by auto
  then show ?thesis
    by (intro exI conjI allI) (auto simp: ramdisk.lookup_contents initrd_contents_def)
qed

section \<open>A concrete archive\<close>

definition mem_of :: "u64 \<Rightarrow> u8 list \<Rightarrow> memory" where
  "mem_of a bs = (\<lambda>x. let i = unat (x - a) in if i < length bs then bs ! i else 0)"

lemma mem_holds_mem_of: "length bs \<le> 2 ^ 64 \<Longrightarrow> mem_holds (mem_of a bs) a bs"
  by (auto simp: mem_holds_def read_bytes_def mem_of_def unat_of_nat intro!: nth_equalityI)

definition hostname_file :: tar_file where
  "hostname_file = \<lparr>f_header = \<lparr>h_name = lit ''initrd/etc/hostname'', h_mode = 644,
     h_user_id = 1000, h_group_id = 1000, h_size = 10, h_mtime = 1724774400,
     h_checksum = lit ''0013275'', h_flag = 0, h_linked = [], h_indicator = lit ''ustar'',
     h_version = lit ''00'', h_username = lit ''root'', h_group = lit ''root'', h_major = 0,
     h_minor = 0, h_prefix = []\<rparr>, f_data = map word_of_nat (lit ''localhost'' @ [10])\<rparr>"

text \<open>The same file with no permission for its owner.\<close>

definition locked_file :: tar_file where
  "locked_file = hostname_file\<lparr>f_header := (f_header hostname_file)\<lparr>h_mode := 44\<rparr>\<rparr>"

lemma numbers_fit:
  "text_fits 8 (number_text 10 8 644)" "text_fits 8 (number_text 10 8 44)"
  "text_fits 8 (number_text 8 8 1000)" "text_fits 12 (number_text 8 12 10)"
  "text_fits 12 (number_text 8 12 1724774400)" "text_fits 8 (number_text 10 8 0)"
  "text_fits 1 (number_text 10 1 0)"
  by (rule text_fits_number_text; simp add: radix_digits.simps)+

lemma hostname_texts_fit:
  "text_fits 100 (lit ''initrd/etc/hostname'')" "text_fits 8 (lit ''0013275'')"
  "text_fits 6 (lit ''ustar'')" "text_fits 2 (lit ''00'')" "text_fits 32 (lit ''root'')"
  by (simp_all add: text_fits_def length_utf8_bytes_ascii)

lemma empty_text_fits [simp]: "text_fits w []"
  by (simp add: text_fits_def utf8_bytes_def)

lemma hostname_file_fits: "file_fits hostname_file"
  using numbers_fit hostname_texts_fit
  by (simp add: hostname_file_def file_fits_def header_fits_def header_fields_def del: lit_simps)
     (simp add: lit_def)

lemma locked_file_fits: "file_fits locked_file"
  using numbers_fit hostname_texts_fit
  by (simp add: hostname_file_def locked_file_def file_fits_def header_fits_def header_fields_def
      del: lit_simps)
     (simp add: lit_def)

lemma hostname_file_ok: "is_ok (fmt_file hostname_file)"
  by (simp add: fmt_file_is_ok hostname_file_def boot_day_renders)

lemma locked_file_panics: "fmt_file locked_file = Inl IndexOutOfBounds"
  by (simp add: fmt_file_def locked_file_def hostname_file_def Let_def unwrap_digits_fmt_dec
      radix_digits.simps index_def)

lemma length_hostname_file: "length (encode_file hostname_file) = 1024"
  using length_encode_file [OF hostname_file_fits] by (simp add: hostname_file_def)

lemma length_locked_file: "length (encode_file locked_file) = 1024"
  using length_encode_file [OF locked_file_fits] by (simp add: hostname_file_def locked_file_def)

lemma hostname_archive_at:
  "archive_at (mem_of 4096 (encode_archive [hostname_file])) 4096 [hostname_file]"
  using hostname_file_fits length_hostname_file
  by (simp add: archive_at_def mem_holds_mem_of encode_archive_def EOF_BLOCK_def BLOCK_SIZE_def)

lemma locked_archive_at:
  "archive_at (mem_of 4096 (encode_archive [hostname_file, locked_file])) 4096
     ([hostname_file] @ locked_file # [])"
  using hostname_file_fits length_hostname_file locked_file_fits length_locked_file
  by (simp add: archive_at_def mem_holds_mem_of encode_archive_def EOF_BLOCK_def BLOCK_SIZE_def)

lemma initrd_new_roundtrip_witness:
  "\<exists>lg'. initrd_new (mem_of 4096 (encode_archive [hostname_file])) (Some [4096]) logger_new
      = Some (lg', Inr \<lparr>files = [hostname_file]\<rparr>)
    \<and> logs lg' = logs logger_new @ map trace_entry [hostname_file]"
  by (rule initrd_new_roundtrip [OF hostname_archive_at]) (simp add: hostname_file_ok)

lemma initrd_new_panics_witness:
  "\<exists>lg'. initrd_new (mem_of 4096 (encode_archive [hostname_file, locked_file])) (Some [4096])
        logger_new = Some (lg', Inl IndexOutOfBounds)
    \<and> logs lg' = logs logger_new @ map trace_entry [hostname_file]"
  by (rule initrd_new_panics [OF locked_archive_at])
     (simp_all add: hostname_file_ok locked_file_panics)

lemma archive_lookup_witness:
  "\<exists>lg' rd. initrd_new (mem_of 4096 (encode_archive [hostname_file])) (Some [4096]) logger_new
      = Some (lg', Inr rd)
    \<and> (\<forall>path. get_data rd path = unwrap_option
          (map_of (map (\<lambda>f. (h_name (f_header f), f_data f)) [hostname_file]) path))"
  by (rule archive_lookup [OF hostname_archive_at]) (simp add: hostname_file_ok)

end
