(* ===== verification/Elf.thy ===== *)
theory Elf
  imports Initrd
begin

text \<open>
  The ELF reader, \<^verbatim>\<open>kernel/src/elf.rs\<close>: the three little-endian records with the offsets of
  the source, the two table loops of \<^verbatim>\<open>Elf::new\<close> and its \<^verbatim>\<open>Display\<close>, which the shell's
  \<^verbatim>\<open>readelf\<close> prints. The reader checks nothing (neither the magic number nor the class): what
  stops it is an index or an arithmetic operation out of range.
\<close>

section \<open>Records\<close>

record elf_header =
  eh_magic :: u32
  eh_class :: u8
  eh_data :: u8
  eh_version :: u8
  eh_os_abi :: u8
  eh_abi_version :: u8
  eh_file_type :: u16
  eh_machine :: u16
  eh_exec_version :: u32
  eh_entrypoint :: u64
  eh_ph_offset :: u64
  eh_sh_offset :: u64
  eh_flags :: u32
  eh_eh_size :: u16
  eh_ph_size :: u16
  eh_ph_number :: u16
  eh_sh_size :: u16
  eh_sh_number :: u16
  eh_sh_index :: u16

record elf_program =
  p_segment_type :: u32
  p_flags :: u32
  p_offset :: u64
  p_virtual_address :: u64
  p_physical_address :: u64
  p_file_size :: u64
  p_memory_size :: u64
  p_alignment :: u64

record elf_section =
  s_name :: u32
  s_header_type :: u32
  s_flags :: u64
  s_address :: u64
  s_offset :: u64
  s_size :: u64
  s_link :: u32
  s_info :: u32
  s_alignment :: u64
  s_entry_size :: u64

record elf =
  elf_hdr :: elf_header
  elf_programs :: "elf_program list"
  elf_sections :: "elf_section list"

definition elf_header_new :: "u8 list \<Rightarrow> elf_header result" where
  "elf_header_new data =
     rbind (u32_at data 0) (\<lambda>magic.
     rbind (index data 4) (\<lambda>class.
     rbind (index data 5) (\<lambda>dat.
     rbind (index data 6) (\<lambda>version.
     rbind (index data 7) (\<lambda>os_abi.
     rbind (index data 8) (\<lambda>abi_version.
     rbind (u16_at data 16) (\<lambda>file_type.
     rbind (u16_at data 18) (\<lambda>machine.
     rbind (u32_at data 20) (\<lambda>exec_version.
     rbind (u64_at data 24) (\<lambda>entrypoint.
     rbind (u64_at data 32) (\<lambda>ph_offset.
     rbind (u64_at data 40) (\<lambda>sh_offset.
     rbind (u32_at data 48) (\<lambda>flags.
     rbind (u16_at data 52) (\<lambda>eh_size.
     rbind (u16_at data 54) (\<lambda>ph_size.
     rbind (u16_at data 56) (\<lambda>ph_number.
     rbind (u16_at data 58) (\<lambda>sh_size.
     rbind (u16_at data 60) (\<lambda>sh_number.
     rbind (u16_at data 62) (\<lambda>sh_index.
     Inr \<lparr>eh_magic = magic, eh_class = class, eh_data = dat, eh_version = version,
          eh_os_abi = os_abi, eh_abi_version = abi_version, eh_file_type = file_type,
          eh_machine = machine, eh_exec_version = exec_version, eh_entrypoint = entrypoint,
          eh_ph_offset = ph_offset, eh_sh_offset = sh_offset, eh_flags = flags,
          eh_eh_size = eh_size, eh_ph_size = ph_size, eh_ph_number = ph_number,
          eh_sh_size = sh_size, eh_sh_number = sh_number,
          eh_sh_index = sh_index\<rparr>)))))))))))))))))))"

definition elf_program_new :: "u8 list \<Rightarrow> elf_program result" where
  "elf_program_new data =
     rbind (u32_at data 0) (\<lambda>segment_type.
     rbind (u32_at data 4) (\<lambda>flags.
     rbind (u64_at data 8) (\<lambda>offset.
     rbind (u64_at data 16) (\<lambda>virtual_address.
     rbind (u64_at data 24) (\<lambda>physical_address.
     rbind (u64_at data 32) (\<lambda>file_size.
     rbind (u64_at data 40) (\<lambda>memory_size.
     rbind (u64_at data 48) (\<lambda>alignment.
     Inr \<lparr>p_segment_type = segment_type, p_flags = flags, p_offset = offset,
          p_virtual_address = virtual_address, p_physical_address = physical_address,
          p_file_size = file_size, p_memory_size = memory_size,
          p_alignment = alignment\<rparr>))))))))"

definition elf_section_new :: "u8 list \<Rightarrow> elf_section result" where
  "elf_section_new data =
     rbind (u32_at data 0) (\<lambda>name.
     rbind (u32_at data 4) (\<lambda>header_type.
     rbind (u64_at data 8) (\<lambda>flags.
     rbind (u64_at data 16) (\<lambda>address.
     rbind (u64_at data 24) (\<lambda>offset.
     rbind (u64_at data 32) (\<lambda>size.
     rbind (u32_at data 40) (\<lambda>link.
     rbind (u32_at data 44) (\<lambda>info.
     rbind (u64_at data 48) (\<lambda>alignment.
     rbind (u64_at data 56) (\<lambda>entry_size.
     Inr \<lparr>s_name = name, s_header_type = header_type, s_flags = flags, s_address = address,
          s_offset = offset, s_size = size, s_link = link, s_info = info,
          s_alignment = alignment, s_entry_size = entry_size\<rparr>))))))))))"

section \<open>Tables\<close>

text \<open>
  The loop \<^verbatim>\<open>for index in 0..number\<close>, which \<^verbatim>\<open>Elf::new\<close> writes once for program headers and
  once for section headers: \<^verbatim>\<open>index * size\<close> is a product of 16-bit integers, the offset a sum
  of 64-bit ones.
\<close>

fun parse_table ::
    "(u8 list \<Rightarrow> 'a result) \<Rightarrow> u8 list \<Rightarrow> u64 \<Rightarrow> u16 \<Rightarrow> u16 list \<Rightarrow> 'a list result" where
  "parse_table new data base esize [] = Inr []"
| "parse_table new data base esize (i # indices) =
     rbind (checked_mul i esize) (\<lambda>distance.
     rbind (checked_add base (ucast distance)) (\<lambda>offset.
     rbind (slice_from data (unat offset)) (\<lambda>s.
     rbind (new s) (\<lambda>entry.
     rbind (parse_table new data base esize indices) (\<lambda>entries.
     Inr (entry # entries))))))"

definition indices_below :: "u16 \<Rightarrow> u16 list" where
  "indices_below n = map word_of_nat [0..<unat n]"

definition parse_elf :: "u8 list \<Rightarrow> elf result" where
  "parse_elf data =
     rbind (elf_header_new data) (\<lambda>header.
     rbind (parse_table elf_program_new data (eh_ph_offset header) (eh_ph_size header)
              (indices_below (eh_ph_number header))) (\<lambda>programs.
     rbind (parse_table elf_section_new data (eh_sh_offset header) (eh_sh_size header)
              (indices_below (eh_sh_number header))) (\<lambda>sections.
     Inr \<lparr>elf_hdr = header, elf_programs = programs, elf_sections = sections\<rparr>)))"

definition elf_new :: "initrd \<Rightarrow> rstr \<Rightarrow> elf result" where
  "elf_new rd path = rbind (get_data rd path) parse_elf"

section \<open>Display\<close>

definition writeln :: "rstr \<Rightarrow> rstr" where
  "writeln s = s @ [10]"

definition class_name :: "u8 \<Rightarrow> rstr" where
  "class_name c = (if c = 1 then lit ''ELF32'' else if c = 2 then lit ''ELF64'' else lit ''Unknown'')"

definition data_name :: "u8 \<Rightarrow> rstr" where
  "data_name d =
     (if d = 1 then lit ''2'' @ [39] @ lit ''s complement, little endian''
      else if d = 2 then lit ''2'' @ [39] @ lit ''s complement, big endian''
      else lit ''Unknown'')"

definition version_name :: "u8 \<Rightarrow> rstr" where
  "version_name v = (if v = 1 then lit ''1 (current)'' else lit ''Unknown'')"

definition os_abi_names :: "(u8 \<times> rstr) list" where
  "os_abi_names =
    [(0, lit ''UNIX - System V''), (1, lit ''UNIX - HP-UX''), (2, lit ''UNIX - NetBSD''),
     (3, lit ''UNIX - Linux''), (4, lit ''UNIX - GNU Hurd''), (6, lit ''UNIX - Solaris''),
     (7, lit ''UNIX - AIX''), (8, lit ''UNIX - IRIX''), (9, lit ''UNIX - FreeBSD''),
     (10, lit ''UNIX - TRU64''), (11, lit ''Novell - Modesto''), (12, lit ''UNIX - OpenBSD''),
     (13, lit ''VMS - OpenVMS''), (14, lit ''HP - Non-Stop Kernel''), (15, lit ''AROS''),
     (16, lit ''FenixOS''), (17, lit ''Nuxi CloudABI''),
     (18, lit ''Stratus Technologies OpenVOS'')]"

definition os_abi_name :: "u8 \<Rightarrow> rstr" where
  "os_abi_name a = (case map_of os_abi_names a of Some s \<Rightarrow> s | None \<Rightarrow> lit ''Unknown'')"

definition file_type_names :: "(u16 \<times> rstr) list" where
  "file_type_names =
    [(0, lit ''NONE (None)''), (1, lit ''REL (Relocatable file)''),
     (2, lit ''EXEC (Executable file)''),
     (3, lit ''DYN (Position-Independent Executable file)''), (4, lit ''CORE (Core file)'')]"

definition file_type_name :: "u16 \<Rightarrow> rstr" where
  "file_type_name t = (case map_of file_type_names t of Some s \<Rightarrow> s | None \<Rightarrow> lit ''Unknown'')"

definition machine_name :: "u16 \<Rightarrow> rstr" where
  "machine_name m = (if m = 0x3E then lit ''Advanced Micro Devices X86-64'' else lit ''Unknown'')"

definition fmt_elf :: "elf \<Rightarrow> rstr" where
  "fmt_elf e =
    (let h = elf_hdr e in
     writeln (lit ''ELF Header:'')
     @ writeln (lit ''  Magic: 0x'' @ fmt_hex (unat (eh_magic h)))
     @ writeln (lit ''  Class: '' @ class_name (eh_class h))
     @ writeln (lit ''  Data: '' @ data_name (eh_data h))
     @ writeln (lit ''  Version: '' @ version_name (eh_version h))
     @ writeln (lit ''  OS/ABI: '' @ os_abi_name (eh_os_abi h))
     @ writeln (lit ''  ABI Version: '' @ fmt_dec (unat (eh_abi_version h)))
     @ writeln (lit ''  Type: '' @ file_type_name (eh_file_type h))
     @ writeln (lit ''  Machine: '' @ machine_name (eh_machine h))
     @ writeln (lit ''  Version: 0x'' @ fmt_hex (unat (eh_exec_version h)))
     @ writeln (lit ''  Entry point address: 0x'' @ fmt_hex (unat (eh_entrypoint h)))
     @ writeln (lit ''  Start of program headers: '' @ fmt_dec (unat (eh_ph_offset h))
                @ lit '' (bytes into file)'')
     @ writeln (lit ''  Start of section headers: '' @ fmt_dec (unat (eh_sh_offset h))
                @ lit '' (bytes into file)'')
     @ writeln (lit ''  Flags: 0x'' @ fmt_hex (unat (eh_flags h)))
     @ writeln (lit ''  Size of this header: '' @ fmt_dec (unat (eh_eh_size h)) @ lit '' (bytes)'')
     @ writeln (lit ''  Size of program headers: '' @ fmt_dec (unat (eh_ph_size h)) @ lit '' (bytes)'')
     @ writeln (lit ''  Number of program headers: '' @ fmt_dec (unat (eh_ph_number h)))
     @ writeln (lit ''  Size of section headers: '' @ fmt_dec (unat (eh_sh_size h)) @ lit '' (bytes)'')
     @ writeln (lit ''  Number of section headers: '' @ fmt_dec (unat (eh_sh_number h)))
     @ writeln (lit ''  Section header string table index: '' @ fmt_dec (unat (eh_sh_index h))))"

section \<open>Fixed-layout records\<close>

text \<open>Where entry \<open>i\<close> of a table lies, and when the loop can read it.\<close>

definition entry_in_range :: "nat \<Rightarrow> u64 \<Rightarrow> u16 \<Rightarrow> nat \<Rightarrow> u16 \<Rightarrow> bool" where
  "entry_in_range width base esize len i \<longleftrightarrow>
     unat i * unat esize < 2 ^ 16 \<and> unat base + unat i * unat esize < 2 ^ 64
     \<and> unat base + unat i * unat esize + width \<le> len"

definition entry_at :: "u8 list \<Rightarrow> u64 \<Rightarrow> u16 \<Rightarrow> u16 \<Rightarrow> u8 list" where
  "entry_at data base esize i = drop (unat base + unat i * unat esize) data"

lemma entry_offset:
  fixes base :: u64 and esize i :: u16
  shows "rbind (checked_mul i esize) (\<lambda>d. rbind (checked_add base (ucast d)) f) =
    (if unat i * unat esize < 2 ^ 16 \<and> unat base + unat i * unat esize < 2 ^ 64
     then f (base + ucast (i * esize)) else Inl ArithOverflow)"
    and "unat i * unat esize < 2 ^ 16 \<Longrightarrow> unat base + unat i * unat esize < 2 ^ 64 \<Longrightarrow>
      unat (base + ucast (i * esize)) = unat base + unat i * unat esize"
proof -
  have d: "unat (i * esize) = unat i * unat esize" if "unat i * unat esize < 2 ^ 16"
    using that by (simp add: unat_word_ariths)
  show "rbind (checked_mul i esize) (\<lambda>d. rbind (checked_add base (ucast d)) f) =
    (if unat i * unat esize < 2 ^ 16 \<and> unat base + unat i * unat esize < 2 ^ 64
     then f (base + ucast (i * esize)) else Inl ArithOverflow)"
    using d by (simp add: checked_mul_def checked_add_def)
  show "unat (base + ucast (i * esize)) = unat base + unat i * unat esize"
    if "unat i * unat esize < 2 ^ 16" "unat base + unat i * unat esize < 2 ^ 64"
    using that d by (simp add: unat_word_ariths)
qed

text \<open>
  The contract the table loop needs of an entry's constructor: it is the inverse of some
  encoding of fixed length, whatever follows, and it panics with an index out of bounds
  exactly on shorter input.
\<close>

locale record_format =
  fixes decode :: "u8 list \<Rightarrow> 'r result"
    and encode :: "'r \<Rightarrow> u8 list"
    and width :: nat
  assumes length_encode: "length (encode r) = width"
    and decode_encode: "decode (encode r @ rest) = Inr r"
    and decode_short: "length bs < width \<Longrightarrow> decode bs = Inl IndexOutOfBounds"
    and decode_long: "width \<le> length bs \<Longrightarrow> is_ok (decode bs)"
begin

lemma decode_ok_iff: "is_ok (decode bs) \<longleftrightarrow> width \<le> length bs"
  using decode_short [of bs] decode_long [of bs] by (cases "width \<le> length bs") auto

lemma decode_prefix: "take width bs = encode r \<Longrightarrow> decode bs = Inr r"
  using decode_encode [of r "drop width bs"] by (metis append_take_drop_id)

lemma width_pos_if_fails: "decode bs = Inl p \<Longrightarrow> length bs < width"
  using decode_long [of bs] by (cases "width \<le> length bs") auto

text \<open>The table loop, entry by entry.\<close>

lemma parse_table_Cons:
  "parse_table decode data base esize (i # is) =
    (if unat i * unat esize < 2 ^ 16 \<and> unat base + unat i * unat esize < 2 ^ 64
     then if unat base + unat i * unat esize \<le> length data
          then rbind (decode (entry_at data base esize i)) (\<lambda>e.
               rbind (parse_table decode data base esize is) (\<lambda>es. Inr (e # es)))
          else Inl SliceOutOfBounds
     else Inl ArithOverflow)"
  by (simp add: entry_offset slice_from_def entry_at_def)

lemma parse_table_ok_iff:
  "is_ok (parse_table decode data base esize is) \<longleftrightarrow>
     (\<forall>i\<in>set is. entry_in_range width base esize (length data) i)"
proof (induction "is")
  case (Cons i "is")
  have "is_ok (decode (entry_at data base esize i)) \<longleftrightarrow>
      width \<le> length data - (unat base + unat i * unat esize)"
    by (simp add: decode_ok_iff entry_at_def)
  then show ?case
    using Cons
    by (auto simp: parse_table_Cons is_ok_rbind entry_in_range_def is_ok_iff
        simp del: parse_table.simps)
qed simp

lemma parse_table_overflow:
  assumes "\<forall>j\<in>set is. entry_in_range width base esize (length data) j" "2 ^ 16 \<le> unat i * unat esize"
  shows "parse_table decode data base esize (is @ i # js) = Inl ArithOverflow"
  using assms(1)
proof (induction "is")
  case Nil
  show ?case using assms(2) by (simp add: parse_table_Cons del: parse_table.simps)
next
  case (Cons j "is")
  then have range: "entry_in_range width base esize (length data) j" by simp
  then have "is_ok (decode (entry_at data base esize j))"
    by (auto simp: decode_ok_iff entry_at_def entry_in_range_def)
  then show ?case
    using Cons range by (auto simp: parse_table_Cons is_ok_iff entry_in_range_def simp del: parse_table.simps)
qed

lemma parse_table_encoded:
  assumes "list_all2 (\<lambda>i r. entry_in_range width base esize (length data) i
      \<and> take width (entry_at data base esize i) = encode r) is rs"
  shows "parse_table decode data base esize is = Inr rs"
  using assms
proof (induction rule: list_all2_induct)
  case (Cons i "is" r rs)
  then show ?case
    by (simp add: parse_table_Cons entry_in_range_def decode_prefix del: parse_table.simps(2))
qed simp

end

section \<open>The three layouts\<close>

definition encode_elf_header :: "elf_header \<Rightarrow> u8 list" where
  "encode_elf_header h =
     to_le_bytes 4 (eh_magic h)
     @ [eh_class h, eh_data h, eh_version h, eh_os_abi h, eh_abi_version h]
     @ replicate 7 0
     @ to_le_bytes 2 (eh_file_type h) @ to_le_bytes 2 (eh_machine h)
     @ to_le_bytes 4 (eh_exec_version h) @ to_le_bytes 8 (eh_entrypoint h)
     @ to_le_bytes 8 (eh_ph_offset h) @ to_le_bytes 8 (eh_sh_offset h)
     @ to_le_bytes 4 (eh_flags h) @ to_le_bytes 2 (eh_eh_size h)
     @ to_le_bytes 2 (eh_ph_size h) @ to_le_bytes 2 (eh_ph_number h)
     @ to_le_bytes 2 (eh_sh_size h) @ to_le_bytes 2 (eh_sh_number h)
     @ to_le_bytes 2 (eh_sh_index h)"

definition encode_elf_program :: "elf_program \<Rightarrow> u8 list" where
  "encode_elf_program p =
     to_le_bytes 4 (p_segment_type p) @ to_le_bytes 4 (p_flags p) @ to_le_bytes 8 (p_offset p)
     @ to_le_bytes 8 (p_virtual_address p) @ to_le_bytes 8 (p_physical_address p)
     @ to_le_bytes 8 (p_file_size p) @ to_le_bytes 8 (p_memory_size p)
     @ to_le_bytes 8 (p_alignment p)"

definition encode_elf_section :: "elf_section \<Rightarrow> u8 list" where
  "encode_elf_section s =
     to_le_bytes 4 (s_name s) @ to_le_bytes 4 (s_header_type s) @ to_le_bytes 8 (s_flags s)
     @ to_le_bytes 8 (s_address s) @ to_le_bytes 8 (s_offset s) @ to_le_bytes 8 (s_size s)
     @ to_le_bytes 4 (s_link s) @ to_le_bytes 4 (s_info s) @ to_le_bytes 8 (s_alignment s)
     @ to_le_bytes 8 (s_entry_size s)"

interpretation elf_header_format: record_format elf_header_new encode_elf_header 64
proof unfold_locales
  fix r rest bs
  show "length (encode_elf_header r) = 64" by (simp add: encode_elf_header_def)
  show "elf_header_new (encode_elf_header r @ rest) = Inr r"
    by (simp add: elf_header_new_def encode_elf_header_def le_at_eq index_def nth_append)
  show "elf_header_new bs = Inl IndexOutOfBounds" if "length bs < 64"
    using that by (simp add: elf_header_new_def le_at_eq index_def)
  show "is_ok (elf_header_new bs)" if "64 \<le> length bs"
    using that by (simp add: elf_header_new_def le_at_eq index_def)
qed

interpretation elf_program_format: record_format elf_program_new encode_elf_program 56
proof unfold_locales
  fix r rest bs
  show "length (encode_elf_program r) = 56" by (simp add: encode_elf_program_def)
  show "elf_program_new (encode_elf_program r @ rest) = Inr r"
    by (simp add: elf_program_new_def encode_elf_program_def le_at_eq)
  show "elf_program_new bs = Inl IndexOutOfBounds" if "length bs < 56"
    using that by (simp add: elf_program_new_def le_at_eq)
  show "is_ok (elf_program_new bs)" if "56 \<le> length bs"
    using that by (simp add: elf_program_new_def le_at_eq)
qed

interpretation elf_section_format: record_format elf_section_new encode_elf_section 64
proof unfold_locales
  fix r rest bs
  show "length (encode_elf_section r) = 64" by (simp add: encode_elf_section_def)
  show "elf_section_new (encode_elf_section r @ rest) = Inr r"
    by (simp add: elf_section_new_def encode_elf_section_def le_at_eq)
  show "elf_section_new bs = Inl IndexOutOfBounds" if "length bs < 64"
    using that by (simp add: elf_section_new_def le_at_eq)
  show "is_ok (elf_section_new bs)" if "64 \<le> length bs"
    using that by (simp add: elf_section_new_def le_at_eq)
qed

section \<open>Reading an image\<close>

definition table_at ::
    "nat \<Rightarrow> ('r \<Rightarrow> u8 list) \<Rightarrow> u8 list \<Rightarrow> u64 \<Rightarrow> u16 \<Rightarrow> 'r list \<Rightarrow> bool" where
  "table_at width encode data base esize rs \<longleftrightarrow>
     (\<forall>k<length rs. entry_in_range width base esize (length data) (word_of_nat k)
        \<and> take width (entry_at data base esize (word_of_nat k)) = encode (rs ! k))"

definition elf_image :: "elf \<Rightarrow> u8 list \<Rightarrow> bool" where
  "elf_image e data \<longleftrightarrow>
     (let h = elf_hdr e in
      take 64 data = encode_elf_header h
      \<and> unat (eh_ph_number h) = length (elf_programs e)
      \<and> unat (eh_sh_number h) = length (elf_sections e)
      \<and> table_at 56 encode_elf_program data (eh_ph_offset h) (eh_ph_size h) (elf_programs e)
      \<and> table_at 64 encode_elf_section data (eh_sh_offset h) (eh_sh_size h) (elf_sections e))"

lemma table_at_list_all2:
  assumes "table_at width encode data base esize rs" "unat n = length rs"
  shows "list_all2 (\<lambda>i r. entry_in_range width base esize (length data) i
      \<and> take width (entry_at data base esize i) = encode r) (indices_below n) rs"
  using assms by (simp add: table_at_def indices_below_def list_all2_conv_all_nth)

lemma in_indices_below: "i \<in> set (indices_below n) \<longleftrightarrow> i < n"
proof
  assume "i \<in> set (indices_below n)"
  then obtain k where "k < unat n" "i = word_of_nat k" by (auto simp: indices_below_def)
  then show "i < n"
    using unat_bounds(2) [of n] by (simp add: word_less_nat_alt unat_of_nat)
next
  assume "i < n"
  then have "unat i \<in> set [0..<unat n]" by (simp add: word_less_nat_alt)
  then have "word_of_nat (unat i) \<in> set (indices_below n)"
    unfolding indices_below_def set_map by (rule imageI)
  then show "i \<in> set (indices_below n)" by (simp only: of_nat_unat ucast_id)
qed

text \<open>
  Claim C12. An ELF image of the ramdisk whose header and tables are the little-endian encodings
  of \<open>e\<close> (at the offsets, entry sizes and counts its own header gives) is read back as
  exactly \<open>e\<close>: every header field, program header and section header.
\<close>

theorem elf_new_roundtrip:
  assumes "map_of (initrd_contents rd) path = Some data" "elf_image e data"
  shows "elf_new rd path = Inr e"
proof -
  let ?h = "elf_hdr e"
  note i = assms(2) [unfolded elf_image_def Let_def]
  have "elf_header_new data = Inr ?h"
    using i by (intro elf_header_format.decode_prefix) simp
  moreover have "parse_table elf_program_new data (eh_ph_offset ?h) (eh_ph_size ?h)
      (indices_below (eh_ph_number ?h)) = Inr (elf_programs e)"
    using i by (intro elf_program_format.parse_table_encoded table_at_list_all2) auto
  moreover have "parse_table elf_section_new data (eh_sh_offset ?h) (eh_sh_size ?h)
      (indices_below (eh_sh_number ?h)) = Inr (elf_sections e)"
    using i by (intro elf_section_format.parse_table_encoded table_at_list_all2) auto
  ultimately show ?thesis
    unfolding elf_new_def ramdisk.loader_present [OF assms(1)] by (simp add: parse_elf_def)
qed

lemma is_ok_rbind_pair:
  "is_ok (rbind m (\<lambda>x. rbind m' (\<lambda>y. Inr (f x y)))) \<longleftrightarrow> is_ok m \<and> is_ok m'"
  by (cases m; cases m') simp_all

lemma parse_elf_ok_iff:
  "is_ok (parse_elf data) \<longleftrightarrow>
     (\<exists>h. elf_header_new data = Inr h
        \<and> (\<forall>i<eh_ph_number h. entry_in_range 56 (eh_ph_offset h) (eh_ph_size h) (length data) i)
        \<and> (\<forall>i<eh_sh_number h. entry_in_range 64 (eh_sh_offset h) (eh_sh_size h) (length data) i))"
  by (cases "elf_header_new data")
     (simp_all add: parse_elf_def is_ok_rbind_pair in_indices_below Ball_def
        elf_program_format.parse_table_ok_iff elf_section_format.parse_table_ok_iff)

text \<open>
  Claim C28. Reading an ELF file never fails in any other way than these: the path must be in the
  ramdisk, its first 64 bytes must be there, and each table entry must satisfy the 16-bit bound
  on index times entry size, the 64-bit bound on its offset, and lie inside the file. Under
  exactly these conditions \<^verbatim>\<open>Elf::new\<close> returns; otherwise it panics. Magic number, class and
  machine play no part.
\<close>

theorem elf_new_ok_iff:
  "is_ok (elf_new rd path) \<longleftrightarrow>
     (\<exists>data h. map_of (initrd_contents rd) path = Some data \<and> elf_header_new data = Inr h
        \<and> (\<forall>i<eh_ph_number h. entry_in_range 56 (eh_ph_offset h) (eh_ph_size h) (length data) i)
        \<and> (\<forall>i<eh_sh_number h. entry_in_range 64 (eh_sh_offset h) (eh_sh_size h) (length data) i))"
proof (cases "map_of (initrd_contents rd) path")
  case None
  then show ?thesis by (simp add: elf_new_def ramdisk.lookup_contents)
next
  case (Some data)
  then show ?thesis
    by (simp add: elf_new_def ramdisk.loader_present [OF Some] parse_elf_ok_iff)
qed

lemma indices_below_from: "k < unat n \<Longrightarrow>
    indices_below n = map word_of_nat [0..<k] @ word_of_nat k # map word_of_nat [Suc k..<unat n]"
  using upt_add_eq_append [of 0 k "unat n - k"] by (simp add: indices_below_def upt_conv_Cons)

text \<open>
  Claim C36. A section table of standard entries (64 bytes each) that lies inside the file, as ELF wants
  it, is read when it has at most 1024 entries. With more, the index 1024 times the entry size
  no longer fits in the 16 bits the code multiplies in, and \<^verbatim>\<open>Elf::new\<close> panics with an arithmetic
  overflow, although the entry it wants is there and its offset fits in 64 bits.
\<close>

theorem elf_many_sections_panic:
  assumes "map_of (initrd_contents rd) path = Some data" "length data < 2 ^ 64" "elf_header_new data = Inr h"
    and "\<forall>i<eh_ph_number h. entry_in_range 56 (eh_ph_offset h) (eh_ph_size h) (length data) i"
    and "eh_sh_size h = 64" "unat (eh_sh_offset h) + 64 * unat (eh_sh_number h) \<le> length data"
  shows "if eh_sh_number h \<le> 1024 then is_ok (elf_new rd path)
    else checked_mul 1024 (eh_sh_size h) = Inl ArithOverflow \<and> elf_new rd path = Inl ArithOverflow"
proof -
  have entry: "entry_in_range 64 (eh_sh_offset h) (eh_sh_size h) (length data) i" if "i < eh_sh_number h" "i < 1024" for i
  proof -
    have "unat i < unat (eh_sh_number h)" "unat i < 1024" using that by (simp_all add: word_less_nat_alt)
    then show ?thesis using assms(2,5,6) by (simp add: entry_in_range_def)
  qed
  have run: "elf_new rd path = parse_elf data"
    unfolding elf_new_def ramdisk.loader_present [OF assms(1)] ..
  show ?thesis
  proof (cases "eh_sh_number h \<le> 1024")
    case True
    then show ?thesis using entry assms(3,4) by (auto simp: run parse_elf_ok_iff)
  next
    case False
    then have many: "1024 < unat (eh_sh_number h)" by (simp add: word_le_nat_alt)
    let ?first = "map word_of_nat [0..<1024] :: u16 list"
    have "\<forall>i\<in>set ?first. entry_in_range 64 (eh_sh_offset h) (eh_sh_size h) (length data) i"
      using entry many by (auto simp: word_less_nat_alt unat_of_nat)
    from elf_section_format.parse_table_overflow [OF this, of "word_of_nat 1024"]
    have sections: "parse_table elf_section_new data (eh_sh_offset h) (eh_sh_size h) (indices_below (eh_sh_number h))
        = Inl ArithOverflow"
      unfolding indices_below_from [OF many] using assms(5) by simp
    have "is_ok (parse_table elf_program_new data (eh_ph_offset h) (eh_ph_size h) (indices_below (eh_ph_number h)))"
      using assms(4) by (simp add: elf_program_format.parse_table_ok_iff in_indices_below)
    then have "parse_elf data = Inl ArithOverflow"
      using assms(3) sections by (auto simp: parse_elf_def is_ok_iff)
    then show ?thesis using False assms(5) by (simp add: run checked_mul_def)
  qed
qed

section \<open>Concrete images\<close>

definition init_segment :: elf_program where
  "init_segment = \<lparr>p_segment_type = 1, p_flags = 5, p_offset = 0x1000, p_virtual_address = 0x200000,
     p_physical_address = 0x200000, p_file_size = 0x80, p_memory_size = 0x80, p_alignment = 0x1000\<rparr>"

definition init_elf :: elf where
  "init_elf = \<lparr>elf_hdr = \<lparr>eh_magic = 0x464c457f, eh_class = 2, eh_data = 1, eh_version = 1,
     eh_os_abi = 0, eh_abi_version = 0, eh_file_type = 2, eh_machine = 0x3E, eh_exec_version = 1,
     eh_entrypoint = 0x200000, eh_ph_offset = 64, eh_sh_offset = 120, eh_flags = 0,
     eh_eh_size = 64, eh_ph_size = 56, eh_ph_number = 1, eh_sh_size = 64, eh_sh_number = 0,
     eh_sh_index = 0\<rparr>, elf_programs = [init_segment], elf_sections = []\<rparr>"

definition init_data :: "u8 list" where
  "init_data = encode_elf_header (elf_hdr init_elf) @ encode_elf_program init_segment"

lemma init_data_image: "elf_image init_elf init_data"
  using elf_header_format.length_encode elf_program_format.length_encode
  by (simp add: elf_image_def table_at_def init_data_def entry_in_range_def entry_at_def)
     (simp add: init_elf_def)

lemma elf_new_roundtrip_witness:
  "elf_new (ramdisk_with [(lit ''initrd/bin/init'', init_data)]) (lit ''initrd/bin/init'')
     = Inr init_elf"
  by (rule elf_new_roundtrip [OF _ init_data_image]) simp

lemma elf_new_ok_iff_witness:
  "is_ok (elf_new (ramdisk_with [(lit ''initrd/bin/init'', init_data)]) (lit ''initrd/bin/init''))"
proof -
  have h: "elf_header_new init_data = Inr (elf_hdr init_elf)"
    unfolding init_data_def by (rule elf_header_format.decode_encode)
  have len: "length init_data = 120"
    using elf_header_format.length_encode elf_program_format.length_encode
    by (simp add: init_data_def)
  have "\<forall>i<eh_ph_number (elf_hdr init_elf).
      entry_in_range 56 (eh_ph_offset (elf_hdr init_elf)) (eh_ph_size (elf_hdr init_elf)) (length init_data) i"
    unfolding len by (auto simp: init_elf_def entry_in_range_def word_less_1)
  moreover have "\<not> i < eh_sh_number (elf_hdr init_elf)" for i
    by (simp add: init_elf_def)
  ultimately show ?thesis
    unfolding elf_new_ok_iff using h
    by (intro exI [of _ init_data] exI [of _ "elf_hdr init_elf"]) simp
qed

text \<open>The same header with 1025 sections, whose table follows it.\<close>

definition many_sections_header :: elf_header where
  "many_sections_header = (elf_hdr init_elf)\<lparr>eh_ph_number := 0, eh_sh_offset := 64, eh_sh_number := 1025\<rparr>"

definition many_sections_data :: "u8 list" where
  "many_sections_data = encode_elf_header many_sections_header @ replicate 65600 0"

lemma elf_many_sections_panic_witness:
  "elf_new (ramdisk_with [(lit ''big'', many_sections_data)]) (lit ''big'') = Inl ArithOverflow"
proof -
  let ?rd = "ramdisk_with [(lit ''big'', many_sections_data)]"
  have stored: "map_of (initrd_contents ?rd) (lit ''big'') = Some many_sections_data" by simp
  have len: "length many_sections_data = 65664"
    using elf_header_format.length_encode by (simp add: many_sections_data_def)
  have h: "elf_header_new many_sections_data = Inr many_sections_header"
    unfolding many_sections_data_def by (rule elf_header_format.decode_encode)
  have fields: "eh_ph_number many_sections_header = 0" "eh_sh_size many_sections_header = 64"
      "eh_sh_offset many_sections_header = 64" "eh_sh_number many_sections_header = 1025"
    by (simp_all add: many_sections_header_def init_elf_def)
  from elf_many_sections_panic [OF stored _ h] show ?thesis by (simp add: len fields)
qed

end
