(* ===== verification/Timer.thy ===== *)
theory Timer
  imports Kernel_Prelude
begin

text \<open>
  The tick counter, \<^verbatim>\<open>kernel/src/timer.rs\<close>: an atomic 32-bit integer that the timer interrupt
  increments and the shell's \<^verbatim>\<open>time\<close> command reads. \<^verbatim>\<open>fetch_add\<close> wraps around in every build
  profile.
\<close>

record timer =
  elapsed :: u32

definition timer_new :: timer where
  "timer_new = \<lparr>elapsed = 0\<rparr>"

definition get_elapsed :: "timer \<Rightarrow> u32" where
  "get_elapsed t = elapsed t"

definition increment :: "timer \<Rightarrow> timer" where
  "increment t = t\<lparr>elapsed := elapsed t + 1\<rparr>"

lemma elapsed_increments: "elapsed ((increment ^^ n) t) = elapsed t + word_of_nat n"
  by (induction n) (simp_all add: increment_def)

text \<open>
  After \<open>n\<close> timer interrupts from boot the counter reads \<open>n\<close> modulo 2 to the 32: it
  never panics and silently restarts at zero.
\<close>

theorem get_elapsed_ticks: "unat (get_elapsed ((increment ^^ n) timer_new)) = n mod 2 ^ 32"
  by (simp add: get_elapsed_def elapsed_increments timer_new_def unat_of_nat)

end
