(* ===== verification/Process.thy ===== *)
theory Process
  imports Rust_Text
begin

text \<open>
  Processes, \<^verbatim>\<open>kernel/src/process.rs\<close>: the saved register context (which no code switches yet),
  the identifier, the name and the state.
\<close>

datatype proc_state = Running | Stopped

record cpu_context =
  ctx_rax :: u64
  ctx_rbx :: u64
  ctx_rcx :: u64
  ctx_rdx :: u64
  ctx_rsi :: u64
  ctx_rdi :: u64
  ctx_rsp :: u64
  ctx_rbp :: u64
  ctx_r8 :: u64
  ctx_r9 :: u64
  ctx_r10 :: u64
  ctx_r11 :: u64
  ctx_r12 :: u64
  ctx_r13 :: u64
  ctx_r14 :: u64
  ctx_r15 :: u64
  ctx_rip :: u64
  ctx_rflags :: u64

definition context_default :: cpu_context where
  "context_default = \<lparr>ctx_rax = 0, ctx_rbx = 0, ctx_rcx = 0, ctx_rdx = 0, ctx_rsi = 0,
     ctx_rdi = 0, ctx_rsp = 0, ctx_rbp = 0, ctx_r8 = 0, ctx_r9 = 0, ctx_r10 = 0, ctx_r11 = 0,
     ctx_r12 = 0, ctx_r13 = 0, ctx_r14 = 0, ctx_r15 = 0, ctx_rip = 0, ctx_rflags = 0\<rparr>"

record process =
  p_id :: u64
  p_context :: cpu_context
  p_name :: rstr
  p_state :: proc_state

definition process_new :: "u64 \<Rightarrow> rstr \<Rightarrow> proc_state \<Rightarrow> process" where
  "process_new i name st =
     \<lparr>p_id = i, p_context = context_default, p_name = name, p_state = st\<rparr>"

definition get_id :: "process \<Rightarrow> u64" where "get_id p = p_id p"

definition get_name :: "process \<Rightarrow> rstr" where "get_name p = p_name p"

definition set_id :: "process \<Rightarrow> u64 \<Rightarrow> process" where "set_id p i = p\<lparr>p_id := i\<rparr>"

definition set_state :: "process \<Rightarrow> proc_state \<Rightarrow> process" where "set_state p st = p\<lparr>p_state := st\<rparr>"

lemma set_simps [simp]:
  "p_id (set_state p st) = p_id p" "p_name (set_state p st) = p_name p"
  "p_state (set_state p st) = st" "p_context (set_state p st) = p_context p"
  "p_id (set_id p i) = i" "p_name (set_id p i) = p_name p" "p_state (set_id p i) = p_state p"
  "p_context (set_id p i) = p_context p"
  by (simp_all add: set_state_def set_id_def)

end
