(* ===== verification/Scheduler.thy ===== *)
theory Scheduler
  imports Process Logger "HOL-Library.Multiset"
begin

text \<open>
  The round-robin scheduler, \<^verbatim>\<open>kernel/src/scheduler.rs\<close>, and the system calls of
  \<^verbatim>\<open>kernel/src/syscall.rs\<close>, of which only \<^verbatim>\<open>fork\<close> is implemented. The deque is a list with its
  front first; each operation that logs takes the log and returns it with its result.

  A locale states what round-robin scheduling promises (\<open>round_robin\<close>: every \<open>period\<close> steps the
  order rotates by one) and derives fairness; the scheduler's \<open>tick\<close> is its instance.
\<close>

section \<open>Operations\<close>

record scheduler =
  queue :: "process list"
  quantum :: u32
  remaining :: u32

definition scheduler_new :: "u32 \<Rightarrow> logger \<Rightarrow> logger \<times> scheduler" where
  "scheduler_new q lg =
     (debug lg (lit ''Created process scheduler with a quantum of '' @ fmt_dec (unat q)
                @ lit '' ticks.''),
      \<lparr>queue = [], quantum = q, remaining = q\<rparr>)"

definition scheduler_add :: "scheduler \<Rightarrow> process \<Rightarrow> scheduler" where
  "scheduler_add s p = s\<lparr>queue := queue s @ [p]\<rparr>"

definition stopped_message :: "process \<Rightarrow> rstr" where
  "stopped_message p =
     lit ''Stopped process #'' @ fmt_dec (unat (get_id p)) @ lit '' ('' @ get_name p @ lit '').''"

definition started_message :: "process \<Rightarrow> rstr" where
  "started_message p =
     lit ''Started process #'' @ fmt_dec (unat (get_id p)) @ lit '' ('' @ get_name p @ lit '').''"

definition schedule :: "scheduler \<Rightarrow> logger \<Rightarrow> logger \<times> scheduler result" where
  "schedule s lg =
     (case queue s of
        [] \<Rightarrow> (lg, Inl UnwrapNone)
      | current # rest \<Rightarrow>
          let q = rest @ [current];
              back = set_state (last q) Stopped;
              q = butlast q @ [back];
              lg = trace lg (stopped_message back);
              front = set_state (hd q) Running;
              q = front # tl q;
              lg = trace lg (started_message front)
          in (lg, Inr (s\<lparr>queue := q\<rparr>)))"

definition tick :: "scheduler \<Rightarrow> logger \<Rightarrow> logger \<times> scheduler result" where
  "tick s lg =
     (if remaining s = 0 then
        sbind
          (if 2 \<le> length (queue s) then schedule s lg
           else (warn lg (lit ''Queue doesn'' @ [39] @ lit ''t have enough processes to swap.''),
                 Inr s))
          (\<lambda>lg s. (lg, Inr (s\<lparr>remaining := quantum s\<rparr>)))
      else (lg, rbind (checked_sub (remaining s) 1) (\<lambda>r. Inr (s\<lparr>remaining := r\<rparr>))))"

definition fork :: "scheduler \<Rightarrow> (scheduler \<times> u64) result" where
  "fork s =
     rbind (unwrap_option (case queue s of [] \<Rightarrow> None | p # _ \<Rightarrow> Some p)) (\<lambda>parent.
     rbind (usize_add (length (queue s)) 1) (\<lambda>n.
     let child = set_id parent (word_of_nat n);
         pid = get_id child
     in Inr (scheduler_add s child, pid)))"

text \<open>The kernel's own scheduler: \<^verbatim>\<open>SCHEDULER\<close> after \<^verbatim>\<open>scheduler::initialize\<close>.\<close>

definition scheduler_initialize :: "logger \<Rightarrow> logger \<times> scheduler" where
  "scheduler_initialize lg =
     (let (lg, s) = scheduler_new 100 lg
      in (lg, scheduler_add s (process_new 1 (lit ''kernel'') Running)))"

section \<open>System calls\<close>

definition sys_close :: "unit result" where "sys_close = Inl Todo"
definition sys_exec :: "unit result" where "sys_exec = Inl Todo"
definition sys_exit :: "unit result" where "sys_exit = Inl Todo"
definition sys_fork :: "scheduler \<Rightarrow> (scheduler \<times> u64) result" where "sys_fork s = fork s"
definition sys_kill :: "unit result" where "sys_kill = Inl Todo"
definition sys_open :: "unit result" where "sys_open = Inl Todo"
definition sys_read :: "unit result" where "sys_read = Inl Todo"
definition sys_wait :: "unit result" where "sys_wait = Inl Todo"
definition sys_write :: "unit result" where "sys_write = Inl Todo"

section \<open>One step\<close>

definition pids :: "scheduler \<Rightarrow> u64 list" where
  "pids s = map p_id (queue s)"

lemma schedule_eq:
  "queue s = p # p' # ps \<Longrightarrow>
     schedule s lg =
       (trace (trace lg (stopped_message (set_state p Stopped))) (started_message (set_state p' Running)),
        Inr (s\<lparr>queue := set_state p' Running # ps @ [set_state p Stopped]\<rparr>))"
  by (simp add: schedule_def Let_def butlast_append)

lemma two_or_more: "2 \<le> length xs \<Longrightarrow> \<exists>x y ys. xs = x # y # ys"
  by (cases xs; cases "tl xs") auto

text \<open>What one tick does to the scheduler, whatever the log.\<close>

definition after_tick :: "scheduler \<Rightarrow> scheduler" where
  "after_tick s =
     (if remaining s = 0 then
        (case queue s of
           p # p' # ps \<Rightarrow>
             s\<lparr>queue := set_state p' Running # ps @ [set_state p Stopped], remaining := quantum s\<rparr>
         | _ \<Rightarrow> s\<lparr>remaining := quantum s\<rparr>)
      else s\<lparr>remaining := remaining s - 1\<rparr>)"

lemma tick_after_tick: "\<exists>lg'. tick s lg = (lg', Inr (after_tick s)) \<and> extends_log lg lg'"
proof (cases "remaining s = 0")
  case True
  show ?thesis
  proof (cases "2 \<le> length (queue s)")
    case two: True
    then obtain p p' ps where q: "queue s = p # p' # ps" using two_or_more by blast
    then show ?thesis
      using True
      by (simp add: tick_def schedule_eq [OF q] after_tick_def trace_def extends_log_def)
  next
    case False
    then have "queue s = [] \<or> (\<exists>p. queue s = [p])"
      by (cases "queue s"; cases "tl (queue s)") auto
    with True False show ?thesis
      by (auto simp: tick_def after_tick_def warn_def)
  qed
next
  case False
  then have "1 \<le> remaining s" by (simp add: word_le_nat_alt Suc_le_eq unat_gt_0)
  with False show ?thesis
    by (auto simp: tick_def after_tick_def checked_sub_def)
qed

section \<open>Round robin\<close>

locale round_robin =
  fixes order :: "'s \<Rightarrow> 'p list"
    and step :: "'s \<Rightarrow> 's"
    and phase :: "'s \<Rightarrow> nat"
    and period :: "'s \<Rightarrow> nat"
    and ok :: "'s \<Rightarrow> bool"
  assumes step_ok: "ok s \<Longrightarrow> ok (step s)"
    and step_period: "ok s \<Longrightarrow> period (step s) = period s"
    and phase_less: "ok s \<Longrightarrow> phase s < period s"
    and step_phase: "ok s \<Longrightarrow> phase (step s) = Suc (phase s) mod period s"
    and step_order: "ok s \<Longrightarrow>
      order (step s) = (if Suc (phase s) = period s then rotate1 (order s) else order s)"
begin

lemma steps_ok: "ok s \<Longrightarrow> ok ((step ^^ n) s)"
  by (induction n) (simp_all add: step_ok)

lemma steps_period: "ok s \<Longrightarrow> period ((step ^^ n) s) = period s"
  by (induction n) (simp_all add: step_period steps_ok)

lemma steps_phase: "ok s \<Longrightarrow> phase ((step ^^ n) s) = (phase s + n) mod period s"
  by (induction n) (simp_all add: phase_less step_phase steps_ok steps_period mod_Suc_eq)

lemma steps_order: "ok s \<Longrightarrow> order ((step ^^ n) s) = rotate ((phase s + n) div period s) (order s)"
proof (induction n)
  case 0
  then show ?case by (simp add: phase_less)
next
  case (Suc n)
  let ?a = "phase s + n" and ?p = "period s"
  have "Suc ?a div ?p = (if Suc (?a mod ?p) = ?p then Suc (?a div ?p) else ?a div ?p)"
    by (simp add: div_Suc mod_Suc)
  then show ?case
    using Suc by (simp add: step_order steps_ok steps_phase steps_period)
qed

text \<open>Every element of the order comes to the front, after at most its position's many periods.\<close>

lemma comes_to_front:
  assumes "ok s" "k < length (order s)"
  shows "\<exists>n\<le>k * period s. hd (order ((step ^^ n) s)) = order s ! k"
proof (cases "k = 0")
  case True
  then show ?thesis using assms(2) by (intro exI [of _ 0]) (simp add: hd_conv_nth)
next
  case False
  let ?n = "k * period s - phase s"
  have "phase s \<le> k * period s"
    using False phase_less [OF assms(1)] by (cases k) auto
  then have "(phase s + ?n) div period s = k"
    using phase_less [OF assms(1)] by simp
  then have "hd (order ((step ^^ ?n) s)) = order s ! k"
    using assms by (simp add: steps_order hd_rotate_conv_nth)
       (metis assms(2) hd_rotate_conv_nth length_0_conv mod_less not_less0)
  then show ?thesis by (intro exI [of _ ?n]) simp
qed

end

definition phase :: "scheduler \<Rightarrow> nat" where
  "phase s = unat (quantum s) - unat (remaining s)"

definition period :: "scheduler \<Rightarrow> nat" where
  "period s = unat (quantum s) + 1"

definition slice_ok :: "scheduler \<Rightarrow> bool" where
  "slice_ok s \<longleftrightarrow> remaining s \<le> quantum s"

interpretation rr: round_robin pids after_tick phase period slice_ok
proof unfold_locales
  fix s :: scheduler
  assume "slice_ok s"
  then have ok: "remaining s \<le> quantum s" by (simp add: slice_ok_def)
  have dec: "unat (remaining s - 1) = unat (remaining s) - 1" if "remaining s \<noteq> 0"
    using that by (simp add: unat_minus_one)
  have le: "unat (remaining s) \<le> unat (quantum s)" using ok by (simp add: word_le_nat_alt)
  have pos: "remaining s \<noteq> 0 \<Longrightarrow> 0 < unat (remaining s)" by (simp add: unat_gt_0)
  have r: "remaining (after_tick s) = (if remaining s = 0 then quantum s else remaining s - 1)"
    and q: "quantum (after_tick s) = quantum s"
    by (auto simp: after_tick_def split: list.splits)
  show "slice_ok (after_tick s)"
    using le pos dec by (auto simp: slice_ok_def r q word_le_nat_alt)
  show "period (after_tick s) = period s" by (simp add: period_def q)
  show "phase s < period s" by (simp add: phase_def period_def)
  show "phase (after_tick s) = Suc (phase s) mod period s"
    using le pos dec by (auto simp: phase_def period_def r q)
  show "pids (after_tick s) = (if Suc (phase s) = period s then rotate1 (pids s) else pids s)"
    using le pos by (auto simp: phase_def period_def after_tick_def pids_def split: list.splits)
qed

section \<open>Running for a while\<close>

fun run_ticks :: "nat \<Rightarrow> scheduler \<Rightarrow> logger \<Rightarrow> logger \<times> scheduler result" where
  "run_ticks 0 s lg = (lg, Inr s)"
| "run_ticks (Suc n) s lg = sbind (tick s lg) (\<lambda>lg s. run_ticks n s lg)"

lemma run_ticks_after: "\<exists>lg'. run_ticks n s lg = (lg', Inr ((after_tick ^^ n) s)) \<and> extends_log lg lg'"
proof (induction n arbitrary: s lg)
  case (Suc n)
  obtain lg1 where 1: "tick s lg = (lg1, Inr (after_tick s))" "extends_log lg lg1"
    using tick_after_tick by blast
  obtain lg2 where 2: "run_ticks n (after_tick s) lg1 = (lg2, Inr ((after_tick ^^ n) (after_tick s)))"
      "extends_log lg1 lg2"
    using Suc by blast
  show ?case
    using 1 2 by (auto simp: funpow_swap1 intro: extends_log_trans)
qed auto

lemma run_ticks_ok: "\<exists>lg' s'. run_ticks n s lg = (lg', Inr s') \<and> s' = (after_tick ^^ n) s"
  using run_ticks_after by blast

text \<open>
  Claim C6. After any number \<open>n\<close> of ticks the ready queue has been rotated
  \<open>(phase + n) div (quantum + 1)\<close> times, and nothing else has happened to its order: scheduling
  is exactly round robin, a turn lasts \<open>quantum + 1\<close> ticks, no tick panics, and no process is lost.
\<close>

theorem ticks_round_robin:
  assumes "remaining s \<le> quantum s"
  shows "\<exists>lg' s'. run_ticks n s lg = (lg', Inr s')
    \<and> pids s' = rotate ((unat (quantum s) - unat (remaining s) + n) div (unat (quantum s) + 1)) (pids s)"
proof -
  have "pids ((after_tick ^^ n) s) = rotate ((phase s + n) div period s) (pids s)"
    using assms by (intro rr.steps_order) (simp add: slice_ok_def)
  moreover obtain lg' where "run_ticks n s lg = (lg', Inr ((after_tick ^^ n) s))"
    using run_ticks_ok [of n s lg] by blast
  ultimately show ?thesis by (simp add: phase_def period_def)
qed

lemma front_running_after_tick:
  "queue s \<noteq> [] \<Longrightarrow> p_state (hd (queue s)) = Running \<Longrightarrow>
     queue (after_tick s) \<noteq> [] \<and> p_state (hd (queue (after_tick s))) = Running"
  by (auto simp: after_tick_def split: list.splits)

lemma front_running_steps:
  "queue s \<noteq> [] \<Longrightarrow> p_state (hd (queue s)) = Running \<Longrightarrow>
     queue ((after_tick ^^ n) s) \<noteq> [] \<and> p_state (hd (queue ((after_tick ^^ n) s))) = Running"
  by (induction n) (simp_all add: front_running_after_tick)

text \<open>
  Claim C31. No starvation: the process at position \<open>k\<close> of the queue reaches the front, in state
  \<^verbatim>\<open>Running\<close>, after at most \<open>k * (quantum + 1)\<close> ticks.
\<close>

theorem no_starvation:
  assumes "remaining s \<le> quantum s" "p_state (hd (queue s)) = Running" "k < length (queue s)"
  shows "\<exists>n\<le>k * (unat (quantum s) + 1). \<exists>lg' s'. run_ticks n s lg = (lg', Inr s')
    \<and> p_id (hd (queue s')) = p_id (queue s ! k) \<and> p_state (hd (queue s')) = Running"
proof -
  have ne: "queue s \<noteq> []" using assms(3) by auto
  obtain n where n: "n \<le> k * period s" "hd (pids ((after_tick ^^ n) s)) = pids s ! k"
    using rr.comes_to_front [of s k] assms(1,3) by (auto simp: slice_ok_def pids_def)
  note front = front_running_steps [OF ne assms(2), of n]
  obtain lg' where "run_ticks n s lg = (lg', Inr ((after_tick ^^ n) s))"
    using run_ticks_ok [of n s lg] by blast
  then show ?thesis
    using n front assms(3)
    by (intro exI [of _ n] conjI exI [of _ lg'] exI [of _ "(after_tick ^^ n) s"])
       (simp_all add: period_def pids_def hd_map)
qed

section \<open>Reachable schedulers\<close>

text \<open>What the timer interrupt and the \<^verbatim>\<open>fork\<close> system call make of the boot-time scheduler.\<close>

inductive sched_step :: "scheduler \<Rightarrow> scheduler \<Rightarrow> bool" where
  step_tick: "tick s lg = (lg', Inr s') \<Longrightarrow> sched_step s s'"
| step_fork: "sys_fork s = Inr (s', pid) \<Longrightarrow> sched_step s s'"

inductive sched_reachable :: "scheduler \<Rightarrow> bool" where
  boot: "scheduler_initialize lg = (lg', s) \<Longrightarrow> sched_reachable s"
| step: "sched_reachable s \<Longrightarrow> sched_step s s' \<Longrightarrow> sched_reachable s'"

inductive_cases sched_stepE: "sched_step s s'"

definition pids_numbered :: "scheduler \<Rightarrow> bool" where
  "pids_numbered s \<longleftrightarrow>
     length (queue s) < 2 ^ 64
     \<and> mset (map unat (pids s)) = mset [1..<Suc (length (queue s))]"

definition sched_inv :: "scheduler \<Rightarrow> bool" where
  "sched_inv s \<longleftrightarrow>
     queue s \<noteq> [] \<and> p_state (hd (queue s)) = Running \<and> remaining s \<le> quantum s
     \<and> quantum s = 100 \<and> pids_numbered s"

lemma tick_Inr: "tick s lg = (lg', Inr s') \<Longrightarrow> s' = after_tick s"
  using tick_after_tick [of s lg] by auto

lemma fork_Inr_iff:
  "fork s = Inr (s', pid) \<longleftrightarrow>
     queue s \<noteq> [] \<and> Suc (length (queue s)) < 2 ^ 64 \<and> pid = word_of_nat (Suc (length (queue s)))
     \<and> s' = scheduler_add s (set_id (hd (queue s)) pid)"
  by (cases "queue s") (auto simp: fork_def usize_add_def get_id_def Let_def)

lemma queue_scheduler_add [simp]:
  "queue (scheduler_add s p) = queue s @ [p]" "quantum (scheduler_add s p) = quantum s"
  "remaining (scheduler_add s p) = remaining s"
  by (simp_all add: scheduler_add_def)

lemma sched_inv_boot: "scheduler_initialize lg = (lg', s) \<Longrightarrow> sched_inv s"
  by (auto simp: scheduler_initialize_def scheduler_new_def sched_inv_def pids_numbered_def
      pids_def process_new_def)

lemma after_tick_length: "length (queue (after_tick s)) = length (queue s)"
  by (auto simp: after_tick_def split: list.splits)

lemma after_tick_pids: "mset (pids (after_tick s)) = mset (pids s)"
  by (auto simp: after_tick_def pids_def split: list.splits)

lemma after_tick_quantum: "quantum (after_tick s) = quantum s"
  by (auto simp: after_tick_def split: list.splits)

lemma pids_numbered_tick: "pids_numbered s \<Longrightarrow> pids_numbered (after_tick s)"
  by (simp add: pids_numbered_def after_tick_length after_tick_pids del: upt_Suc)

lemma sched_inv_tick: "sched_inv s \<Longrightarrow> sched_inv (after_tick s)"
  using rr.step_ok [of s] front_running_after_tick [of s] pids_numbered_tick [of s]
  by (auto simp: sched_inv_def slice_ok_def after_tick_quantum)

lemma sched_inv_fork:
  assumes "sched_inv s" "fork s = Inr (s', pid)"
  shows "sched_inv s'"
proof -
  have "unat pid = Suc (length (queue s))"
    using assms(2) by (simp add: fork_Inr_iff unat_of_nat del: of_nat_Suc)
  then show ?thesis
    using assms by (auto simp: fork_Inr_iff sched_inv_def pids_numbered_def pids_def)
qed

lemma sched_inv_step: "sched_step s s' \<Longrightarrow> sched_inv s \<Longrightarrow> sched_inv s'"
  by (auto elim!: sched_stepE dest: tick_Inr intro: sched_inv_tick sched_inv_fork
      simp: sys_fork_def)

lemma reachable_inv: "sched_reachable s \<Longrightarrow> sched_inv s"
  by (induction rule: sched_reachable.induct) (auto intro: sched_inv_boot sched_inv_step)

lemma pids_numbered_distinct:
  assumes "pids_numbered s"
  shows "distinct (map unat (pids s))" "set (map unat (pids s)) = {1..length (queue s)}"
proof -
  have eq: "mset (map unat (pids s)) = mset [1..<Suc (length (queue s))]"
    using assms unfolding pids_numbered_def by blast
  show "distinct (map unat (pids s))"
    unfolding mset_eq_imp_distinct_iff [OF eq] by (rule distinct_upt)
  show "set (map unat (pids s)) = {1..length (queue s)}"
    unfolding mset_eq_setD [OF eq] by auto
qed

text \<open>
  Claim C30. In every state that ticks and forks can reach from boot, the process identifiers in
  the queue are exactly 1 to the number of processes, each used once; the remaining time never
  exceeds the quantum of 100; and the process at the front is marked \<^verbatim>\<open>Running\<close>.
\<close>

theorem reachable_processes:
  assumes "sched_reachable s"
  shows "distinct (pids s) \<and> set (map unat (pids s)) = {1..length (queue s)} \<and> queue s \<noteq> []
    \<and> remaining s \<le> 100 \<and> quantum s = 100 \<and> p_state (hd (queue s)) = Running"
  using reachable_inv [OF assms] pids_numbered_distinct [of s]
  by (auto simp: sched_inv_def distinct_map)

text \<open>
  Claim C23. \<^verbatim>\<open>fork\<close> in a reachable state gives the child an identifier no process has, appends
  it to the queue, leaves the other processes and the time slice alone, and copies name and
  context of the process at the front.
\<close>

theorem fork_fresh_child:
  assumes "sched_reachable s" "sys_fork s = Inr (s', pid)"
  shows "pid \<notin> set (pids s) \<and> pids s' = pids s @ [pid]
    \<and> queue s' = queue s @ [set_id (hd (queue s)) pid]
    \<and> remaining s' = remaining s \<and> quantum s' = quantum s"
proof -
  have f: "pid = word_of_nat (Suc (length (queue s)))" "Suc (length (queue s)) < 2 ^ 64"
      "s' = scheduler_add s (set_id (hd (queue s)) pid)"
    using assms(2) by (auto simp: sys_fork_def fork_Inr_iff)
  then have "unat pid = Suc (length (queue s))" by (simp add: unat_of_nat del: of_nat_Suc)
  moreover have "set (map unat (pids s)) = {1..length (queue s)}"
    using reachable_inv [OF assms(1)] pids_numbered_distinct [of s] by (simp add: sched_inv_def)
  ultimately have "unat pid \<notin> unat ` set (pids s)" by simp
  then have "pid \<notin> set (pids s)" by blast
  with f(3) show ?thesis by (simp add: pids_def)
qed

text \<open>
  The child of a \<^verbatim>\<open>fork\<close> inherits the state of its parent, which is \<^verbatim>\<open>Running\<close>: after
  every successful fork two different processes of the queue are marked as running, on a
  scheduler that runs one at a time.
\<close>

theorem fork_two_running:
  assumes "sched_reachable s" "sys_fork s = Inr (s', pid)"
  shows "p_state (hd (queue s')) = Running \<and> p_state (last (queue s')) = Running
    \<and> p_id (hd (queue s')) \<noteq> p_id (last (queue s'))"
proof -
  have inv: "queue s \<noteq> []" "p_state (hd (queue s)) = Running"
    using reachable_inv [OF assms(1)] by (simp_all add: sched_inv_def)
  have f: "pid = word_of_nat (Suc (length (queue s)))" "Suc (length (queue s)) < 2 ^ 64"
      "s' = scheduler_add s (set_id (hd (queue s)) pid)"
    using assms(2) by (auto simp: sys_fork_def fork_Inr_iff)
  then have "unat pid = Suc (length (queue s))" by (simp add: unat_of_nat del: of_nat_Suc)
  moreover have "unat (p_id (hd (queue s))) \<in> {1..length (queue s)}"
    using pids_numbered_distinct(2) [of s] reachable_inv [OF assms(1)] inv(1)
    by (auto simp: sched_inv_def pids_def)
  ultimately have "p_id (hd (queue s)) \<noteq> pid" by auto
  with inv f(3) show ?thesis by simp
qed

text \<open>
  Every operation is available in every reachable state: a tick never panics, and
  \<^verbatim>\<open>fork\<close> does not either unless the queue already holds 2 to the 64 minus one processes.
\<close>

theorem scheduler_progress:
  assumes "sched_reachable s" "Suc (length (queue s)) < 2 ^ 64"
  shows "is_ok (snd (tick s lg)) \<and> is_ok (sys_fork s)"
proof -
  have "is_ok (snd (tick s lg))" using tick_after_tick [of s lg] by auto
  moreover have "sys_fork s = Inr (scheduler_add s (set_id (hd (queue s))
      (word_of_nat (Suc (length (queue s))))), word_of_nat (Suc (length (queue s))))"
    unfolding sys_fork_def fork_Inr_iff
    using assms(2) reachable_inv [OF assms(1)] by (simp add: sched_inv_def)
  ultimately show ?thesis by simp
qed

section \<open>Concrete schedulers\<close>

definition boot_scheduler :: scheduler where
  "boot_scheduler = snd (scheduler_initialize logger_new)"

definition forked_scheduler :: scheduler where
  "forked_scheduler = scheduler_add boot_scheduler (set_id (hd (queue boot_scheduler)) 2)"

lemma boot_scheduler_eq:
  "boot_scheduler
     = \<lparr>queue = [process_new 1 (lit ''kernel'') Running], quantum = 100, remaining = 100\<rparr>"
  by (simp add: boot_scheduler_def scheduler_initialize_def scheduler_new_def scheduler_add_def)

lemma boot_reachable: "sched_reachable boot_scheduler"
  by (rule sched_reachable.boot [of logger_new "fst (scheduler_initialize logger_new)"])
    (simp add: boot_scheduler_def)

lemma fork_boot: "sys_fork boot_scheduler = Inr (forked_scheduler, 2)"
  by (simp add: sys_fork_def fork_def forked_scheduler_def boot_scheduler_eq usize_add_def
      get_id_def Let_def)

lemma reachable_processes_witness:
  "distinct (pids boot_scheduler)
    \<and> set (map unat (pids boot_scheduler)) = {1..length (queue boot_scheduler)}
    \<and> queue boot_scheduler \<noteq> [] \<and> remaining boot_scheduler \<le> 100
    \<and> quantum boot_scheduler = 100 \<and> p_state (hd (queue boot_scheduler)) = Running"
  by (rule reachable_processes [OF boot_reachable])

lemma fork_fresh_child_witness:
  "2 \<notin> set (pids boot_scheduler) \<and> pids forked_scheduler = pids boot_scheduler @ [2]
    \<and> queue forked_scheduler = queue boot_scheduler @ [set_id (hd (queue boot_scheduler)) 2]
    \<and> remaining forked_scheduler = remaining boot_scheduler
    \<and> quantum forked_scheduler = quantum boot_scheduler"
  by (rule fork_fresh_child [OF boot_reachable fork_boot])

lemma fork_two_running_witness:
  "p_state (hd (queue forked_scheduler)) = Running \<and> p_state (last (queue forked_scheduler)) = Running
    \<and> p_id (hd (queue forked_scheduler)) \<noteq> p_id (last (queue forked_scheduler))"
  by (rule fork_two_running [OF boot_reachable fork_boot])

lemma scheduler_progress_witness:
  "is_ok (snd (tick boot_scheduler logger_new)) \<and> is_ok (sys_fork boot_scheduler)"
  by (rule scheduler_progress [OF boot_reachable]) (simp add: boot_scheduler_eq)

lemma ticks_round_robin_witness:
  "\<exists>lg' s'. run_ticks 101 forked_scheduler logger_new = (lg', Inr s')
    \<and> pids s' = rotate ((unat (quantum forked_scheduler) - unat (remaining forked_scheduler) + 101)
        div (unat (quantum forked_scheduler) + 1)) (pids forked_scheduler)"
  by (rule ticks_round_robin) (simp add: forked_scheduler_def boot_scheduler_eq scheduler_add_def)

lemma no_starvation_witness:
  "\<exists>n\<le>1 * (unat (quantum forked_scheduler) + 1). \<exists>lg' s'.
      run_ticks n forked_scheduler logger_new = (lg', Inr s')
    \<and> p_id (hd (queue s')) = p_id (queue forked_scheduler ! 1)
    \<and> p_state (hd (queue s')) = Running"
  by (rule no_starvation)
     (simp_all add: forked_scheduler_def boot_scheduler_eq scheduler_add_def process_new_def)

end
