(* ===== verification/Font.thy ===== *)
theory Font
  imports Initrd
begin

text \<open>
  The PSF version 1 font reader, \<^verbatim>\<open>kernel/src/font.rs\<close>: a four-byte header (magic number, mode,
  bytes per glyph) and the glyph bitmaps after it, of which the code keeps the 4096 bytes up to
  offset 4100.
\<close>

record font_header =
  fh_magic :: u16
  fh_font_mode :: u8
  fh_glyph_size :: u8

record font =
  font_hdr :: font_header
  font_data :: "u8 list"

text \<open>The body of \<^verbatim>\<open>Font::new\<close> after the lookup.\<close>

definition parse_font :: "u8 list \<Rightarrow> font result" where
  "parse_font psf =
     rbind (u16_at psf 0) (\<lambda>magic.
     rbind (index psf 2) (\<lambda>font_mode.
     rbind (index psf 3) (\<lambda>glyph_size.
     let header = \<lparr>fh_magic = magic, fh_font_mode = font_mode, fh_glyph_size = glyph_size\<rparr> in
     rbind (slice psf 4 4100) (\<lambda>data.
     rbind (assert_eq (fh_magic header) (from_le_bytes [0x36, 0x04])) (\<lambda>_.
     rbind (assert_eq (fh_font_mode header) 0x02) (\<lambda>_.
     rbind (assert_eq (fh_glyph_size header) 16) (\<lambda>_.
     Inr \<lparr>font_hdr = header, font_data = data\<rparr>)))))))"

definition font_new :: "initrd \<Rightarrow> rstr \<Rightarrow> font result" where
  "font_new rd path = rbind (get_data rd path) parse_font"

definition font_get_data :: "font \<Rightarrow> u8 list" where
  "font_get_data f = font_data f"

definition font_get_width :: "font \<Rightarrow> usize" where
  "font_get_width f = unat (fh_glyph_size (font_hdr f) div 2)"

definition font_get_height :: "font \<Rightarrow> usize" where
  "font_get_height f = unat (fh_glyph_size (font_hdr f))"

section \<open>Every font that loads has 256 glyphs of 8 by 16 pixels\<close>

definition font_ok :: "font \<Rightarrow> bool" where
  "font_ok f \<longleftrightarrow> font_hdr f = \<lparr>fh_magic = 0x0436, fh_font_mode = 2, fh_glyph_size = 16\<rparr>
     \<and> length (font_data f) = 4096"

lemma font_ok_geometry [simp]:
  "font_ok f \<Longrightarrow> font_get_width f = 8"
  "font_ok f \<Longrightarrow> font_get_height f = 16"
  "font_ok f \<Longrightarrow> length (font_get_data f) = 4096"
  by (simp_all add: font_ok_def font_get_width_def font_get_height_def font_get_data_def)

lemma base_256_digits:
  fixes a b :: nat
  assumes "a < 256" "a + 256 * b = n"
  shows "a = n mod 256 \<and> b = n div 256"
  using assms by auto

lemma psf_magic: "(from_le_bytes [a, b] :: u16) = from_le_bytes [0x36, 0x04] \<longleftrightarrow> a = 0x36 \<and> b = 0x04"
proof
  assume eq: "(from_le_bytes [a, b] :: u16) = from_le_bytes [0x36, 0x04]"
  have le: "unat (from_le_bytes [x, y] :: u16) = unat x + 256 * unat y" for x y :: u8
    using unat_bounds(1) [of x] unat_bounds(1) [of y]
    by (simp only: from_le_bytes_def le_nat.simps unat_of_nat) simp
  have "unat a < 256" "unat b < 256" using unat_bounds by auto
  moreover have "unat a + 256 * unat b = 1078"
    using arg_cong [OF eq, of unat] unfolding le by simp
  ultimately have "unat a = unat (0x36 :: u8) \<and> unat b = unat (0x04 :: u8)"
    using base_256_digits [of "unat a" "unat b"] by simp
  then show "a = 0x36 \<and> b = 0x04" by (blast intro: unsigned_word_eqI)
qed auto

lemma four_or_more: "4 \<le> length xs \<Longrightarrow> \<exists>a b c d r. xs = a # b # c # d # r"
  by (auto simp: Suc_le_length_iff numeral_eq_Suc)

lemma parse_font_Inr_iff:
  "parse_font psf = Inr f \<longleftrightarrow>
     4100 \<le> length psf \<and> take 4 psf = [0x36, 0x04, 2, 16]
     \<and> f = \<lparr>font_hdr = \<lparr>fh_magic = 0x0436, fh_font_mode = 2, fh_glyph_size = 16\<rparr>,
            font_data = take 4096 (drop 4 psf)\<rparr>"
proof (cases "4100 \<le> length psf")
  case True
  then obtain a b c d rest where psf: "psf = a # b # c # d # rest"
    using four_or_more [of psf] by auto
  have "parse_font psf = Inr f \<longleftrightarrow>
      (from_le_bytes [a, b] :: u16) = from_le_bytes [0x36, 0x04] \<and> c = 2 \<and> d = 16
      \<and> f = \<lparr>font_hdr = \<lparr>fh_magic = from_le_bytes [a, b], fh_font_mode = c, fh_glyph_size = d\<rparr>,
            font_data = take 4096 rest\<rparr>"
    using True by (auto simp: psf parse_font_def le_at_eq index_def slice_def)
  also have "\<dots> \<longleftrightarrow> a = 0x36 \<and> b = 0x04 \<and> c = 2 \<and> d = 16
      \<and> f = \<lparr>font_hdr = \<lparr>fh_magic = 0x0436, fh_font_mode = 2, fh_glyph_size = 16\<rparr>,
            font_data = take 4096 rest\<rparr>"
    unfolding psf_magic by (auto simp: from_le_bytes_def)
  finally show ?thesis using True by (auto simp: psf)
next
  case False
  then show ?thesis by (auto simp: parse_font_def slice_def)
qed

lemma parse_font_ok: "parse_font psf = Inr f \<Longrightarrow> font_ok f"
  by (auto simp: parse_font_Inr_iff font_ok_def)

lemma parse_font_glyphs:
  "parse_font psf = Inr f \<longleftrightarrow>
     4100 \<le> length psf \<and> take 4 psf = [0x36, 0x04, 2, 16]
     \<and> font_ok f \<and> font_get_data f = take 4096 (drop 4 psf)"
proof (cases f)
  case (fields h d)
  then show ?thesis
    by (cases "4100 \<le> length psf") (simp_all add: parse_font_Inr_iff font_ok_def font_get_data_def, safe, simp_all)
qed

text \<open>
  Claim C33. A font loads exactly when its path is in the ramdisk, the file has at least 4100
  bytes and begins with the PSF1 magic number, mode 2 and a glyph size of 16; any other file
  panics. What loads is a font of 8 by 16 pixels whose glyph data are the 4096 bytes after the
  file's header.
\<close>

theorem font_new_iff:
  "font_new rd path = Inr f \<longleftrightarrow>
     (\<exists>psf. map_of (initrd_contents rd) path = Some psf
       \<and> 4100 \<le> length psf \<and> take 4 psf = [0x36, 0x04, 2, 16]
       \<and> font_ok f \<and> font_get_data f = take 4096 (drop 4 psf))"
proof -
  have "font_new rd path = Inr f \<longleftrightarrow>
      (\<exists>psf. map_of (initrd_contents rd) path = Some psf \<and> parse_font psf = Inr f)"
    by (simp add: font_new_def ramdisk.lookup_Inr_iff)
  then show ?thesis by (simp add: parse_font_glyphs)
qed

end
