(* ===== verification/Pixel_Surface.thy ===== *)
theory Pixel_Surface
  imports Kernel_Prelude
begin

text \<open>
  What the code that draws (clearing the screen, glyphs, images) relies on: a surface on which
  one call colours one pixel. \<open>inside\<close> says which coordinates are on the surface, \<open>pixel\<close>
  reads one, and \<open>elsewhere\<close> is all of the state that is not part of the surface. The lemmas
  say what a loop over a row, and a loop over the rows of a rectangle, draw.
\<close>

locale pixel_surface =
  fixes draw :: "'v \<Rightarrow> usize \<Rightarrow> usize \<Rightarrow> u32 \<Rightarrow> 'm \<Rightarrow> 'm \<times> unit result"
    and pixel :: "'v \<Rightarrow> 'm \<Rightarrow> usize \<Rightarrow> usize \<Rightarrow> u32"
    and inside :: "'v \<Rightarrow> usize \<Rightarrow> usize \<Rightarrow> bool"
    and elsewhere :: "'v \<Rightarrow> 'm \<Rightarrow> 'r"
  assumes draw_ok: "inside v x y \<Longrightarrow> snd (draw v x y c m) = Inr ()"
    and pixel_draw: "inside v x y \<Longrightarrow> inside v x' y' \<Longrightarrow>
      pixel v (fst (draw v x y c m)) x' y' = (if x' = x \<and> y' = y then c else pixel v m x' y')"
    and elsewhere_draw: "inside v x y \<Longrightarrow> elsewhere v (fst (draw v x y c m)) = elsewhere v m"
begin

text \<open>\<open>painted m m' f A\<close>: \<open>m'\<close> shows \<open>f\<close> on the coordinates in \<open>A\<close> and \<open>m\<close> on all others.\<close>

definition painted :: "'v \<Rightarrow> 'm \<Rightarrow> 'm \<Rightarrow> (usize \<Rightarrow> usize \<Rightarrow> bool) \<Rightarrow> (usize \<Rightarrow> usize \<Rightarrow> u32) \<Rightarrow> bool" where
  "painted v m m' A f \<longleftrightarrow> elsewhere v m' = elsewhere v m
     \<and> (\<forall>x y. inside v x y \<longrightarrow> pixel v m' x y = (if A x y then f x y else pixel v m x y))"

lemma painted_none: "painted v m m (\<lambda>_ _. False) f"
  by (simp add: painted_def)

lemma painted_trans:
  assumes "painted v m m' A f" "painted v m' m'' B f" "\<And>x y. C x y \<longleftrightarrow> A x y \<or> B x y"
  shows "painted v m m'' C f"
  using assms by (auto simp: painted_def)

lemma painted_over:
  assumes "painted v m m' A f" "painted v m' m'' B g" "\<And>x y. C x y \<longleftrightarrow> A x y \<or> B x y"
    and "\<And>x y. B x y \<Longrightarrow> h x y = g x y" "\<And>x y. A x y \<Longrightarrow> \<not> B x y \<Longrightarrow> h x y = f x y"
  shows "painted v m m'' C h"
  using assms by (auto simp: painted_def)

lemma painted_cong:
  assumes "painted v m m' A f"
    and "\<And>x y. inside v x y \<Longrightarrow> A x y \<longleftrightarrow> B x y" "\<And>x y. inside v x y \<Longrightarrow> B x y \<Longrightarrow> f x y = g x y"
  shows "painted v m m' B g"
  using assms by (auto simp: painted_def)

lemma draw_painted:
  assumes "inside v x y"
  shows "\<exists>m'. draw v x y (f x y) m = (m', Inr ()) \<and> painted v m m' (\<lambda>x' y'. x' = x \<and> y' = y) f"
  using draw_ok [OF assms] pixel_draw [OF assms] elsewhere_draw [OF assms]
  by (cases "draw v x y (f x y) m") (auto simp: painted_def, (metis fst_conv snd_conv)+)

lemma row_painted:
  assumes "\<And>i. i < w \<Longrightarrow> inside v (x0 + i) y"
  shows "\<exists>m'. each (\<lambda>i. draw v (x0 + i) y (f (x0 + i) y)) [0..<w] m = (m', Inr ())
     \<and> painted v m m' (\<lambda>x' y'. x0 \<le> x' \<and> x' < x0 + w \<and> y' = y) f"
  using assms
proof (induction w)
  case 0
  have "painted v m m (\<lambda>x' y'. x0 \<le> x' \<and> x' < x0 + 0 \<and> y' = y) f"
    by (rule painted_cong [OF painted_none]) auto
  then show ?case by simp
next
  case (Suc w)
  then obtain m1 where m1: "each (\<lambda>i. draw v (x0 + i) y (f (x0 + i) y)) [0..<w] m = (m1, Inr ())"
      "painted v m m1 (\<lambda>x' y'. x0 \<le> x' \<and> x' < x0 + w \<and> y' = y) f" by auto
  obtain m2 where m2: "draw v (x0 + w) y (f (x0 + w) y) m1 = (m2, Inr ())"
      "painted v m1 m2 (\<lambda>x' y'. x' = x0 + w \<and> y' = y) f"
    using draw_painted [of v "x0 + w" y f m1] Suc.prems by auto
  have "painted v m m2 (\<lambda>x' y'. x0 \<le> x' \<and> x' < x0 + Suc w \<and> y' = y) f"
    by (rule painted_trans [OF m1(2) m2(2)]) auto
  then show ?case by (simp add: each_append m1(1) m2(1))
qed

lemma rectangle_painted:
  assumes "\<And>i j. i < w \<Longrightarrow> j < h \<Longrightarrow> inside v (x0 + i) (y0 + j)"
  shows "\<exists>m'. each (\<lambda>j. each (\<lambda>i. draw v (x0 + i) (y0 + j) (f (x0 + i) (y0 + j))) [0..<w]) [0..<h] m
       = (m', Inr ())
     \<and> painted v m m' (\<lambda>x' y'. x0 \<le> x' \<and> x' < x0 + w \<and> y0 \<le> y' \<and> y' < y0 + h) f"
  using assms
proof (induction h)
  case 0
  have "painted v m m (\<lambda>x' y'. x0 \<le> x' \<and> x' < x0 + w \<and> y0 \<le> y' \<and> y' < y0 + 0) f"
    by (rule painted_cong [OF painted_none]) auto
  then show ?case by simp
next
  case (Suc h)
  let ?row = "\<lambda>j. each (\<lambda>i. draw v (x0 + i) (y0 + j) (f (x0 + i) (y0 + j))) [0..<w]"
  obtain m1 where m1: "each ?row [0..<h] m = (m1, Inr ())"
      "painted v m m1 (\<lambda>x' y'. x0 \<le> x' \<and> x' < x0 + w \<and> y0 \<le> y' \<and> y' < y0 + h) f"
    using Suc by auto
  obtain m2 where m2: "?row h m1 = (m2, Inr ())"
      "painted v m1 m2 (\<lambda>x' y'. x0 \<le> x' \<and> x' < x0 + w \<and> y' = y0 + h) f"
    using row_painted [of w v x0 "y0 + h" f m1] Suc.prems by auto
  have "painted v m m2 (\<lambda>x' y'. x0 \<le> x' \<and> x' < x0 + w \<and> y0 \<le> y' \<and> y' < y0 + Suc h) f"
    by (rule painted_trans [OF m1(2) m2(2)]) auto
  then show ?case by (simp add: each_append m1(1) m2(1))
qed

end

end
