(* ===== verification/Vga.thy ===== *)
theory Vga
  imports Font Logger Pixel_Surface
begin

text \<open>
  The framebuffer console, \<^verbatim>\<open>kernel/src/vga.rs\<close>: pixels written to memory as little-endian
  32-bit words, glyphs of the loaded font, and the text writer with its newline, tab, carriage
  return and escape sequences. The framebuffer is part of the machine's memory, which the
  operations take and return; \<^verbatim>\<open>write_str\<close> and \<^verbatim>\<open>write_char\<close> never return \<^verbatim>\<open>Err\<close>, so a result
  is \<open>unit\<close> or a panic.
\<close>

section \<open>State\<close>

datatype color = Black | Blue | Green | Orange | Purple | Red | White | Yellow

definition color_value :: "color \<Rightarrow> u32" where
  "color_value c =
     (case c of
        Black \<Rightarrow> 0x0 | Blue \<Rightarrow> 0x000097E6 | Green \<Rightarrow> 0x0044BD32 | Orange \<Rightarrow> 0x00C23616
      | Purple \<Rightarrow> 0x008C7AE6 | Red \<Rightarrow> 0x00E84118 | White \<Rightarrow> 0x00F5F6FA | Yellow \<Rightarrow> 0x00FBC531)"

record cursor =
  cur_x :: usize
  cur_y :: usize
  cur_fg :: u32
  cur_bg :: u32

record vga =
  v_address :: u64
  v_cursor :: cursor
  v_font :: font
  v_height :: u64
  v_pitch :: u64
  v_width :: u64

text \<open>The boot loader's answer to the framebuffer request.\<close>

record framebuffer =
  fb_addr :: u64
  fb_height :: u64
  fb_pitch :: u64
  fb_width :: u64

definition vga_new :: "framebuffer list option \<Rightarrow> font \<Rightarrow> vga result" where
  "vga_new response f =
     (case response of
        Some framebuffers \<Rightarrow>
          rbind (unwrap_option (case framebuffers of [] \<Rightarrow> None | fb # _ \<Rightarrow> Some fb)) (\<lambda>fb.
          Inr \<lparr>v_address = fb_addr fb,
               v_cursor = \<lparr>cur_x = 0, cur_y = 0, cur_fg = color_value White,
                           cur_bg = color_value Black\<rparr>,
               v_font = f, v_height = fb_height fb, v_pitch = fb_pitch fb,
               v_width = fb_width fb\<rparr>)
      | None \<Rightarrow> Inl ExplicitPanic)"

definition NORMAL_FONT :: rstr where
  "NORMAL_FONT = lit ''initrd/usr/share/fonts/ter-i16n.psf''"

definition BOLD_FONT :: rstr where
  "BOLD_FONT = lit ''initrd/usr/share/fonts/ter-i16b.psf''"

text \<open>The lazily built \<^verbatim>\<open>VGA\<close> static.\<close>

definition vga_static :: "initrd \<Rightarrow> framebuffer list option \<Rightarrow> vga result" where
  "vga_static rd response = rbind (font_new rd NORMAL_FONT) (\<lambda>f. vga_new response f)"

definition vga_get_width :: "vga \<Rightarrow> usize" where "vga_get_width v = unat (v_width v)"
definition vga_get_height :: "vga \<Rightarrow> usize" where "vga_get_height v = unat (v_height v)"
definition get_font_width :: "vga \<Rightarrow> usize" where "get_font_width v = font_get_width (v_font v)"
definition get_font_height :: "vga \<Rightarrow> usize" where "get_font_height v = font_get_height (v_font v)"

definition set_cursor :: "vga \<Rightarrow> usize \<Rightarrow> usize \<Rightarrow> u32 \<Rightarrow> u32 \<Rightarrow> vga" where
  "set_cursor v x y fg bg = v\<lparr>v_cursor := \<lparr>cur_x = x, cur_y = y, cur_fg = fg, cur_bg = bg\<rparr>\<rparr>"

section \<open>Drawing\<close>

unbundle bit_operations_syntax

text \<open>\<^verbatim>\<open>ptr::write_unaligned\<close> of a \<^verbatim>\<open>u32\<close>: the four bytes at the address, low byte first.\<close>

definition write_u32 :: "memory \<Rightarrow> u64 \<Rightarrow> u32 \<Rightarrow> memory" where
  "write_u32 mem a c =
     (\<lambda>p. if unat (p - a) < 4 then to_le_bytes 4 c ! unat (p - a) else mem p)"

definition draw_pixel :: "vga \<Rightarrow> usize \<Rightarrow> usize \<Rightarrow> u32 \<Rightarrow> memory \<Rightarrow> memory \<times> unit result" where
  "draw_pixel v x y color mem =
     sbind (mem, rbind (usize_mul y (unat (v_pitch v))) (\<lambda>row.
                 rbind (usize_mul x 4) (\<lambda>column. usize_add row column))) (\<lambda>mem offset.
     let pixel = v_address v + word_of_nat offset in
     (write_u32 mem pixel color, Inr ()))"

definition clear :: "vga \<Rightarrow> memory \<Rightarrow> (vga \<times> memory) \<times> unit result" where
  "clear v mem =
     (case each (\<lambda>y. each (\<lambda>x. draw_pixel v x y (color_value Black)) [0..<unat (v_width v)])
             [0..<unat (v_height v)] mem of
        (mem, Inl p) \<Rightarrow> ((v, mem), Inl p)
      | (mem, Inr _) \<Rightarrow> ((set_cursor v 8 24 (color_value White) (color_value Black), mem), Inr ()))"

definition glyph_masks :: "u8 list" where
  "glyph_masks = [128, 64, 32, 16, 8, 4, 2, 1]"

definition write_char :: "vga \<Rightarrow> rchar \<Rightarrow> memory \<Rightarrow> memory \<times> unit result" where
  "write_char v c mem =
     sbind (mem, usize_mul c (font_get_height (v_font v))) (\<lambda>mem position.
     sbind (mem, slice_from (font_get_data (v_font v)) position) (\<lambda>mem glyphs.
     let x = cur_x (v_cursor v); y = cur_y (v_cursor v);
         fg = cur_fg (v_cursor v); bg = cur_bg (v_cursor v)
     in each (\<lambda>(cy, glyph).
          each (\<lambda>(cx, mask) mem.
              let color = (if glyph AND mask = 0 then bg else fg) in
              sbind (mem, usize_add x cx) (\<lambda>mem px.
              sbind (mem, rbind (usize_add y cy) (\<lambda>sum. usize_sub sum 12)) (\<lambda>mem py.
              draw_pixel v px py color mem)))
            (take (font_get_width (v_font v)) (enumerate 0 glyph_masks)))
          (take (font_get_height (v_font v)) (enumerate 0 glyphs)) mem))"

section \<open>Text\<close>

text \<open>The colour an escape sequence selects; other sequences keep the colour.\<close>

definition sequence_color :: "rstr \<Rightarrow> u32 \<Rightarrow> u32" where
  "sequence_color s fg =
     (if s = BLUE then color_value Blue
      else if s = DEFAULT then color_value White
      else if s = GREEN then color_value Green
      else if s = ORANGE then color_value Orange
      else if s = PURPLE then color_value Purple
      else if s = RED then color_value Red
      else if s = YELLOW then color_value Yellow
      else fg)"

function write_str_loop ::
    "initrd \<Rightarrow> rstr \<Rightarrow> usize \<Rightarrow> usize \<Rightarrow> u32 \<Rightarrow> u32 \<Rightarrow> usize \<Rightarrow> vga \<times> memory
      \<Rightarrow> (vga \<times> memory) \<times> unit result" where
  "write_str_loop rd [] x y fg bg position s = (s, Inr ())"
| "write_str_loop rd (character # chars) x y fg bg position s =
     (let width = font_get_width (v_font (fst s)); height = font_get_height (v_font (fst s)) in
      if character = 10 then
        sbind (s, usize_add y height) (\<lambda>s y.
        write_str_loop rd chars width y fg bg 0 (set_cursor (fst s) width y fg bg, snd s))
      else if character = 13 then
        write_str_loop rd chars width y fg bg 0 (set_cursor (fst s) width y fg bg, snd s)
      else if character = 9 then
        sbind (s, rbind (usize_mul width 8) (usize_add x)) (\<lambda>s x.
        write_str_loop rd chars x y fg bg position (set_cursor (fst s) x y fg bg, snd s))
      else if character = 0x1b then
        let sequence = takeWhile (\<lambda>x. x \<noteq> 109) chars;
            chars = drop 1 (dropWhile (\<lambda>x. x \<noteq> 109) chars);
            sequence = [0x1b] @ sequence @ [109]
        in if sequence = BOLD then
             sbind (s, font_new rd BOLD_FONT) (\<lambda>s f.
             write_str_loop rd chars x y fg bg position ((fst s)\<lparr>v_font := f\<rparr>, snd s))
           else if sequence = NORMAL then
             sbind (s, font_new rd NORMAL_FONT) (\<lambda>s f.
             write_str_loop rd chars x y fg bg position ((fst s)\<lparr>v_font := f\<rparr>, snd s))
           else write_str_loop rd chars x y (sequence_color sequence fg) bg position s
      else
        sbind (s, rbind (usize_mul width position) (usize_add x)) (\<lambda>s cx.
        let v = set_cursor (fst s) cx y fg bg in
        (case write_char v character (snd s) of
           (mem, Inl p) \<Rightarrow> ((v, mem), Inl p)
         | (mem, Inr _) \<Rightarrow>
             sbind ((v, mem), usize_add position 1) (\<lambda>s position.
             write_str_loop rd chars x y fg bg position s))))"
  by pat_completeness auto
termination
proof (relation "measure (\<lambda>(rd, cs, _). length cs)", goal_cases)
qed (auto simp: le_imp_less_Suc length_dropWhile_le diff_le_self order.trans [OF diff_le_self])

declare write_str_loop.simps [simp del]

definition write_str :: "initrd \<Rightarrow> rstr \<Rightarrow> vga \<times> memory \<Rightarrow> (vga \<times> memory) \<times> unit result" where
  "write_str rd s vm =
     (let c = v_cursor (fst vm)
      in write_str_loop rd s (cur_x c) (cur_y c) (cur_fg c) (cur_bg c) 0 vm)"

text \<open>
  What \<^verbatim>\<open>write!\<close> and \<^verbatim>\<open>writeln!\<close> call: the driver's own \<^verbatim>\<open>write_fmt\<close> renders all of its arguments into
  one string and writes that. Interrupts are off meanwhile, so nothing else runs.
\<close>

definition write_fmt :: "initrd \<Rightarrow> rstr \<Rightarrow> vga \<times> memory \<Rightarrow> (vga \<times> memory) \<times> unit result" where
  "write_fmt rd args vm = write_str rd args vm"

lemma write_fmt_str [simp]: "write_fmt rd = write_str rd"
  by (intro ext) (simp add: write_fmt_def)

section \<open>The framebuffer as a surface\<close>

text \<open>
  \<open>vga_fits\<close>: a row of the screen fits into the pitch and the framebuffer ends within the address
  space. \<open>pixel_address\<close> is where \<^verbatim>\<open>draw_pixel\<close> writes, \<open>pixel_at\<close> reads the colour there, and
  \<open>beyond_screen\<close> is the memory outside the framebuffer.
\<close>

definition vga_fits :: "vga \<Rightarrow> bool" where
  "vga_fits v \<longleftrightarrow> unat (v_width v) * 4 \<le> unat (v_pitch v)
     \<and> unat (v_address v) + unat (v_height v) * unat (v_pitch v) \<le> 2 ^ 64"

definition on_screen :: "vga \<Rightarrow> usize \<Rightarrow> usize \<Rightarrow> bool" where
  "on_screen v x y \<longleftrightarrow> vga_fits v \<and> x < unat (v_width v) \<and> y < unat (v_height v)"

definition pixel_offset :: "vga \<Rightarrow> usize \<Rightarrow> usize \<Rightarrow> nat" where
  "pixel_offset v x y = y * unat (v_pitch v) + x * 4"

definition pixel_at :: "vga \<Rightarrow> memory \<Rightarrow> usize \<Rightarrow> usize \<Rightarrow> u32" where
  "pixel_at v mem x y =
     from_le_bytes (read_bytes mem (v_address v + word_of_nat (pixel_offset v x y)) 4)"

definition framebuffer_byte :: "vga \<Rightarrow> u64 \<Rightarrow> bool" where
  "framebuffer_byte v p \<longleftrightarrow>
     unat (v_address v) \<le> unat p
     \<and> unat p < unat (v_address v) + unat (v_height v) * unat (v_pitch v)"

definition beyond_screen :: "vga \<Rightarrow> memory \<Rightarrow> u64 \<Rightarrow> u8" where
  "beyond_screen v mem = (\<lambda>p. if framebuffer_byte v p then 0 else mem p)"

text \<open>Four-byte words in memory.\<close>

lemma read_write_u32: "read_bytes (write_u32 mem a c) a 4 = to_le_bytes 4 c"
proof -
  have "read_bytes (write_u32 mem a c) a 4 = map (\<lambda>i. to_le_bytes 4 c ! i) [0..<4]"
    by (auto simp: read_bytes_def write_u32_def unat_of_nat)
  also have "\<dots> = to_le_bytes 4 c" by (metis length_to_le_bytes map_nth)
  finally show ?thesis .
qed

lemma unat_minus_outside:
  fixes p a :: u64
  assumes "unat a + 4 \<le> 2 ^ 64" "unat p < unat a \<or> unat a + 4 \<le> unat p"
  shows "\<not> unat (p - a) < 4"
proof (cases "unat p < unat a")
  case True
  then have "unat (p - a) = 2 ^ 64 + unat p - unat a"
    by (simp add: unat_sub_if_size word_size)
  then show ?thesis using assms True by simp
next
  case False
  then have "unat (p - a) = unat p - unat a" by (simp add: unat_sub word_le_nat_alt)
  then show ?thesis using assms False by simp
qed

lemma write_u32_other:
  assumes "unat a + 4 \<le> 2 ^ 64" "unat p < unat a \<or> unat a + 4 \<le> unat p"
  shows "write_u32 mem a c p = mem p"
  using unat_minus_outside [OF assms] by (simp add: write_u32_def)

lemma read_write_u32_other:
  assumes "unat a + 4 \<le> 2 ^ 64" "unat b + 4 \<le> 2 ^ 64"
    and "unat a + 4 \<le> unat b \<or> unat b + 4 \<le> unat a"
  shows "read_bytes (write_u32 mem a c) b 4 = read_bytes mem b 4"
proof -
  have "write_u32 mem a c (b + word_of_nat i) = mem (b + word_of_nat i)" if "i < 4" for i
  proof (rule write_u32_other [OF assms(1)])
    have "unat (b + word_of_nat i) = unat b + i"
      using assms(2) that by (simp add: unat_word_ariths unat_of_nat)
    then show "unat (b + word_of_nat i) < unat a \<or> unat a + 4 \<le> unat (b + word_of_nat i)"
      using assms(3) that by auto
  qed
  then show ?thesis by (simp add: read_bytes_def)
qed

text \<open>Pixels of the screen lie in the framebuffer and do not overlap.\<close>

lemma pixel_offset_bound:
  assumes "on_screen v x y"
  shows "pixel_offset v x y + 4 \<le> unat (v_height v) * unat (v_pitch v)"
proof -
  have "pixel_offset v x y + 4 \<le> y * unat (v_pitch v) + unat (v_pitch v)"
    using assms by (auto simp: on_screen_def vga_fits_def pixel_offset_def)
  also have "\<dots> = Suc y * unat (v_pitch v)" by simp
  also have "\<dots> \<le> unat (v_height v) * unat (v_pitch v)"
    using assms by (intro mult_le_mono1) (simp add: on_screen_def)
  finally show ?thesis .
qed

lemma unat_pixel_address:
  assumes "on_screen v x y"
  shows "unat (v_address v + word_of_nat (pixel_offset v x y))
    = unat (v_address v) + pixel_offset v x y"
  using pixel_offset_bound [OF assms] assms
  by (auto simp: on_screen_def vga_fits_def unat_word_ariths unat_of_nat)

lemma pixel_offset_row:
  assumes "on_screen v x y" "y < y'"
  shows "pixel_offset v x y + 4 \<le> pixel_offset v x' y'"
proof -
  have "pixel_offset v x y + 4 \<le> Suc y * unat (v_pitch v)"
    using assms(1) by (auto simp: on_screen_def vga_fits_def pixel_offset_def)
  also have "\<dots> \<le> y' * unat (v_pitch v)" using assms(2) by (intro mult_le_mono1) simp
  finally show ?thesis by (simp add: pixel_offset_def)
qed

lemma pixel_offset_disjoint:
  assumes "on_screen v x y" "on_screen v x' y'" "\<not> (x' = x \<and> y' = y)"
  shows "pixel_offset v x y + 4 \<le> pixel_offset v x' y'
    \<or> pixel_offset v x' y' + 4 \<le> pixel_offset v x y"
proof -
  consider "y < y'" | "y' < y" | "y = y'" "x < x'" | "y = y'" "x' < x" using assms(3) by linarith
  then show ?thesis
    using pixel_offset_row [OF assms(1)] pixel_offset_row [OF assms(2)]
    by cases (auto simp: pixel_offset_def)
qed

lemma draw_pixel_eq:
  assumes "pixel_offset v x y < 2 ^ 64"
  shows "draw_pixel v x y c mem =
    (write_u32 mem (v_address v + word_of_nat (pixel_offset v x y)) c, Inr ())"
  using assms by (simp add: draw_pixel_def pixel_offset_def usize_mul_def usize_add_def)

lemma draw_pixel_on_screen:
  assumes "on_screen v x y"
  shows "draw_pixel v x y c mem =
    (write_u32 mem (v_address v + word_of_nat (pixel_offset v x y)) c, Inr ())"
proof (rule draw_pixel_eq)
  show "pixel_offset v x y < 2 ^ 64"
    using pixel_offset_bound [OF assms] assms by (simp add: on_screen_def vga_fits_def)
qed

interpretation screen: pixel_surface draw_pixel pixel_at on_screen beyond_screen
proof unfold_locales
  fix v x y x' y' mem c
  assume on: "on_screen v x y"
  let ?a = "v_address v + word_of_nat (pixel_offset v x y)"
  have a: "unat ?a = unat (v_address v) + pixel_offset v x y" "unat ?a + 4 \<le> 2 ^ 64"
    using unat_pixel_address [OF on] pixel_offset_bound [OF on] on
    by (simp_all add: on_screen_def vga_fits_def)
  show "snd (draw_pixel v x y c mem) = Inr ()" by (simp add: draw_pixel_on_screen [OF on])
  show "beyond_screen v (fst (draw_pixel v x y c mem)) = beyond_screen v mem"
  proof
    fix p
    have "write_u32 mem ?a c p = mem p" if "\<not> framebuffer_byte v p"
      by (rule write_u32_other [OF a(2)])
        (use that pixel_offset_bound [OF on] a(1) in \<open>auto simp: framebuffer_byte_def\<close>)
    then show "beyond_screen v (fst (draw_pixel v x y c mem)) p = beyond_screen v mem p"
      by (simp add: draw_pixel_on_screen [OF on] beyond_screen_def)
  qed
  assume on': "on_screen v x' y'"
  let ?b = "v_address v + word_of_nat (pixel_offset v x' y')"
  have b: "unat ?b = unat (v_address v) + pixel_offset v x' y'" "unat ?b + 4 \<le> 2 ^ 64"
    using unat_pixel_address [OF on'] pixel_offset_bound [OF on'] on'
    by (simp_all add: on_screen_def vga_fits_def)
  show "pixel_at v (fst (draw_pixel v x y c mem)) x' y'
      = (if x' = x \<and> y' = y then c else pixel_at v mem x' y')"
  proof (cases "x' = x \<and> y' = y")
    case True
    then show ?thesis by (simp add: draw_pixel_on_screen [OF on] pixel_at_def read_write_u32)
  next
    case False
    have "read_bytes (write_u32 mem ?a c) ?b 4 = read_bytes mem ?b 4"
      by (rule read_write_u32_other [OF a(2) b(2)])
        (use pixel_offset_disjoint [OF on on' False] a(1) b(1) in auto)
    then show ?thesis
      unfolding if_not_P [OF False] by (simp add: draw_pixel_on_screen [OF on] pixel_at_def)
  qed
qed

section \<open>Glyphs\<close>

text \<open>Bit \<open>7 - i\<close> of row \<open>j\<close> of a glyph says whether its pixel at column \<open>i\<close> is set.\<close>

definition glyph_color :: "font \<Rightarrow> u32 \<Rightarrow> u32 \<Rightarrow> rchar \<Rightarrow> nat \<Rightarrow> nat \<Rightarrow> u32" where
  "glyph_color f fg bg c i j = (if bit (font_get_data f ! (c * 16 + j)) (7 - i) then fg else bg)"

lemma glyph_mask:
  assumes "i < 8"
  shows "g AND glyph_masks ! i = 0 \<longleftrightarrow> \<not> bit g (7 - i)"
proof -
  have "glyph_masks ! i = 2 ^ (7 - i)"
    using assms by (auto simp: glyph_masks_def less_Suc_eq numeral_eq_Suc)
  then show ?thesis by (simp add: and_exp_eq_0_iff_not_bit)
qed

lemma set_cursor_geometry [simp]:
  "v_font (set_cursor v x y fg bg) = v_font v"
  "v_cursor (set_cursor v x y fg bg) = \<lparr>cur_x = x, cur_y = y, cur_fg = fg, cur_bg = bg\<rparr>"
  "vga_fits (set_cursor v x y fg bg) = vga_fits v"
  "on_screen (set_cursor v x y fg bg) = on_screen v"
  "pixel_at (set_cursor v x y fg bg) = pixel_at v"
  "beyond_screen (set_cursor v x y fg bg) = beyond_screen v"
  "screen.painted (set_cursor v x y fg bg) = screen.painted v"
  "v_width (set_cursor v x y fg bg) = v_width v"
  "v_height (set_cursor v x y fg bg) = v_height v"
  by (simp_all add: fun_eq_iff set_cursor_def vga_fits_def on_screen_def pixel_at_def
      pixel_offset_def beyond_screen_def framebuffer_byte_def screen.painted_def)

lemma set_cursor_twice [simp]: "set_cursor (set_cursor v a b c d) x y fg bg = set_cursor v x y fg bg"
  by (simp add: set_cursor_def)

text \<open>The 8 by 16 cell whose baseline row is twelve rows below its top.\<close>

definition cell_on_screen :: "vga \<Rightarrow> usize \<Rightarrow> usize \<Rightarrow> usize \<Rightarrow> bool" where
  "cell_on_screen v x y n \<longleftrightarrow> vga_fits v \<and> 12 \<le> y
     \<and> y + 4 \<le> unat (v_height v) \<and> x + 8 * n \<le> unat (v_width v)"

lemma cell_bounds:
  assumes "cell_on_screen v x y 1"
  shows "x + 8 < 2 ^ 64" "y + 16 < 2 ^ 64"
proof -
  show "x + 8 < 2 ^ 64"
    using assms unat_bounds(4) [of "v_width v"] by (simp add: cell_on_screen_def)
  have "32 \<le> unat (v_pitch v)" using assms by (simp add: cell_on_screen_def vga_fits_def)
  then have "unat (v_height v) * 32 \<le> unat (v_height v) * unat (v_pitch v)" by (rule mult_le_mono2)
  also have "\<dots> \<le> 2 ^ 64" using assms by (simp add: cell_on_screen_def vga_fits_def)
  finally show "y + 16 < 2 ^ 64" using assms by (simp add: cell_on_screen_def)
qed

lemma write_char_painted:
  assumes f: "font_ok (v_font v)" and c: "c < 256"
    and cur: "v_cursor v = \<lparr>cur_x = x, cur_y = y, cur_fg = fg, cur_bg = bg\<rparr>"
    and cell: "cell_on_screen v x y 1"
  shows "\<exists>mem'. write_char v c mem = (mem', Inr ())
    \<and> screen.painted v mem mem' (\<lambda>px py. x \<le> px \<and> px < x + 8 \<and> y - 12 \<le> py \<and> py < y - 12 + 16)
        (\<lambda>px py. glyph_color (v_font v) fg bg c (px - x) (py - (y - 12)))"
proof -
  let ?G = "\<lambda>px py. glyph_color (v_font v) fg bg c (px - x) (py - (y - 12))"
  let ?glyphs = "drop (c * 16) (font_get_data (v_font v))"
  have len: "16 \<le> length ?glyphs" using f c by simp
  note range = cell_bounds [OF cell]
  let ?body = "\<lambda>i j m. sbind (m, usize_add x i) (\<lambda>mem px.
        sbind (mem, rbind (usize_add y j) (\<lambda>sum. usize_sub sum 12)) (\<lambda>mem py.
        draw_pixel v px py
          (if font_get_data (v_font v) ! (c * 16 + j) AND glyph_masks ! i = 0 then bg else fg) mem))"
  have pixel: "?body i j m = draw_pixel v (x + i) (y - 12 + j) (?G (x + i) (y - 12 + j)) m"
    if "i < 8" "j < 16" for i j m
  proof -
    have "usize_add y j = Inr (y + j)" "usize_add x i = Inr (x + i)"
        "usize_sub (y + j) 12 = Inr (y - 12 + j)"
      using range that cell by (auto simp: usize_Inr cell_on_screen_def)
    then show ?thesis
      using that by (simp add: glyph_mask glyph_color_def)
  qed
  have "write_char v c mem = each (\<lambda>j. each (\<lambda>i. ?body i j) [0..<8]) [0..<16] mem"
  proof -
    have "usize_mul c 16 = Inr (c * 16)" "slice_from (font_get_data (v_font v)) (c * 16) = Inr ?glyphs"
      using f c by (simp_all add: usize_mul_def slice_from_def)
    moreover have "min 16 (4096 - c * 16) = 16" "min 8 (length glyph_masks) = 8"
      using len f by (simp_all add: glyph_masks_def)
    ultimately show ?thesis
      using f by (simp add: write_char_def cur Let_def each_take_enumerate)
  qed
  also have "\<dots> = each (\<lambda>j. each (\<lambda>i. draw_pixel v (x + i) (y - 12 + j)
      (?G (x + i) (y - 12 + j))) [0..<8]) [0..<16] mem"
    by (intro each_cong) (simp add: pixel)
  finally have "write_char v c mem = each (\<lambda>j. each (\<lambda>i. draw_pixel v (x + i) (y - 12 + j)
      (?G (x + i) (y - 12 + j))) [0..<8]) [0..<16] mem" .
  then show ?thesis
    using screen.rectangle_painted [of 8 16 v x "y - 12" ?G mem] cell
    by (auto simp: on_screen_def cell_on_screen_def)
qed

section \<open>Lines of text\<close>

text \<open>Characters that \<^verbatim>\<open>write_str\<close> draws, and that the font has.\<close>

definition printable :: "rchar \<Rightarrow> bool" where
  "printable c \<longleftrightarrow> c < 256 \<and> c \<notin> {9, 10, 13, 27}"

text \<open>The colour at a pixel of a line of text whose top left corner is \<open>(x0, y0)\<close>.\<close>

definition text_color ::
    "font \<Rightarrow> u32 \<Rightarrow> u32 \<Rightarrow> rstr \<Rightarrow> usize \<Rightarrow> usize \<Rightarrow> usize \<Rightarrow> usize \<Rightarrow> u32" where
  "text_color f fg bg s x0 y0 px py =
     glyph_color f fg bg (s ! ((px - x0) div 8)) ((px - x0) mod 8) (py - y0)"

lemma text_color_first:
  "x0 \<le> px \<Longrightarrow> px < x0 + 8 \<Longrightarrow>
     text_color f fg bg (c # cs) x0 y0 px py = glyph_color f fg bg c (px - x0) (py - y0)"
  by (simp add: text_color_def)

lemma text_color_rest:
  assumes "x0 + 8 \<le> px"
  shows "text_color f fg bg (c # cs) x0 y0 px py = text_color f fg bg cs (x0 + 8) y0 px py"
proof -
  obtain d where "px = x0 + 8 + d" using assms le_Suc_ex by blast
  then show ?thesis by (simp add: text_color_def div_add_self1)
qed

lemma text_color_skip:
  assumes "x0 + 8 * n \<le> px"
  shows "text_color f fg bg s (x0 + 8 * n) y0 px py
    = glyph_color f fg bg (s ! ((px - x0) div 8 - n)) ((px - x0) mod 8) (py - y0)"
proof -
  obtain d where "px = x0 + 8 * n + d" using assms le_Suc_ex by blast
  then show ?thesis by (simp add: text_color_def)
qed

lemma write_str_loop_printable:
  assumes "printable c"
  shows "write_str_loop rd (c # cs) x y fg bg position s =
    sbind (s, rbind (usize_mul (font_get_width (v_font (fst s))) position) (usize_add x)) (\<lambda>s cx.
    let v = set_cursor (fst s) cx y fg bg in
    (case write_char v c (snd s) of
       (mem, Inl p) \<Rightarrow> ((v, mem), Inl p)
     | (mem, Inr _) \<Rightarrow>
         sbind ((v, mem), usize_add position 1) (\<lambda>s position.
         write_str_loop rd cs x y fg bg position s)))"
  using assms by (simp add: write_str_loop.simps(2) printable_def)

lemma write_str_loop_glyph:
  assumes "font_ok (v_font v)" "printable c" "cell_on_screen v (x + 8 * position) y 1"
  obtains m1 where "write_str_loop rd (c # cs) x y fg bg position (v, mem)
      = write_str_loop rd cs x y fg bg (Suc position) (set_cursor v (x + 8 * position) y fg bg, m1)"
    "screen.painted v mem m1
      (\<lambda>px py. x + 8 * position \<le> px \<and> px < x + 8 * position + 8 \<and> y - 12 \<le> py \<and> py < y - 12 + 16)
      (text_color (v_font v) fg bg (c # ds) (x + 8 * position) (y - 12))"
proof -
  let ?x = "x + 8 * position"
  let ?v = "set_cursor v ?x y fg bg"
  have cell: "cell_on_screen ?v ?x y 1" using assms(3) by (simp add: cell_on_screen_def)
  have c: "c < 256" using assms(2) by (simp add: printable_def)
  obtain m1 where m1: "write_char ?v c mem = (m1, Inr ())"
      "screen.painted v mem m1 (\<lambda>px py. ?x \<le> px \<and> px < ?x + 8 \<and> y - 12 \<le> py \<and> py < y - 12 + 16)
        (\<lambda>px py. glyph_color (v_font v) fg bg c (px - ?x) (py - (y - 12)))"
    using write_char_painted [of ?v c ?x y fg bg mem] assms(1) c cell by auto
  show thesis
  proof (rule that)
    show "write_str_loop rd (c # cs) x y fg bg position (v, mem)
        = write_str_loop rd cs x y fg bg (Suc position) (?v, m1)"
      using cell_bounds(1) [OF cell] assms(1)
      by (simp add: write_str_loop_printable [OF assms(2)] usize_mul_def usize_add_def Let_def m1(1))
    show "screen.painted v mem m1 (\<lambda>px py. ?x \<le> px \<and> px < ?x + 8 \<and> y - 12 \<le> py \<and> py < y - 12 + 16)
        (text_color (v_font v) fg bg (c # ds) ?x (y - 12))"
      by (rule screen.painted_cong [OF m1(2)]) (auto simp: text_color_first)
  qed
qed

lemma write_str_loop_text:
  assumes "font_ok (v_font v)" "\<forall>c\<in>set s. printable c" "s \<noteq> []"
    and "cell_on_screen v (x + 8 * position) y (length s)"
  shows "\<exists>mem'. write_str_loop rd (s @ rest) x y fg bg position (v, mem)
      = write_str_loop rd rest x y fg bg (position + length s)
          (set_cursor v (x + 8 * (position + length s - 1)) y fg bg, mem')
    \<and> screen.painted v mem mem'
        (\<lambda>px py. x + 8 * position \<le> px \<and> px < x + 8 * (position + length s)
                \<and> y - 12 \<le> py \<and> py < y - 12 + 16)
        (text_color (v_font v) fg bg s (x + 8 * position) (y - 12))"
  using assms
proof (induction s arbitrary: position v mem)
  case Nil
  then show ?case by simp
next
  case (Cons c cs)
  let ?x = "x + 8 * position"
  let ?v = "set_cursor v ?x y fg bg"
  have cell: "cell_on_screen v ?x y 1" using Cons.prems(4) by (auto simp: cell_on_screen_def)
  have "printable c" using Cons.prems(2) by simp
  then obtain m1 where step: "write_str_loop rd (c # cs @ rest) x y fg bg position (v, mem)
      = write_str_loop rd (cs @ rest) x y fg bg (Suc position) (?v, m1)"
    and first: "screen.painted v mem m1 (\<lambda>px py. ?x \<le> px \<and> px < ?x + 8 \<and> y - 12 \<le> py \<and> py < y - 12 + 16)
      (text_color (v_font v) fg bg (c # cs) ?x (y - 12))"
    by (rule write_str_loop_glyph [OF Cons.prems(1) _ cell])
  show ?case
  proof (cases "cs = []")
    case True
    then show ?thesis using step screen.painted_cong [OF first] by (intro exI [of _ m1]) (auto simp: algebra_simps)
  next
    case False
    have "cell_on_screen ?v (x + 8 * Suc position) y (length cs)"
      using Cons.prems(4) by (simp add: cell_on_screen_def)
    then obtain m2 where m2: "write_str_loop rd (cs @ rest) x y fg bg (Suc position) (?v, m1)
        = write_str_loop rd rest x y fg bg (Suc position + length cs)
            (set_cursor ?v (x + 8 * (Suc position + length cs - 1)) y fg bg, m2)"
      "screen.painted v m1 m2
        (\<lambda>px py. x + 8 * Suc position \<le> px \<and> px < x + 8 * (Suc position + length cs)
                \<and> y - 12 \<le> py \<and> py < y - 12 + 16)
        (text_color (v_font v) fg bg cs (x + 8 * Suc position) (y - 12))"
      using Cons.IH [of ?v "Suc position" m1] Cons.prems(1,2) False by auto
    have "screen.painted v m1 m2
        (\<lambda>px py. x + 8 * Suc position \<le> px \<and> px < x + 8 * (Suc position + length cs)
                \<and> y - 12 \<le> py \<and> py < y - 12 + 16)
        (text_color (v_font v) fg bg (c # cs) ?x (y - 12))"
      by (rule screen.painted_cong [OF m2(2)])
        (auto simp: text_color_rest [of ?x] add.commute add.left_commute)
    then have "screen.painted v mem m2
        (\<lambda>px py. ?x \<le> px \<and> px < x + 8 * (position + length (c # cs))
          \<and> y - 12 \<le> py \<and> py < y - 12 + 16)
        (text_color (v_font v) fg bg (c # cs) ?x (y - 12))"
      by (rule screen.painted_trans [OF first]) auto
    then show ?thesis unfolding append_Cons step m2(1) by (auto simp: set_cursor_def)
  qed
qed

lemma write_str_text:
  assumes "font_ok (v_font v)" "\<forall>c\<in>set s. printable c" "s \<noteq> []"
    and "v_cursor v = \<lparr>cur_x = x, cur_y = y, cur_fg = fg, cur_bg = bg\<rparr>"
    and "cell_on_screen v x y (length s)"
  shows "\<exists>mem'. write_str rd s (v, mem)
      = ((set_cursor v (x + 8 * (length s - 1)) y fg bg, mem'), Inr ())
    \<and> screen.painted v mem mem'
        (\<lambda>px py. x \<le> px \<and> px < x + 8 * length s \<and> y - 12 \<le> py \<and> py < y - 12 + 16)
        (text_color (v_font v) fg bg s x (y - 12))"
  using write_str_loop_text [of v s x 0 y rd "[]" fg bg mem] assms
  by (auto simp: write_str_def write_str_loop.simps(1))

text \<open>What \<open>painted\<close> says about memory, without the interface's vocabulary.\<close>

lemma painted_screen:
  assumes "screen.painted v mem mem' A f"
  shows "on_screen v px py \<Longrightarrow> pixel_at v mem' px py = (if A px py then f px py else pixel_at v mem px py)"
    and "\<not> framebuffer_byte v p \<Longrightarrow> mem' p = mem p"
proof -
  show "on_screen v px py \<Longrightarrow> pixel_at v mem' px py = (if A px py then f px py else pixel_at v mem px py)"
    using assms by (simp add: screen.painted_def)
  have "beyond_screen v mem' = beyond_screen v mem" using assms by (simp add: screen.painted_def)
  from fun_cong [OF this, of p] show "\<not> framebuffer_byte v p \<Longrightarrow> mem' p = mem p"
    by (simp add: beyond_screen_def)
qed

lemma cell_rows: "cell_on_screen v x y n \<Longrightarrow> y - 12 + 16 = y + 4"
  by (simp add: cell_on_screen_def)

text \<open>
  Claim C14. Writing a line of printable characters that fits on the screen at the cursor never
  panics. Each character appears in its own 8 by 16 cell, in the foreground and background
  colours of the cursor and with the bits of its glyph in the loaded font; every other pixel and
  every byte outside the framebuffer keeps its value; and the cursor ends on the last
  character drawn.
\<close>

theorem write_str_plain:
  assumes "font_ok (v_font v)" "\<forall>c\<in>set s. printable c" "s \<noteq> []"
    and "v_cursor v = \<lparr>cur_x = x, cur_y = y, cur_fg = fg, cur_bg = bg\<rparr>"
    and "cell_on_screen v x y (length s)"
  shows "\<exists>mem'. write_str rd s (v, mem)
      = ((set_cursor v (x + 8 * (length s - 1)) y fg bg, mem'), Inr ())
    \<and> (\<forall>px py. on_screen v px py \<longrightarrow> pixel_at v mem' px py =
         (if x \<le> px \<and> px < x + 8 * length s \<and> y - 12 \<le> py \<and> py < y + 4
          then glyph_color (v_font v) fg bg (s ! ((px - x) div 8)) ((px - x) mod 8) (py - (y - 12))
          else pixel_at v mem px py))
    \<and> (\<forall>p. \<not> framebuffer_byte v p \<longrightarrow> mem' p = mem p)"
proof -
  obtain mem' where mem': "write_str rd s (v, mem)
      = ((set_cursor v (x + 8 * (length s - 1)) y fg bg, mem'), Inr ())"
    "screen.painted v mem mem' (\<lambda>px py. x \<le> px \<and> px < x + 8 * length s
        \<and> y - 12 \<le> py \<and> py < y + 4)
      (text_color (v_font v) fg bg s x (y - 12))"
    using write_str_text [OF assms, of rd mem] unfolding cell_rows [OF assms(5)] by blast
  then show ?thesis
    using painted_screen [OF mem'(2)] by (auto simp: text_color_def)
qed

lemma overlapping_rows:
  fixes a b d e p :: nat
  assumes "a \<le> b" "e = b + 8" "b + 8 \<le> d"
  shows "(a \<le> p \<and> p < d \<and> R) \<longleftrightarrow> (a \<le> p \<and> p < e \<and> R) \<or> (b \<le> p \<and> p < d \<and> R)"
  using assms by auto

text \<open>A text drawn from the last character of another on.\<close>

lemma text_over_last:
  assumes "s \<noteq> []" "t \<noteq> []"
    and first: "screen.painted v m0 m1 (\<lambda>px py. x \<le> px \<and> px < x + 8 * length s
        \<and> y - 12 \<le> py \<and> py < y + 4) (text_color f fg bg s x (y - 12))"
    and second: "screen.painted v m1 m2 (\<lambda>px py. x + 8 * (length s - 1) \<le> px
        \<and> px < x + 8 * (length s - 1) + 8 * length t \<and> y - 12 \<le> py \<and> py < y + 4)
        (text_color f fg bg t (x + 8 * (length s - 1)) (y - 12))"
  shows "screen.painted v m0 m2 (\<lambda>px py. x \<le> px \<and> px < x + 8 * length (butlast s @ t)
        \<and> y - 12 \<le> py \<and> py < y + 4) (text_color f fg bg (butlast s @ t) x (y - 12))"
proof (rule screen.painted_over [OF first second])
  fix px py
  let ?x = "x + 8 * (length s - 1)"
  have len: "x + 8 * length (butlast s @ t) = ?x + 8 * length t" by simp
  have ends: "x + 8 * length s = ?x + 8" "?x + 8 \<le> ?x + 8 * length t" "x \<le> ?x"
    using assms(1,2) by (cases s; cases t; simp)+
  show "(x \<le> px \<and> px < x + 8 * length (butlast s @ t) \<and> y - 12 \<le> py \<and> py < y + 4) \<longleftrightarrow>
      (x \<le> px \<and> px < x + 8 * length s \<and> y - 12 \<le> py \<and> py < y + 4)
      \<or> (?x \<le> px \<and> px < ?x + 8 * length t \<and> y - 12 \<le> py \<and> py < y + 4)"
    unfolding len by (rule overlapping_rows [OF ends(3,1,2)])
  show "text_color f fg bg (butlast s @ t) x (y - 12) px py = text_color f fg bg t ?x (y - 12) px py"
    if inside: "?x \<le> px \<and> px < ?x + 8 * length t \<and> y - 12 \<le> py \<and> py < y + 4"
  proof -
    obtain d where "px = ?x + d" using le_Suc_ex [OF conjunct1 [OF inside]] by blast
    then show ?thesis by (simp add: text_color_def nth_append)
  qed
  show "text_color f fg bg (butlast s @ t) x (y - 12) px py = text_color f fg bg s x (y - 12) px py"
    if "x \<le> px \<and> px < x + 8 * length s \<and> y - 12 \<le> py \<and> py < y + 4"
      "\<not> (?x \<le> px \<and> px < ?x + 8 * length t \<and> y - 12 \<le> py \<and> py < y + 4)"
  proof -
    have "(px - x) div 8 < length s - 1"
      using that ends by linarith
    then show ?thesis by (simp add: text_color_def nth_append nth_butlast)
  qed
qed

text \<open>
  Claim C37. Two writes in a row do not print their concatenation: the cursor is left on the last
  character of the first, so that the second begins by drawing over it. The screen shows the
  first text without its last character, followed by the second.
\<close>

theorem write_str_twice:
  assumes "font_ok (v_font v)" "\<forall>c\<in>set (s @ t). printable c" "s \<noteq> []" "t \<noteq> []"
    and "v_cursor v = \<lparr>cur_x = x, cur_y = y, cur_fg = fg, cur_bg = bg\<rparr>"
    and "cell_on_screen v x y (length s + length t)"
  shows "\<exists>v' mem'. sbind (write_str rd s (v, mem)) (\<lambda>vm _. write_str rd t vm) = ((v', mem'), Inr ())
    \<and> (\<forall>px py. on_screen v px py \<longrightarrow> pixel_at v mem' px py =
         (if x \<le> px \<and> px < x + 8 * length (butlast s @ t) \<and> y - 12 \<le> py \<and> py < y + 4
          then glyph_color (v_font v) fg bg ((butlast s @ t) ! ((px - x) div 8)) ((px - x) mod 8)
                 (py - (y - 12))
          else pixel_at v mem px py))"
proof -
  let ?x = "x + 8 * (length s - 1)"
  let ?v = "set_cursor v ?x y fg bg"
  have cells: "cell_on_screen v x y (length s)" "cell_on_screen ?v ?x y (length t)"
    using assms(3,6) by (cases s; auto simp: cell_on_screen_def)+
  obtain m1 where m1: "write_str rd s (v, mem) = ((?v, m1), Inr ())"
    "screen.painted v mem m1 (\<lambda>px py. x \<le> px \<and> px < x + 8 * length s
        \<and> y - 12 \<le> py \<and> py < y + 4) (text_color (v_font v) fg bg s x (y - 12))"
    using write_str_text [OF assms(1) _ assms(3,5) cells(1), of rd mem] assms(2)
    unfolding cell_rows [OF cells(1)] by auto
  obtain v2 m2 where m2: "write_str rd t (?v, m1) = ((v2, m2), Inr ())"
    "screen.painted v m1 m2 (\<lambda>px py. ?x \<le> px \<and> px < ?x + 8 * length t
        \<and> y - 12 \<le> py \<and> py < y + 4) (text_color (v_font v) fg bg t ?x (y - 12))"
    using write_str_text [of ?v t ?x y fg bg rd m1] assms(1,2,4) cells(2)
    unfolding cell_rows [OF cells(2)] by auto
  show ?thesis
    using painted_screen(1) [OF text_over_last [OF assms(3,4) m1(2) m2(2)]] m1(1) m2(1)
    by (simp add: text_color_def)
qed

section \<open>Log records on the screen\<close>

lemma write_str_loop_color:
  "write_str_loop rd (BLUE @ cs) x y fg bg n s = write_str_loop rd cs x y (color_value Blue) bg n s"
  "write_str_loop rd (GREEN @ cs) x y fg bg n s = write_str_loop rd cs x y (color_value Green) bg n s"
  "write_str_loop rd (ORANGE @ cs) x y fg bg n s = write_str_loop rd cs x y (color_value Orange) bg n s"
  "write_str_loop rd (PURPLE @ cs) x y fg bg n s = write_str_loop rd cs x y (color_value Purple) bg n s"
  "write_str_loop rd (RED @ cs) x y fg bg n s = write_str_loop rd cs x y (color_value Red) bg n s"
  "write_str_loop rd (YELLOW @ cs) x y fg bg n s = write_str_loop rd cs x y (color_value Yellow) bg n s"
  "write_str_loop rd (DEFAULT @ cs) x y fg bg n s = write_str_loop rd cs x y (color_value White) bg n s"
  by (simp_all add: write_str_loop.simps(2) code_consts ESC_def sequence_color_def Let_def)

definition level_name :: "level \<Rightarrow> rstr" where
  "level_name l =
     (case l of
        Debug \<Rightarrow> lit ''[DEBUG]'' | Error \<Rightarrow> lit ''[ERROR]'' | Fatal \<Rightarrow> lit ''[FATAL]''
      | Info \<Rightarrow> lit ''[INFO]'' | Trace \<Rightarrow> lit ''[TRACE]'' | Warn \<Rightarrow> lit ''[WARN]'')"

definition level_color :: "level \<Rightarrow> color" where
  "level_color l =
     (case l of Debug \<Rightarrow> Green | Error \<Rightarrow> Red | Fatal \<Rightarrow> Orange | Info \<Rightarrow> Blue
      | Trace \<Rightarrow> Purple | Warn \<Rightarrow> Yellow)"

lemma level_name_printable: "\<forall>c\<in>set (level_name l). printable c" "level_name l \<noteq> []"
  by (cases l; simp add: level_name_def printable_def)+

lemma level_label_eq:
  "write_str_loop rd (level_label l @ cs) x y fg bg n s
    = write_str_loop rd (level_name l @ DEFAULT @ cs) x y (color_value (level_color l)) bg n s"
  by (cases l) (simp_all add: level_label_def level_name_def level_color_def write_str_loop_color)

lemma geometry_set_cursor [simp]:
  "cell_on_screen (set_cursor v a b c d) = cell_on_screen v"
  "screen.painted (set_cursor v a b c d) = screen.painted v"
  by (simp_all add: fun_eq_iff cell_on_screen_def vga_fits_def set_cursor_def screen.painted_def
      on_screen_def pixel_at_def pixel_offset_def beyond_screen_def framebuffer_byte_def)

text \<open>A text in one colour, and then another in a second colour right behind it.\<close>

lemma two_texts:
  assumes "screen.painted v mem m1 (\<lambda>px py. x \<le> px \<and> px < x + 8 * length s \<and> y - 12 \<le> py \<and> py < y + 4)
      (text_color f c bg s x (y - 12))"
    and "screen.painted v m1 m2 (\<lambda>px py. x + 8 * length s \<le> px \<and> px < x + 8 * length (s @ t) \<and> y - 12 \<le> py \<and> py < y + 4)
      (text_color f w bg t (x + 8 * length s) (y - 12))"
    and on: "on_screen v px py"
  shows "pixel_at v m2 px py =
    (if x \<le> px \<and> px < x + 8 * length (s @ t) \<and> y - 12 \<le> py \<and> py < y + 4
     then glyph_color f (if (px - x) div 8 < length s then c else w) bg
            ((s @ t) ! ((px - x) div 8)) ((px - x) mod 8) (py - (y - 12))
     else pixel_at v mem px py)"
proof (cases "px < x + 8 * length s")
  case True
  then have "(px - x) div 8 < length s" if "x \<le> px" using that by (simp add: less_mult_imp_div_less)
  then show ?thesis
    using True painted_screen(1) [OF assms(1) on] painted_screen(1) [OF assms(2) on]
    by (auto simp: text_color_def nth_append)
next
  case False
  then have "length s \<le> (px - x) div 8" by (simp add: less_eq_div_iff_mult_less_eq)
  then show ?thesis
    using False painted_screen(1) [OF assms(1) on] painted_screen(1) [OF assms(2) on]
    by (auto simp: text_color_skip nth_append)
qed

lemma write_str_newline:
  assumes "font_ok (v_font v)" "y + 16 < 2 ^ 64"
  shows "write_str_loop rd [10] x y fg bg n (v, mem) = ((set_cursor v 8 (y + 16) fg bg, mem), Inr ())"
  using assms by (simp add: write_str_loop.simps usize_add_def Let_def)

text \<open>
  Claim C15. A log record that \<^verbatim>\<open>writeln!\<close> puts on the screen appears in one row as it is meant to: the
  name of its level in brackets and in the colour of the level, a space, and the message in white, each
  character in its own cell. Then the cursor is at the start of the next row, with white selected;
  nothing else on the screen or in memory changes.
\<close>

theorem write_log_record:
  assumes "font_ok (v_font v)" "\<forall>c\<in>set (log_message g). printable c"
    and "v_cursor v = \<lparr>cur_x = x, cur_y = y, cur_fg = fg, cur_bg = bg\<rparr>"
    and "cell_on_screen v x y (length (level_name (log_level g)) + 1 + length (log_message g))"
  shows "\<exists>mem'. write_fmt rd (fmt_log g @ [10]) (v, mem)
      = ((set_cursor v 8 (y + 16) (color_value White) bg, mem'), Inr ())
    \<and> (\<forall>px py. on_screen v px py \<longrightarrow> pixel_at v mem' px py =
         (let name = level_name (log_level g); shown = name @ 32 # log_message g; i = (px - x) div 8 in
          if x \<le> px \<and> px < x + 8 * length shown \<and> y - 12 \<le> py \<and> py < y + 4
          then glyph_color (v_font v)
                 (if i < length name then color_value (level_color (log_level g)) else color_value White) bg
                 (shown ! i) ((px - x) mod 8) (py - (y - 12))
          else pixel_at v mem px py))
    \<and> (\<forall>p. \<not> framebuffer_byte v p \<longrightarrow> mem' p = mem p)"
proof -
  let ?name = "level_name (log_level g)" and ?msg = "32 # log_message g"
  let ?c = "color_value (level_color (log_level g))" and ?w = "color_value White"
  let ?n = "length ?name"
  have cells: "cell_on_screen v (x + 8 * 0) y ?n" "cell_on_screen v (x + 8 * ?n) y (length ?msg)"
    using assms(4) by (auto simp: cell_on_screen_def)
  have msg: "\<forall>c\<in>set ?msg. printable c" using assms(2) by (simp add: printable_def)
  let ?v1 = "set_cursor v (x + 8 * (0 + ?n - 1)) y ?c bg"
  let ?v2 = "set_cursor v (x + 8 * (0 + ?n + length ?msg - 1)) y ?w bg"
  obtain m1 where m1: "write_str_loop rd (?name @ DEFAULT @ ?msg @ [10]) x y ?c bg 0 (v, mem)
      = write_str_loop rd (DEFAULT @ ?msg @ [10]) x y ?c bg (0 + ?n) (?v1, m1)"
    "screen.painted v mem m1 (\<lambda>px py. x + 8 * 0 \<le> px \<and> px < x + 8 * (0 + ?n) \<and> y - 12 \<le> py \<and> py < y + 4)
      (text_color (v_font v) ?c bg ?name (x + 8 * 0) (y - 12))"
    using write_str_loop_text [OF assms(1) level_name_printable cells(1)] unfolding cell_rows [OF cells(1)] by blast
  have "font_ok (v_font ?v1)" "cell_on_screen ?v1 (x + 8 * (0 + ?n)) y (length ?msg)"
    using assms(1) cells(2) by simp_all
  from write_str_loop_text [OF this(1) msg _ this(2), of rd "[10]" ?w bg m1]
  obtain m2 where m2: "write_str_loop rd (?msg @ [10]) x y ?w bg (0 + ?n) (?v1, m1)
      = write_str_loop rd [10] x y ?w bg (0 + ?n + length ?msg) (?v2, m2)"
    "screen.painted v m1 m2 (\<lambda>px py. x + 8 * ?n \<le> px \<and> px < x + 8 * (?n + length ?msg)
        \<and> y - 12 \<le> py \<and> py < y + 4)
      (text_color (v_font v) ?w bg ?msg (x + 8 * ?n) (y - 12))"
    unfolding cell_rows [OF cells(1)] by auto
  have "cell_on_screen v x y 1" using assms(4) by (simp add: cell_on_screen_def)
  then have "y + 16 < 2 ^ 64" by (rule cell_bounds)
  then have run: "write_fmt rd (fmt_log g @ [10]) (v, mem) = ((set_cursor v 8 (y + 16) ?w bg, m2), Inr ())"
    using m1(1) m2(1) assms(1,3) write_str_newline [of ?v2]
    by (simp add: write_str_def fmt_log_def level_label_eq write_str_loop_color)
  have "screen.painted v m1 m2 (\<lambda>px py. x + 8 * ?n \<le> px \<and> px < x + 8 * length (?name @ ?msg)
      \<and> y - 12 \<le> py \<and> py < y + 4) (text_color (v_font v) ?w bg ?msg (x + 8 * ?n) (y - 12))"
    using m2(2) by simp
  note pixels = two_texts [OF m1(2) [unfolded mult_0_right add_0_right add_0_left] this]
  show ?thesis
    using run pixels painted_screen(2) [OF m1(2)] painted_screen(2) [OF m2(2)] by (auto simp: Let_def)
qed

section \<open>The screen and its edges\<close>

lemma clear_painted:
  assumes "vga_fits v"
  shows "\<exists>mem'. clear v mem
      = ((set_cursor v 8 24 (color_value White) (color_value Black), mem'), Inr ())
    \<and> (\<forall>px py. on_screen v px py \<longrightarrow> pixel_at v mem' px py = color_value Black)
    \<and> (\<forall>p. \<not> framebuffer_byte v p \<longrightarrow> mem' p = mem p)"
proof -
  have "on_screen v (0 + i) (0 + j)" if "i < unat (v_width v)" "j < unat (v_height v)" for i j
    using assms that by (simp add: on_screen_def)
  from screen.rectangle_painted [OF this, where f = "\<lambda>_ _. color_value Black" and m = mem]
  obtain mem' where mem': "each (\<lambda>y. each (\<lambda>x. draw_pixel v x y (color_value Black))
        [0..<unat (v_width v)]) [0..<unat (v_height v)] mem = (mem', Inr ())"
    "screen.painted v mem mem' (\<lambda>x y. 0 \<le> x \<and> x < 0 + unat (v_width v)
        \<and> 0 \<le> y \<and> y < 0 + unat (v_height v)) (\<lambda>_ _. color_value Black)"
    by auto
  show ?thesis
    using painted_screen [OF mem'(2)] mem'(1) by (auto simp: clear_def on_screen_def)
qed

text \<open>
  Claim C38. Clearing paints every pixel of the screen black, touches no byte outside the
  framebuffer, and puts a white-on-black cursor at (8, 24), a position where a line of text
  starts.
\<close>

theorem clear_screen:
  assumes "vga_fits v"
  shows "\<exists>mem'. clear v mem
      = ((set_cursor v 8 24 (color_value White) (color_value Black), mem'), Inr ())
    \<and> (\<forall>px py. on_screen v px py \<longrightarrow> pixel_at v mem' px py = color_value Black)
    \<and> (\<forall>p. \<not> framebuffer_byte v p \<longrightarrow> mem' p = mem p)"
  using assms by (rule clear_painted)

lemma read_u32_inject: "(\<And>i. i < 4 \<Longrightarrow> mem' (a + word_of_nat i) = mem (a + word_of_nat i)) \<Longrightarrow>
    read_bytes mem' a 4 = read_bytes mem a 4"
  by (simp add: read_bytes_def)

text \<open>
  \<^verbatim>\<open>draw_pixel\<close> does not check its coordinates, and the console does not scroll: a pixel in a
  row at or below the height of the screen is drawn without a panic, into memory that is not
  the framebuffer.
\<close>

theorem draw_pixel_below_screen:
  assumes "vga_fits v" "unat (v_height v) \<le> y"
    and "unat (v_address v) + pixel_offset v x y + 4 \<le> 2 ^ 64" "pixel_at v mem x y \<noteq> c"
  shows "\<exists>mem' p. draw_pixel v x y c mem = (mem', Inr ()) \<and> pixel_at v mem' x y = c
    \<and> \<not> framebuffer_byte v p \<and> mem' p \<noteq> mem p"
proof -
  let ?a = "v_address v + word_of_nat (pixel_offset v x y)"
  let ?mem' = "write_u32 mem ?a c"
  have drawn: "draw_pixel v x y c mem = (?mem', Inr ())"
    by (rule draw_pixel_eq) (use assms(3) in simp)
  have pixel: "pixel_at v ?mem' x y = c" by (simp add: pixel_at_def read_write_u32)
  have "\<exists>i<4. ?mem' (?a + word_of_nat i) \<noteq> mem (?a + word_of_nat i)"
  proof (rule ccontr)
    assume "\<not> ?thesis"
    then have "read_bytes ?mem' ?a 4 = read_bytes mem ?a 4" by (intro read_u32_inject) blast
    with pixel assms(4) show False by (simp add: pixel_at_def)
  qed
  then obtain i where i: "i < 4" "?mem' (?a + word_of_nat i) \<noteq> mem (?a + word_of_nat i)" by blast
  have "unat ?a = unat (v_address v) + pixel_offset v x y"
    using assms(3) by (simp add: unat_word_ariths unat_of_nat)
  then have "unat (?a + word_of_nat i) = unat (v_address v) + pixel_offset v x y + i"
    using assms(3) i(1) by (simp add: unat_word_ariths unat_of_nat)
  moreover have "unat (v_height v) * unat (v_pitch v) \<le> pixel_offset v x y"
    using mult_le_mono1 [OF assms(2)] by (simp add: pixel_offset_def trans_le_add1)
  ultimately have "\<not> framebuffer_byte v (?a + word_of_nat i)" by (simp add: framebuffer_byte_def)
  with drawn pixel i(2) show ?thesis by blast
qed

text \<open>
  A character that is neither Latin-1 nor U+0100 has no glyph in the font's 256, and
  \<^verbatim>\<open>write_char\<close> slices past the end of the font's data: text with such a character panics when
  the writer reaches it, with the text before it already drawn.
\<close>

theorem write_str_no_glyph_panics:
  assumes "font_ok (v_font v)" "\<forall>c\<in>set s. printable c" "s \<noteq> []" "256 < c" "c \<le> 0x10FFFF"
    and "v_cursor v = \<lparr>cur_x = x, cur_y = y, cur_fg = fg, cur_bg = bg\<rparr>"
    and "cell_on_screen v x y (Suc (length s))"
  shows "\<exists>mem'. write_str rd (s @ c # t) (v, mem)
      = ((set_cursor v (x + 8 * length s) y fg bg, mem'), Inl SliceOutOfBounds)
    \<and> (\<forall>px py. on_screen v px py \<longrightarrow> pixel_at v mem' px py =
         (if x \<le> px \<and> px < x + 8 * length s \<and> y - 12 \<le> py \<and> py < y + 4
          then glyph_color (v_font v) fg bg (s ! ((px - x) div 8)) ((px - x) mod 8) (py - (y - 12))
          else pixel_at v mem px py))"
proof -
  have cells: "cell_on_screen v (x + 8 * 0) y (length s)"
    using assms(7) by (simp add: cell_on_screen_def)
  have rows: "y - 12 + 16 = y + 4" by (rule cell_rows [OF cells])
  let ?v = "set_cursor v (x + 8 * (0 + length s - 1)) y fg bg"
  obtain m1 where m1: "write_str_loop rd (s @ c # t) x y fg bg 0 (v, mem)
      = write_str_loop rd (c # t) x y fg bg (0 + length s) (?v, m1)"
    "screen.painted v mem m1 (\<lambda>px py. x + 8 * 0 \<le> px \<and> px < x + 8 * (0 + length s)
        \<and> y - 12 \<le> py \<and> py < y + 4)
      (text_color (v_font v) fg bg s (x + 8 * 0) (y - 12))"
    using write_str_loop_text [OF assms(1,2,3) cells, of rd "c # t" fg bg mem]
    unfolding rows by blast
  have "x + 8 * length s < 2 ^ 64"
    using assms(7) unat_bounds(4) [of "v_width v"] by (simp add: cell_on_screen_def)
  then have "write_str_loop rd (c # t) x y fg bg (length s) (?v, m1)
      = ((set_cursor v (x + 8 * length s) y fg bg, m1), Inl SliceOutOfBounds)"
    using assms(1,4,5)
    by (simp add: write_str_loop.simps(2) usize_mul_def usize_add_def Let_def write_char_def
        slice_from_def)
  then have "write_str rd (s @ c # t) (v, mem)
      = ((set_cursor v (x + 8 * length s) y fg bg, m1), Inl SliceOutOfBounds)"
    using m1(1) assms(6) by (simp add: write_str_def)
  then show ?thesis using painted_screen(1) [OF m1(2)] by (auto simp: text_color_def)
qed

section \<open>A concrete screen\<close>

definition blank_font :: font where
  "blank_font = \<lparr>font_hdr = \<lparr>fh_magic = 0x0436, fh_font_mode = 2, fh_glyph_size = 16\<rparr>,
     font_data = replicate 4096 0x18\<rparr>"

definition small_screen :: vga where
  "small_screen = \<lparr>v_address = 0x1000, v_cursor = \<lparr>cur_x = 8, cur_y = 24, cur_fg = color_value White,
     cur_bg = color_value Black\<rparr>, v_font = blank_font, v_height = 64, v_pitch = 1280, v_width = 320\<rparr>"

lemma small_screen_ok [simp]:
  "font_ok (v_font small_screen)" "vga_fits small_screen"
  "v_cursor small_screen
     = \<lparr>cur_x = 8, cur_y = 24, cur_fg = color_value White, cur_bg = color_value Black\<rparr>"
  "cell_on_screen small_screen 8 24 n \<longleftrightarrow> n \<le> 39"
  by (simp_all add: small_screen_def blank_font_def font_ok_def vga_fits_def cell_on_screen_def)

definition no_files :: initrd where
  "no_files = ramdisk_with []"

abbreviation (input) white_on_black :: "usize \<Rightarrow> vga" where
  "white_on_black x \<equiv> set_cursor small_screen x 24 (color_value White) (color_value Black)"

lemma write_str_plain_witness:
  "\<exists>mem'. write_str no_files (lit ''Hello'') (small_screen, \<lambda>_. 0)
      = ((white_on_black 40, mem'), Inr ())"
  using write_str_plain [of small_screen "lit ''Hello''" 8 24 "color_value White" "color_value Black"
      no_files "\<lambda>_. 0"]
  by (auto simp: printable_def)

lemma write_str_twice_witness:
  "\<exists>vm'. sbind (write_str no_files (lit ''ab'') (small_screen, \<lambda>_. 0))
      (\<lambda>vm _. write_str no_files (lit ''cd'') vm) = (vm', Inr ())"
  using write_str_twice [of small_screen "lit ''ab''" "lit ''cd''" 8 24 "color_value White"
      "color_value Black" no_files "\<lambda>_. 0"]
  by (auto simp: printable_def)

definition sample_record :: log where
  "sample_record = \<lparr>log_level = Warn, log_message = lit ''low''\<rparr>"

lemma write_log_record_witness:
  "\<exists>vm'. write_fmt no_files (fmt_log sample_record @ [10]) (small_screen, \<lambda>_. 0) = (vm', Inr ())"
  using write_log_record [of small_screen sample_record 8 24 "color_value White" "color_value Black"
      no_files "\<lambda>_. 0"]
  by (auto simp: sample_record_def printable_def level_name_def)

lemma clear_screen_witness:
  "\<exists>mem'. clear small_screen (\<lambda>_. 7) = ((white_on_black 8, mem'), Inr ())
    \<and> pixel_at small_screen mem' 319 63 = 0"
  using clear_screen [of small_screen "\<lambda>_. 7"]
  by (auto simp: on_screen_def color_value_def) (simp add: small_screen_def)

lemma draw_pixel_below_screen_witness:
  "\<exists>mem' p. draw_pixel small_screen 0 64 1 (\<lambda>_. 0) = (mem', Inr ())
    \<and> \<not> framebuffer_byte small_screen p \<and> mem' p \<noteq> 0"
proof -
  have "pixel_at small_screen (\<lambda>_. 0) 0 64 \<noteq> 1"
    by (simp add: pixel_at_def read_bytes_def from_le_bytes_def map_replicate_const
        numeral_eq_Suc)
  with draw_pixel_below_screen [of small_screen 64 0 "\<lambda>_. 0" 1] show ?thesis
    by (auto simp: small_screen_def pixel_offset_def vga_fits_def)
qed

lemma write_str_no_glyph_panics_witness:
  "\<exists>vm'. write_str no_files (lit ''a'' @ 0x2014 # lit ''b'') (small_screen, \<lambda>_. 0)
      = (vm', Inl SliceOutOfBounds)"
  using write_str_no_glyph_panics [where v = small_screen and s = "lit ''a''" and c = 8212
      and x = 8 and y = 24 and rd = no_files and t = "lit ''b''" and mem = "\<lambda>_. 0"]
  by (auto simp: printable_def)

end
