(* ===== verification/Image.thy ===== *)
theory Image
  imports Vga
begin

text \<open>
  The PNM image reader, \<^verbatim>\<open>kernel/src/image.rs\<close>: PBM, PGM and PPM files in their raw formats, told
  apart by the extension of the path, decoded into a vector of rows of pixels and drawn on the
  framebuffer.
\<close>

section \<open>State\<close>

record image_header =
  im_width :: usize
  im_height :: usize
  im_x :: usize
  im_y :: usize

record rgb =
  red :: u8
  green :: u8
  blue :: u8

record image =
  img_hdr :: image_header
  img_data :: "rgb list list"

definition get_red :: "rgb \<Rightarrow> u8" where "get_red p = red p"
definition get_green :: "rgb \<Rightarrow> u8" where "get_green p = green p"
definition get_blue :: "rgb \<Rightarrow> u8" where "get_blue p = blue p"

section \<open>Decoding\<close>

text \<open>The positions of the newlines, as the lazy iterator yields them.\<close>

definition newline_positions :: "u8 list \<Rightarrow> usize list" where
  "newline_positions bytes = map fst (filter (\<lambda>(i, x). x = 10) (enumerate 0 bytes))"

definition parse_usize :: "rstr \<Rightarrow> usize result" where
  "parse_usize s = unwrap_result (from_str_radix (2 ^ 64) 10 s)"

definition header_end :: "rstr \<Rightarrow> u8 list \<Rightarrow> usize result" where
  "header_end extension bytes =
     (if extension = lit ''pbm'' then unwrap_option (fst (iter_nth (newline_positions bytes) 1))
      else if extension = lit ''pgm'' \<or> extension = lit ''ppm''
        then unwrap_option (fst (iter_nth (newline_positions bytes) 2))
      else Inl ExplicitPanic)"

definition image_masks :: "u8 list" where
  "image_masks = [128, 64, 32, 16, 8, 4, 2, 1]"

text \<open>The \<^verbatim>\<open>match\<close> in the inner loop: the pixel at column \<open>x\<close> of row \<open>y\<close>.\<close>

definition decode_pixel :: "rstr \<Rightarrow> u8 list \<Rightarrow> usize \<Rightarrow> usize \<Rightarrow> usize \<Rightarrow> rgb result" where
  "decode_pixel extension pixels width x y =
     (if extension = lit ''pbm'' then
        rbind (usize_mul y (width div 8)) (\<lambda>row.
        rbind (usize_add row (x div 8)) (\<lambda>i.
        rbind (index pixels i) (\<lambda>pixel.
        rbind (index image_masks (x mod 8)) (\<lambda>mask.
        let value = (if pixel AND mask = 0 then 0xFF else 0x00)
        in Inr \<lparr>red = value, green = value, blue = value\<rparr>))))
      else if extension = lit ''pgm'' then
        rbind (usize_mul y width) (\<lambda>row.
        rbind (usize_add row x) (\<lambda>i.
        rbind (index pixels i) (\<lambda>value.
        Inr \<lparr>red = value, green = value, blue = value\<rparr>)))
      else if extension = lit ''ppm'' then
        rbind (rbind (usize_mul y width) (\<lambda>n. usize_mul n 3)) (\<lambda>row.
        rbind (usize_mul 3 x) (\<lambda>column.
        rbind (rbind (usize_add row column) (index pixels)) (\<lambda>r.
        rbind (rbind (usize_add column 1) (\<lambda>c. rbind (usize_add row c) (index pixels))) (\<lambda>g.
        rbind (rbind (usize_add column 2) (\<lambda>c. rbind (usize_add row c) (index pixels))) (\<lambda>b.
        Inr \<lparr>red = r, green = g, blue = b\<rparr>)))))
      else Inl ExplicitPanic)"

definition store_pixel :: "usize \<Rightarrow> usize \<Rightarrow> rgb \<Rightarrow> rgb list list \<Rightarrow> rgb list list result" where
  "store_pixel x y p data =
     rbind (index data y) (\<lambda>row.
     rbind (index row x) (\<lambda>_.
     Inr (data[y := row[x := p]])))"

text \<open>The two loops over the pixels.\<close>

definition decode_pixels ::
    "rstr \<Rightarrow> u8 list \<Rightarrow> usize \<Rightarrow> usize \<Rightarrow> rgb list list \<Rightarrow> rgb list list \<times> unit result" where
  "decode_pixels extension pixels width height data =
     each (\<lambda>y. each (\<lambda>x data.
         sbind (data, rbind (decode_pixel extension pixels width x y) (\<lambda>p. store_pixel x y p data))
           (\<lambda>_ data. (data, Inr ())))
       [0..<width]) [0..<height] data"

definition parse_image :: "rstr \<Rightarrow> u8 list \<Rightarrow> image result" where
  "parse_image path bytes =
     rbind (unwrap_option (let parts = split_terminator 46 path
                           in if parts = [] then None else Some (last parts))) (\<lambda>extension.
     rbind (header_end extension bytes) (\<lambda>index.
     rbind (slice_to bytes index) (\<lambda>header_bytes.
     rbind (unwrap_result (from_utf8 header_bytes)) (\<lambda>header_text.
     let fields = split_whitespace header_text; (field, fields) = iter_nth fields 1 in
     rbind (rbind (unwrap_option field) parse_usize) (\<lambda>width.
     let (field, fields) = iter_nth fields 0 in
     rbind (rbind (unwrap_option field) parse_usize) (\<lambda>height.
     let header = \<lparr>im_width = width, im_height = height, im_x = 0, im_y = 0\<rparr>;
         data = replicate height (replicate width \<lparr>red = 0, green = 0, blue = 0\<rparr>) in
     rbind (rbind (usize_add index 1) (slice_from bytes)) (\<lambda>pixels.
     case decode_pixels extension pixels width height data of
       (data, Inl p) \<Rightarrow> Inl p
     | (data, Inr _) \<Rightarrow> Inr \<lparr>img_hdr = header, img_data = data\<rparr>)))))))"

definition image_new :: "initrd \<Rightarrow> rstr \<Rightarrow> image result" where
  "image_new rd path = rbind (get_data rd path) (parse_image path)"

definition image_get_width :: "image \<Rightarrow> usize" where
  "image_get_width im = im_width (img_hdr im)"

definition set_position :: "image \<Rightarrow> usize \<Rightarrow> usize \<Rightarrow> image" where
  "set_position im x y = im\<lparr>img_hdr := (img_hdr im)\<lparr>im_x := x, im_y := y\<rparr>\<rparr>"

section \<open>Drawing\<close>

definition rgb_color :: "rgb \<Rightarrow> u32" where
  "rgb_color p =
     (let red = ucast (get_red p); green = ucast (get_green p); blue = ucast (get_blue p)
      in push_bit 16 red OR push_bit 8 green OR blue)"

definition image_draw :: "image \<Rightarrow> vga \<Rightarrow> memory \<Rightarrow> memory \<times> unit result" where
  "image_draw im v mem =
     (let data = img_data im; height = im_height (img_hdr im); width = im_width (img_hdr im);
          x = im_x (img_hdr im); y = im_y (img_hdr im)
      in each (\<lambda>(iy, row).
           each (\<lambda>(ix, column) mem.
               let color = rgb_color column in
               sbind (mem, usize_add x ix) (\<lambda>mem px.
               sbind (mem, usize_add y iy) (\<lambda>mem py.
               draw_pixel v px py color mem)))
             (take width (enumerate 0 row)))
           (take height (enumerate 0 data)) mem)"

section \<open>What the loops compute\<close>

text \<open>The image as a whole, one pixel at a time and without the vector being filled.\<close>

fun collect :: "('a \<Rightarrow> 'b result) \<Rightarrow> 'a list \<Rightarrow> 'b list result" where
  "collect f [] = Inr []"
| "collect f (x # xs) = rbind (f x) (\<lambda>y. rbind (collect f xs) (\<lambda>ys. Inr (y # ys)))"

lemma collect_append:
  "collect f (xs @ ys) = rbind (collect f xs) (\<lambda>as. rbind (collect f ys) (\<lambda>bs. Inr (as @ bs)))"
  by (induction xs) (simp_all add: rbind_assoc rbind_Inr_right)

lemma collect_map: "(\<And>x. x \<in> set xs \<Longrightarrow> f x = Inr (g x)) \<Longrightarrow> collect f xs = Inr (map g xs)"
  by (induction xs) simp_all

lemma length_collect: "collect f xs = Inr ys \<Longrightarrow> length ys = length xs"
  by (induction xs arbitrary: ys) auto

text \<open>One row, and then the rows, as the loops fill them in.\<close>

definition fill_pixel :: "(usize \<Rightarrow> rgb result) \<Rightarrow> usize \<Rightarrow> usize \<Rightarrow> rgb list list \<Rightarrow> rgb list list \<times> unit result" where
  "fill_pixel f y x data =
     sbind (data, rbind (f x) (\<lambda>p. store_pixel x y p data)) (\<lambda>_ data. (data, Inr ()))"

lemma decode_pixels_fill:
  "decode_pixels extension pixels width height =
     each (\<lambda>y. each (fill_pixel (\<lambda>x. decode_pixel extension pixels width x y) y) [0..<width]) [0..<height]"
  by (rule ext) (simp add: decode_pixels_def fill_pixel_def [abs_def])

lemma fill_row:
  assumes "y < length data" "length (data ! y) = width" "n \<le> width" "collect f [0..<n] = Inr ps"
  shows "each (fill_pixel f y) [0..<n] data = (data[y := ps @ drop n (data ! y)], Inr ())"
  using assms(3,4)
proof (induction n arbitrary: ps)
  case 0
  then show ?case by simp
next
  case (Suc n)
  then obtain qs q where q: "collect f [0..<n] = Inr qs" "f n = Inr q" "ps = qs @ [q]"
    by (auto simp: collect_append)
  have "length qs = n" using length_collect [OF q(1)] by simp
  moreover have "drop n (data ! y) = data ! y ! n # drop (Suc n) (data ! y)"
    using assms(2) Suc.prems(1) by (simp add: Cons_nth_drop_Suc)
  ultimately show ?case
    using Suc.IH [OF _ q(1)] Suc.prems(1) assms(1,2) q(2,3)
    by (simp add: each_append fill_pixel_def store_pixel_def index_def nth_append list_update_append)
qed

lemma fill_row_panics:
  assumes "y < length data" "length (data ! y) = width" "n \<le> width" "collect f [0..<n] = Inl p"
  shows "snd (each (fill_pixel f y) [0..<n] data) = Inl p"
  using assms(3,4)
proof (induction n)
  case 0
  then show ?case by simp
next
  case (Suc n)
  show ?case
  proof (cases "collect f [0..<n]")
    case (Inl p')
    then have "p' = p" using Suc.prems(2) by (simp add: collect_append)
    then have "snd (each (fill_pixel f y) [0..<n] data) = Inl p" using Suc Inl by simp
    then show ?thesis
      by (cases "each (fill_pixel f y) [0..<n] data") (simp add: each_append)
  next
    case (Inr qs)
    then have "f n = Inl p"
      using Suc.prems(2) by (cases "f n") (simp_all add: collect_append)
    then have "fill_pixel f y n d = (d, Inl p)" for d by (simp add: fill_pixel_def)
    then show ?thesis
      using fill_row [OF assms(1,2) _ Inr] Suc.prems(1) by (simp add: each_append)
  qed
qed

definition image_rows :: "rstr \<Rightarrow> u8 list \<Rightarrow> usize \<Rightarrow> usize \<Rightarrow> rgb list list result" where
  "image_rows extension pixels width height =
     collect (\<lambda>y. collect (\<lambda>x. decode_pixel extension pixels width x y) [0..<width]) [0..<height]"

lemma decode_pixels_rows:
  assumes "length data = h" "\<And>row. row \<in> set data \<Longrightarrow> length row = w" "n \<le> h"
  shows "collect (\<lambda>y. collect (\<lambda>x. decode_pixel e ps w x y) [0..<w]) [0..<n] = Inr rows
      \<Longrightarrow> each (\<lambda>y. each (fill_pixel (\<lambda>x. decode_pixel e ps w x y) y) [0..<w]) [0..<n] data
        = (rows @ drop n data, Inr ())"
    and "collect (\<lambda>y. collect (\<lambda>x. decode_pixel e ps w x y) [0..<w]) [0..<n] = Inl p
      \<Longrightarrow> snd (each (\<lambda>y. each (fill_pixel (\<lambda>x. decode_pixel e ps w x y) y) [0..<w]) [0..<n] data)
        = Inl p"
  using assms(3)
proof (induction n arbitrary: rows)
  case 0
  {
    case 1
    then show ?case by simp
  next
    case 2
    then show ?case by simp
  }
next
  case (Suc n)
  let ?row = "\<lambda>y. collect (\<lambda>x. decode_pixel e ps w x y) [0..<w]"
  let ?fill = "\<lambda>y. each (fill_pixel (\<lambda>x. decode_pixel e ps w x y) y) [0..<w]"
  have next_row: "n < length (qs @ drop n data)" "length ((qs @ drop n data) ! n) = w"
    if "collect ?row [0..<n] = Inr qs" "Suc n \<le> h" for qs
    using length_collect [OF that(1)] that(2) assms(1,2) by (simp_all add: nth_append)
  {
    case 1
    then obtain qs q where q: "collect ?row [0..<n] = Inr qs" "?row n = Inr q" "rows = qs @ [q]"
      by (auto simp: collect_append)
    have "?fill n (qs @ drop n data) = ((qs @ drop n data)[n := q @ drop w ((qs @ drop n data) ! n)], Inr ())"
      by (rule fill_row [OF next_row [OF q(1)] order_refl q(2)]) (use 1 in simp_all)
    moreover have "drop w ((qs @ drop n data) ! n) = []" using next_row(2) [OF q(1)] 1 by simp
    moreover have "length qs = n" using length_collect [OF q(1)] by simp
    moreover have "drop n data = data ! n # drop (Suc n) data"
      using assms(1) 1 by (simp add: Cons_nth_drop_Suc)
    ultimately show ?case
      using Suc.IH(1) [OF q(1)] 1 q(3) assms(1,2) by (simp add: each_append list_update_append)
  next
    case 2
    show ?case
    proof (cases "collect ?row [0..<n]")
      case (Inl p')
      then have "p' = p" using 2 by (simp add: collect_append)
      then have "snd (each ?fill [0..<n] data) = Inl p" using Suc.IH(2) Inl 2 by simp
      then show ?thesis by (cases "each ?fill [0..<n] data") (simp add: each_append)
    next
      case (Inr qs)
      then have "?row n = Inl p" using 2 by (cases "?row n") (simp_all add: collect_append)
      moreover have "Suc n \<le> h" using 2 by simp
      ultimately have "snd (?fill n (qs @ drop n data)) = Inl p"
        using fill_row_panics [OF next_row [OF Inr] order_refl] by simp
      then show ?thesis
        using Suc.IH(1) [OF Inr] 2
        by (cases "?fill n (qs @ drop n data)") (simp add: each_append)
    qed
  }
qed

lemma decode_pixels_image_rows:
  "image_rows e ps w h = Inr rows \<Longrightarrow>
     decode_pixels e ps w h (replicate h (replicate w blank)) = (rows, Inr ())"
  "image_rows e ps w h = Inl p \<Longrightarrow>
     snd (decode_pixels e ps w h (replicate h (replicate w blank))) = Inl p"
  using decode_pixels_rows [of "replicate h (replicate w blank)" h w h e ps]
  by (simp_all add: image_rows_def decode_pixels_fill)

section \<open>The file formats\<close>

text \<open>
  The raw Netpbm formats as the tools that write them lay them out: a magic number, width and
  height in decimal, for PGM and PPM the maximal value 255, and then the rows. A PBM row is padded
  to whole bytes, and a set bit is black.
\<close>

definition netpbm_magic :: "rstr \<Rightarrow> rstr" where
  "netpbm_magic e = (if e = lit ''pbm'' then lit ''P4'' else if e = lit ''pgm'' then lit ''P5'' else lit ''P6'')"

definition netpbm_size :: "usize \<Rightarrow> usize \<Rightarrow> rstr" where
  "netpbm_size w h = fmt_dec w @ 32 # fmt_dec h"

text \<open>The header text that the reader takes, without the newline that ends it.\<close>

definition netpbm_header :: "rstr \<Rightarrow> usize \<Rightarrow> usize \<Rightarrow> rstr" where
  "netpbm_header e w h =
     netpbm_magic e @ 10 # netpbm_size w h @ (if e = lit ''pbm'' then [] else 10 # lit ''255'')"

definition pack_byte :: "rgb list \<Rightarrow> u8" where
  "pack_byte ps = horner_sum of_bool 2 (rev (take 8 (map (\<lambda>p. red p = 0) ps @ replicate 8 False)))"

definition row_bytes :: "rstr \<Rightarrow> rgb list \<Rightarrow> u8 list" where
  "row_bytes e row =
     (if e = lit ''pbm'' then map (\<lambda>k. pack_byte (drop (8 * k) row)) [0..<(length row + 7) div 8]
      else if e = lit ''pgm'' then map red row
      else concat (map (\<lambda>p. [red p, green p, blue p]) row))"

definition encode_image :: "rstr \<Rightarrow> usize \<Rightarrow> usize \<Rightarrow> rgb list list \<Rightarrow> u8 list" where
  "encode_image e w h rows =
     utf8_bytes (netpbm_header e w h) @ 10 # concat (map (row_bytes e) rows)"

text \<open>The pixels a format can hold.\<close>

definition pixel_fits :: "rstr \<Rightarrow> rgb \<Rightarrow> bool" where
  "pixel_fits e p \<longleftrightarrow>
     (e = lit ''pbm'' \<longrightarrow> p = \<lparr>red = 0, green = 0, blue = 0\<rparr> \<or> p = \<lparr>red = 0xFF, green = 0xFF, blue = 0xFF\<rparr>)
     \<and> (e = lit ''pgm'' \<longrightarrow> green p = red p \<and> blue p = red p)"

definition image_extension :: "rstr \<Rightarrow> bool" where
  "image_extension e \<longleftrightarrow> e = lit ''pbm'' \<or> e = lit ''pgm'' \<or> e = lit ''ppm''"

lemma newline_positions_first:
  assumes "10 \<notin> set a"
  shows "newline_positions (a @ 10 # b)
    = length a # map (\<lambda>i. Suc (length a) + i) (newline_positions b)"
proof -
  have skip: "filter (\<lambda>(i, x). x = 10) (enumerate n a) = []" for n
    using assms by (induction a arbitrary: n) auto
  have shift: "map fst (filter (\<lambda>(i, x). x = (10 :: u8)) (enumerate (n + k) b))
      = map (\<lambda>i. n + i) (map fst (filter (\<lambda>(i, x). x = 10) (enumerate k b)))" for n k
    by (induction b arbitrary: k) (auto simp: add_Suc_right [symmetric] simp del: add_Suc_right)
  show ?thesis
    using skip shift [of "Suc (length a)" 0] by (simp add: newline_positions_def enumerate_append_eq)
qed

lemma digits_no_newline: "10 \<notin> set (fmt_dec n)" "\<forall>c\<in>set (fmt_dec n). c < 128"
  by (auto dest: fmt_dec_ascii)

lemma netpbm_header_ascii: "\<forall>c\<in>set (netpbm_header e w h). c < 128"
  using digits_no_newline(2) by (auto simp: netpbm_header_def netpbm_magic_def netpbm_size_def)

lemma byte_newline: "c < 128 \<Longrightarrow> (word_of_nat c :: u8) = 10 \<longleftrightarrow> c = 10"
proof
  assume "c < 128" "(word_of_nat c :: u8) = 10"
  from arg_cong [OF this(2), of unat] this(1) show "c = 10" by (simp add: unat_of_nat)
qed simp

lemma no_newline_bytes:
  "\<forall>c\<in>set s. c < 128 \<and> c \<noteq> 10 \<Longrightarrow> (10 :: u8) \<notin> set (map word_of_nat s)"
  using byte_newline by auto

lemma second_newline:
  "10 \<notin> set a \<Longrightarrow> 10 \<notin> set b \<Longrightarrow>
     fst (iter_nth (newline_positions (a @ 10 # b @ 10 # c)) 1) = Some (length (a @ 10 # b))"
  by (simp add: newline_positions_first iter_nth_def)

lemma third_newline:
  "10 \<notin> set a \<Longrightarrow> 10 \<notin> set b \<Longrightarrow> 10 \<notin> set c \<Longrightarrow>
     fst (iter_nth (newline_positions (a @ 10 # b @ 10 # c @ 10 # d)) 2)
       = Some (length (a @ 10 # b @ 10 # c))"
  by (simp add: newline_positions_first iter_nth_def)

lemma header_end_netpbm:
  assumes "image_extension e"
  shows "header_end e (utf8_bytes (netpbm_header e w h) @ 10 # body)
    = Inr (length (netpbm_header e w h))"
proof -
  let ?m = "map word_of_nat (netpbm_magic e) :: u8 list"
  let ?s = "map word_of_nat (netpbm_size w h) :: u8 list"
  let ?v = "map word_of_nat (lit ''255'') :: u8 list"
  have "\<forall>c\<in>set (netpbm_size w h). c < 128 \<and> c \<noteq> 10"
    using digits_no_newline by (auto simp: netpbm_size_def)
  moreover have "\<forall>c\<in>set (netpbm_magic e). c < 128 \<and> c \<noteq> 10" by (simp add: netpbm_magic_def)
  moreover have "\<forall>c\<in>set (lit ''255''). c < 128 \<and> c \<noteq> 10" by simp
  ultimately have no: "10 \<notin> set ?m" "10 \<notin> set ?s" "10 \<notin> set ?v"
    by (blast dest: no_newline_bytes)+
  note ascii = utf8_bytes_ascii [OF netpbm_header_ascii, of e w h]
  show ?thesis
  proof (cases "e = lit ''pbm''")
    case True
    then have "utf8_bytes (netpbm_header e w h) @ 10 # body = ?m @ 10 # ?s @ 10 # body"
      using ascii by (simp add: netpbm_header_def)
    then show ?thesis
      using second_newline [OF no(1,2), of body] True
      by (simp add: header_end_def netpbm_header_def)
  next
    case False
    then have "utf8_bytes (netpbm_header e w h) @ 10 # body = ?m @ 10 # ?s @ 10 # ?v @ 10 # body"
      using ascii by (simp add: netpbm_header_def)
    moreover have "header_end e bytes = unwrap_option (fst (iter_nth (newline_positions bytes) 2))" for bytes
      using assms False unfolding header_end_def image_extension_def by (simp only: if_False) auto
    ultimately show ?thesis
      using third_newline [OF no, of body] False by (simp add: netpbm_header_def)
  qed
qed

lemma netpbm_fields:
  assumes "image_extension e" "w < 2 ^ 64" "h < 2 ^ 64"
  shows "\<exists>rest. split_whitespace (netpbm_header e w h) = netpbm_magic e # fmt_dec w # fmt_dec h # rest"
proof -
  have magic: "\<forall>c\<in>set (netpbm_magic e). \<not> is_whitespace c" "netpbm_magic e \<noteq> []"
    by (simp_all add: netpbm_magic_def is_whitespace_def)
  have ws: "is_whitespace 10" "is_whitespace 32" by (simp_all add: is_whitespace_def)
  show ?thesis
    using magic fmt_dec_no_whitespace ws
    by (simp add: netpbm_header_def netpbm_size_def split_whitespace_first split_whitespace_word)
qed

lemma image_of_rows:
  "(case decode_pixels e ps w h (replicate h (replicate w blank)) of
      (data, Inl p) \<Rightarrow> Inl p
    | (data, Inr _) \<Rightarrow> Inr \<lparr>img_hdr = hdr, img_data = data\<rparr>)
   = rbind (image_rows e ps w h) (\<lambda>rows. Inr \<lparr>img_hdr = hdr, img_data = rows\<rparr>)"
  using decode_pixels_image_rows(1) [of e ps w h _ blank] decode_pixels_image_rows(2) [of e ps w h _ blank]
  by (cases "image_rows e ps w h") (auto split: prod.splits sum.splits)

lemma parse_image_netpbm:
  assumes e: "image_extension e" and wh: "w < 2 ^ 64" "h < 2 ^ 64"
    and len: "length (netpbm_header e w h) + 1 < 2 ^ 64"
  shows "parse_image (stem @ 46 # e) (utf8_bytes (netpbm_header e w h) @ 10 # pixels)
    = rbind (image_rows e pixels w h) (\<lambda>rows.
      Inr \<lparr>img_hdr = \<lparr>im_width = w, im_height = h, im_x = 0, im_y = 0\<rparr>, img_data = rows\<rparr>)"
proof -
  let ?H = "netpbm_header e w h"
  have "46 \<notin> set e" "e \<noteq> []" using e by (auto simp: image_extension_def)
  then have ext: "split_terminator 46 (stem @ 46 # e) \<noteq> []" "last (split_terminator 46 (stem @ 46 # e)) = e"
    using split_terminator_last by blast+
  have lenH: "length (utf8_bytes ?H) = length ?H"
    by (rule length_utf8_bytes_ascii [OF netpbm_header_ascii])
  have "\<forall>c\<in>set ?H. scalar_value c" using netpbm_header_ascii by auto
  then have decoded: "from_utf8 (utf8_bytes ?H) = Some ?H" by (rule from_utf8_bytes)
  obtain rest where fields: "split_whitespace ?H = netpbm_magic e # fmt_dec w # fmt_dec h # rest"
    using netpbm_fields [OF e wh] by blast
  have numbers: "parse_usize (fmt_dec w) = Inr w" "parse_usize (fmt_dec h) = Inr h"
    using wh by (simp_all add: parse_usize_def from_str_fmt_dec)
  show ?thesis
    using ext lenH decoded fields numbers len
    by (simp add: parse_image_def header_end_netpbm [OF e] Let_def slice_to_def slice_from_def
        iter_nth_def usize_add_def image_of_rows)
qed

section \<open>Decoding what was encoded\<close>

lemma nth_concat_uniform:
  "\<forall>xs\<in>set xss. length xs = k \<Longrightarrow> i < length xss \<Longrightarrow> j < k \<Longrightarrow>
     concat xss ! (i * k + j) = xss ! i ! j \<and> i * k + j < length (concat xss)"
proof (induction xss arbitrary: i)
  case (Cons xs xss)
  then show ?case
  proof (cases i)
    case (Suc i')
    then have "k + (i' * k + j) < length xs + length (concat xss)" using Cons by auto
    then show ?thesis using Suc Cons by (auto simp: nth_append add.assoc)
  qed (auto simp: nth_append)
qed simp

lemma length_row_bytes:
  assumes "image_extension e" "e = lit ''pbm'' \<longrightarrow> 8 dvd length row"
  shows "length (row_bytes e row) =
    (if e = lit ''pbm'' then length row div 8 else if e = lit ''pgm'' then length row else 3 * length row)"
  using assms by (auto simp: row_bytes_def length_concat comp_def sum_list_triv)

lemma pack_byte_bit:
  assumes "i < 8" "i < length ps"
  shows "bit (pack_byte ps) (7 - i) \<longleftrightarrow> red (ps ! i) = 0"
proof -
  define bs where "bs = take 8 (map (\<lambda>p. red p = 0) ps @ replicate 8 False)"
  have bs: "length bs = 8" "bs ! i \<longleftrightarrow> red (ps ! i) = 0"
    using assms by (simp_all add: bs_def nth_append)
  have "7 - i < (8 :: nat)" by arith
  then have "bit (pack_byte ps) (7 - i) \<longleftrightarrow> rev bs ! (7 - i)"
    using bs(1) unfolding pack_byte_def bs_def [symmetric] by (simp add: bit_horner_sum_bit_word_iff)
  also have "rev bs ! (7 - i) = bs ! i" using bs(1) assms(1) by (simp add: rev_nth)
  finally show ?thesis using bs(2) by simp
qed

lemma image_mask: "i < 8 \<Longrightarrow> g AND image_masks ! i = 0 \<longleftrightarrow> \<not> bit g (7 - i)"
  using glyph_mask by (simp add: image_masks_def glyph_masks_def)

lemma decode_pixel_pbm:
  assumes "\<forall>row\<in>set rows. length row = w" "8 dvd w" "y < length rows" "x < w"
    and "pixel_fits (lit ''pbm'') (rows ! y ! x)" "w * length rows * 3 < 2 ^ 64"
  shows "decode_pixel (lit ''pbm'') (concat (map (row_bytes (lit ''pbm'')) rows)) w x y
    = Inr (rows ! y ! x)"
proof -
  let ?bs = "map (row_bytes (lit ''pbm'')) rows"
  have len: "\<forall>bs\<in>set ?bs. length bs = w div 8"
    using assms(1,2) length_row_bytes [of "lit ''pbm''"] by (auto simp: image_extension_def)
  have x: "x div 8 < w div 8" using assms(2,4) by (auto simp: dvd_def div_less_iff_less_mult)
  have row: "length (rows ! y) = w" using assms(1,3) by simp
  have at: "concat ?bs ! (y * (w div 8) + x div 8) = pack_byte (drop (8 * (x div 8)) (rows ! y))"
      "y * (w div 8) + x div 8 < length (concat ?bs)"
    using nth_concat_uniform [OF len, of y "x div 8"] assms(2,3) x row
    by (auto simp: row_bytes_def)
  have "length (concat ?bs) = (w div 8) * length rows"
    using len by (simp add: length_concat comp_def sum_list_triv cong: map_cong)
  also have "\<dots> \<le> w * length rows" by simp
  finally have "y * (w div 8) + x div 8 < 2 ^ 64" "y * (w div 8) < 2 ^ 64"
    using at(2) assms(6) by auto
  then have ok: "usize_mul y (w div 8) = Inr (y * (w div 8))"
      "usize_add (y * (w div 8)) (x div 8) = Inr (y * (w div 8) + x div 8)"
    by (simp_all add: usize_Inr)
  have "bit (pack_byte (drop (8 * (x div 8)) (rows ! y))) (7 - x mod 8) \<longleftrightarrow> red (rows ! y ! x) = 0"
    using pack_byte_bit [of "x mod 8" "drop (8 * (x div 8)) (rows ! y)"] assms(4) row
    by (simp add: less_diff_conv)
  then show ?thesis
    using ok at assms(5)
    by (auto simp: decode_pixel_def index_def image_masks_def image_mask [unfolded image_masks_def]
        pixel_fits_def)
qed

lemma decode_pixel_pgm:
  assumes "\<forall>row\<in>set rows. length row = w" "y < length rows" "x < w"
    and "pixel_fits (lit ''pgm'') (rows ! y ! x)" "w * length rows * 3 < 2 ^ 64"
  shows "decode_pixel (lit ''pgm'') (concat (map (row_bytes (lit ''pgm'')) rows)) w x y
    = Inr (rows ! y ! x)"
proof -
  let ?bs = "map (row_bytes (lit ''pgm'')) rows"
  have len: "\<forall>bs\<in>set ?bs. length bs = w" using assms(1) by (auto simp: row_bytes_def)
  have row: "length (rows ! y) = w" using assms(1,2) by simp
  have at: "concat ?bs ! (y * w + x) = red (rows ! y ! x)" "y * w + x < length (concat ?bs)"
    using nth_concat_uniform [OF len, of y x] assms(2,3) row by (auto simp: row_bytes_def)
  have "length (concat ?bs) = w * length rows"
    using len by (simp add: length_concat comp_def sum_list_triv cong: map_cong)
  then have "y * w + x < 2 ^ 64" "y * w < 2 ^ 64" using at(2) assms(5) by auto
  then show ?thesis
    using at assms(4)
    by (cases "rows ! y ! x") (simp add: decode_pixel_def index_def usize_mul_def usize_add_def pixel_fits_def)
qed

lemma decode_pixel_ppm:
  assumes "\<forall>row\<in>set rows. length row = w" "y < length rows" "x < w" "w * length rows * 3 < 2 ^ 64"
  shows "decode_pixel (lit ''ppm'') (concat (map (row_bytes (lit ''ppm'')) rows)) w x y
    = Inr (rows ! y ! x)"
proof -
  let ?bs = "map (row_bytes (lit ''ppm'')) rows" and ?rgb = "\<lambda>p. [red p, green p, blue p]"
  have len: "\<forall>bs\<in>set ?bs. length bs = 3 * w"
    using assms(1) length_row_bytes [of "lit ''ppm''"] by (auto simp: image_extension_def)
  have row: "length (rows ! y) = w" using assms(1,2) by simp
  have cells: "\<forall>bs\<in>set (map ?rgb (rows ! y)). length bs = 3" by simp
  have at: "concat ?bs ! (y * (3 * w) + (x * 3 + k)) = ?rgb (rows ! y ! x) ! k"
      "y * (3 * w) + (x * 3 + k) < length (concat ?bs)" if "k < 3" for k
    using nth_concat_uniform [OF len, of y "x * 3 + k"] nth_concat_uniform [OF cells, of x k]
      assms(2,3) row that by (auto simp: row_bytes_def)
  have "length (concat ?bs) = 3 * w * length rows"
    using len by (simp add: length_concat comp_def sum_list_triv cong: map_cong)
  then have small: "y * (3 * w) + (x * 3 + 2) < 2 ^ 64" using at(2) [of 2] assms(4) by auto
  then have "usize_mul y w = Inr (y * w)" "usize_mul (y * w) 3 = Inr (y * w * 3)"
      "usize_mul 3 x = Inr (3 * x)" "usize_add (3 * x) 1 = Inr (3 * x + 1)"
      "usize_add (3 * x) 2 = Inr (3 * x + 2)"
    by (auto simp: usize_Inr)
  moreover have "usize_add (y * w * 3) (3 * x + k) = Inr (y * w * 3 + (3 * x + k))" if "k < 3" for k
    using small that by (auto simp: usize_Inr)
  from this [of 0] this [of 1] this [of 2]
  have "usize_add (y * w * 3) (3 * x) = Inr (y * w * 3 + 3 * x)"
      "usize_add (y * w * 3) (3 * x + 1) = Inr (y * w * 3 + (3 * x + 1))"
      "usize_add (y * w * 3) (3 * x + 2) = Inr (y * w * 3 + (3 * x + 2))" by auto
  moreover have "index (concat ?bs) (y * w * 3 + (3 * x + k)) = Inr (?rgb (rows ! y ! x) ! k)"
    if "k < 3" for k
  proof -
    have "y * w * 3 + (3 * x + k) = y * (3 * w) + (x * 3 + k)" by simp
    then show ?thesis using at [OF that] by (simp only: index_def if_True)
  qed
  from this [of 0] this [of 1] this [of 2]
  have "index (concat ?bs) (y * w * 3 + 3 * x) = Inr (red (rows ! y ! x))"
      "index (concat ?bs) (y * w * 3 + (3 * x + 1)) = Inr (green (rows ! y ! x))"
      "index (concat ?bs) (y * w * 3 + (3 * x + 2)) = Inr (blue (rows ! y ! x))" by auto
  ultimately show ?thesis by (simp add: decode_pixel_def)
qed

lemma image_rows_encoded:
  assumes e: "image_extension e" and rows: "\<forall>row\<in>set rows. length row = w"
    and fits: "\<forall>row\<in>set rows. \<forall>p\<in>set row. pixel_fits e p"
    and pbm: "e = lit ''pbm'' \<longrightarrow> 8 dvd w" and small: "w * length rows * 3 < 2 ^ 64"
  shows "image_rows e (concat (map (row_bytes e) rows)) w (length rows) = Inr rows"
proof -
  let ?bytes = "concat (map (row_bytes e) rows)"
  have "decode_pixel e ?bytes w x y = Inr (rows ! y ! x)" if "x < w" "y < length rows" for x y
  proof -
    have "pixel_fits e (rows ! y ! x)" using fits rows that by (metis nth_mem)
    then show ?thesis
      using e pbm decode_pixel_pbm [OF rows _ that(2,1) _ small] decode_pixel_pgm [OF rows that(2,1) _ small]
        decode_pixel_ppm [OF rows that(2,1) small]
      unfolding image_extension_def by blast
  qed
  then have "collect (\<lambda>x. decode_pixel e ?bytes w x y) [0..<w] = Inr (map (\<lambda>x. rows ! y ! x) [0..<w])"
    if "y < length rows" for y
    using that by (intro collect_map) simp
  then have row: "collect (\<lambda>x. decode_pixel e ?bytes w x y) [0..<w] = Inr (rows ! y)"
    if "y < length rows" for y
    using that rows by (metis map_nth nth_mem)
  have "image_rows e ?bytes w (length rows) = Inr (map (\<lambda>y. rows ! y) [0..<length rows])"
    unfolding image_rows_def by (rule collect_map) (simp add: row)
  then show ?thesis by (simp add: map_nth)
qed

text \<open>
  Claim C20. Reading a raw PBM, PGM or PPM file gives back the image that was written, pixel by
  pixel, with its width and height: colours for PPM, grey levels for PGM, black and white for PBM.
  For PBM the width has to be a multiple of eight.
\<close>

theorem image_new_roundtrip:
  assumes "map_of (initrd_contents rd) (stem @ 46 # e) = Some (encode_image e w (length rows) rows)"
    and "image_extension e" "\<forall>row\<in>set rows. length row = w"
    and "\<forall>row\<in>set rows. \<forall>p\<in>set row. pixel_fits e p"
    and "e = lit ''pbm'' \<longrightarrow> 8 dvd w" "w * length rows * 3 < 2 ^ 64"
    and "w < 2 ^ 64" "length rows < 2 ^ 64" "length (encode_image e w (length rows) rows) < 2 ^ 64"
  shows "image_new rd (stem @ 46 # e)
    = Inr \<lparr>img_hdr = \<lparr>im_width = w, im_height = length rows, im_x = 0, im_y = 0\<rparr>, img_data = rows\<rparr>"
proof -
  have "length (netpbm_header e w (length rows)) + 1 < 2 ^ 64"
    using assms(9) by (simp add: encode_image_def length_utf8_bytes_ascii [OF netpbm_header_ascii])
  then show ?thesis
    using parse_image_netpbm [OF assms(2,7,8)] image_rows_encoded [OF assms(2-6)]
    by (simp add: image_new_def ramdisk.lookup_present [OF assms(1)] encode_image_def)
qed

section \<open>Narrow bitmaps\<close>

lemma parse_image_rows:
  assumes "parse_image path bytes = Inr im"
  shows "\<exists>parts pixels. split_terminator 46 path = parts \<and> parts \<noteq> []
    \<and> image_rows (last parts) pixels (im_width (img_hdr im)) (im_height (img_hdr im)) = Inr (img_data im)"
  using assms by (auto simp: parse_image_def Let_def split_beta image_of_rows [unfolded split_beta]
      split: if_splits)

definition image_ok :: "image \<Rightarrow> bool" where
  "image_ok im \<longleftrightarrow> length (img_data im) = im_height (img_hdr im)
     \<and> (\<forall>row\<in>set (img_data im). length row = im_width (img_hdr im))"

lemma collect_nth: "collect f xs = Inr ys \<Longrightarrow> i < length xs \<Longrightarrow> f (xs ! i) = Inr (ys ! i)"
proof (induction xs arbitrary: ys i)
  case (Cons x xs)
  then show ?case by (cases i) auto
qed simp

lemma image_rows_nth:
  assumes "image_rows e pixels w h = Inr rows" "y < h"
  shows "collect (\<lambda>x. decode_pixel e pixels w x y) [0..<w] = Inr (rows ! y)"
  using collect_nth [OF assms(1) [unfolded image_rows_def], of y] assms(2) by simp

lemma image_new_ok:
  assumes "image_new rd path = Inr im"
  shows "image_ok im"
proof -
  obtain bytes where "parse_image path bytes = Inr im" using assms by (auto simp: image_new_def)
  from parse_image_rows [OF this] obtain e pixels where rows:
    "image_rows e pixels (im_width (img_hdr im)) (im_height (img_hdr im)) = Inr (img_data im)"
    by blast
  have len: "length (img_data im) = im_height (img_hdr im)"
    using length_collect [OF rows [unfolded image_rows_def]] by simp
  have "length (img_data im ! y) = im_width (img_hdr im)" if "y < im_height (img_hdr im)" for y
    using length_collect [OF image_rows_nth [OF rows that]] by simp
  then show ?thesis using len by (auto simp: image_ok_def in_set_conv_nth)
qed

lemma decode_pixel_fits:
  assumes "decode_pixel e pixels w x y = Inr p"
  shows "pixel_fits e p"
  using assms by (auto simp: decode_pixel_def pixel_fits_def Let_def split: if_splits)

lemma collect_all: "collect f xs = Inr ys \<Longrightarrow> (\<And>x y. f x = Inr y \<Longrightarrow> P y) \<Longrightarrow> \<forall>y\<in>set ys. P y"
  by (induction xs arbitrary: ys) auto

lemma parse_image_extension:
  assumes "parse_image path bytes = Inr im"
  shows "image_extension (last (split_terminator 46 path))" "im_x (img_hdr im) = 0" "im_y (img_hdr im) = 0"
  using assms
  by (auto simp: parse_image_def Let_def split_beta header_end_def image_extension_def
      image_of_rows [unfolded split_beta] split: if_splits)

text \<open>
  Claim C21. Whatever the file holds, an image that was read is well formed: as many rows as its height,
  each as long as its width, placed at the origin, and every pixel one of the kind its format has: black
  or white for PBM, grey for PGM. The format is the one the path's last extension names.
\<close>

theorem image_new_well_formed:
  assumes "image_new rd path = Inr im"
  shows "\<exists>e. split_terminator 46 path \<noteq> [] \<and> e = last (split_terminator 46 path) \<and> image_extension e
    \<and> length (img_data im) = im_height (img_hdr im)
    \<and> (\<forall>row\<in>set (img_data im). length row = im_width (img_hdr im) \<and> (\<forall>p\<in>set row. pixel_fits e p))
    \<and> im_x (img_hdr im) = 0 \<and> im_y (img_hdr im) = 0"
proof -
  let ?e = "last (split_terminator 46 path)"
  obtain bytes where parsed: "parse_image path bytes = Inr im" using assms by (auto simp: image_new_def)
  then obtain pixels where rows: "split_terminator 46 path \<noteq> []"
      "image_rows ?e pixels (im_width (img_hdr im)) (im_height (img_hdr im)) = Inr (img_data im)"
    using parse_image_rows by blast
  have "\<forall>row\<in>set (img_data im). \<forall>p\<in>set row. pixel_fits ?e p"
  proof (rule collect_all [OF rows(2) [unfolded image_rows_def]])
    show "\<forall>p\<in>set row. pixel_fits ?e p"
      if "collect (\<lambda>x. decode_pixel ?e pixels (im_width (img_hdr im)) x y) [0..<im_width (img_hdr im)] = Inr row"
      for y row
      using that by (rule collect_all) (rule decode_pixel_fits)
  qed
  then show ?thesis
    using image_new_ok [OF assms] parse_image_extension [OF parsed] rows(1) unfolding image_ok_def by blast
qed

text \<open>
  Claim C39. A PBM image less than eight pixels wide is read wrong: the code takes a row to be the
  width divided by eight bytes, rounded down where the format rounds up, and so reads every row
  from the first byte. Whatever the file holds, all rows come out equal.
\<close>

theorem narrow_bitmap_rows_equal:
  assumes "image_new rd (stem @ lit ''.pbm'') = Inr im" "im_width (img_hdr im) < 8"
    and "y < im_height (img_hdr im)"
  shows "img_data im ! y = img_data im ! 0"
proof -
  have "last (split_terminator 46 (stem @ lit ''.pbm'')) = lit ''pbm''"
    using split_terminator_last [of 46 "lit ''pbm''" stem] by simp
  moreover obtain bytes where "parse_image (stem @ lit ''.pbm'') bytes = Inr im"
    using assms(1) by (auto simp: image_new_def)
  note parse_image_rows [OF this]
  ultimately obtain pixels where rows:
    "image_rows (lit ''pbm'') pixels (im_width (img_hdr im)) (im_height (img_hdr im)) = Inr (img_data im)"
    by metis
  have "decode_pixel (lit ''pbm'') pixels (im_width (img_hdr im)) x y
      = decode_pixel (lit ''pbm'') pixels (im_width (img_hdr im)) x 0" for x
    using assms(2) by (simp add: decode_pixel_def usize_mul_def)
  then show ?thesis
    using image_rows_nth [OF rows, of y] image_rows_nth [OF rows, of 0] assms(3) by simp
qed

section \<open>Drawing a loaded image\<close>

text \<open>The colour word: red in bits 16 to 23, green in 8 to 15, blue in 0 to 7.\<close>

lemma rgb_color_bit:
  "bit (rgb_color p) n \<longleftrightarrow>
     16 \<le> n \<and> bit (red p) (n - 16) \<or> 8 \<le> n \<and> bit (green p) (n - 8) \<or> bit (blue p) n"
proof -
  have "bit (red p) (n - 16) \<Longrightarrow> n < 24" "bit (green p) (n - 8) \<Longrightarrow> n < 16" "bit (blue p) n \<Longrightarrow> n < 8"
    using bit_imp_le_length [of "red p" "n - 16"] bit_imp_le_length [of "green p" "n - 8"]
      bit_imp_le_length [of "blue p" n] by simp_all
  then show ?thesis
    by (auto simp: rgb_color_def get_red_def get_green_def get_blue_def bit_simps Let_def)
qed

lemma image_draw_painted:
  assumes ok: "image_ok im"
    and hdr: "img_hdr im = \<lparr>im_width = w, im_height = h, im_x = x, im_y = y\<rparr>"
    and fits: "vga_fits v" "x + w \<le> unat (v_width v)" "y + h \<le> unat (v_height v)"
  shows "\<exists>mem'. image_draw im v mem = (mem', Inr ())
    \<and> screen.painted v mem mem' (\<lambda>px py. x \<le> px \<and> px < x + w \<and> y \<le> py \<and> py < y + h)
        (\<lambda>px py. rgb_color (img_data im ! (py - y) ! (px - x)))"
proof -
  let ?f = "\<lambda>px py. rgb_color (img_data im ! (py - y) ! (px - x))"
  let ?body = "\<lambda>i j m. sbind (m, usize_add x i) (\<lambda>mem px. sbind (mem, usize_add y j) (\<lambda>mem py.
      draw_pixel v px py (rgb_color (img_data im ! j ! i)) mem))"
  have len: "length (img_data im) = h" using ok hdr by (simp add: image_ok_def)
  have row: "length (img_data im ! j) = w" if "j < h" for j
    using ok hdr that by (simp add: image_ok_def)
  have "image_draw im v mem = each (\<lambda>j. each (\<lambda>i. ?body i j) [0..<min w (length (img_data im ! j))]) [0..<h] mem"
    using len by (simp add: image_draw_def hdr Let_def each_take_enumerate)
  also have "\<dots> = each (\<lambda>j. each (\<lambda>i. draw_pixel v (x + i) (y + j) (?f (x + i) (y + j))) [0..<w]) [0..<h] mem"
  proof (rule each_cong)
    fix j m
    assume "j \<in> set [0..<h]"
    then have j: "j < h" by simp
    have "?body i j m = draw_pixel v (x + i) (y + j) (?f (x + i) (y + j)) m" if "i < w" for i m
    proof -
      have "x + i < 2 ^ 64" "y + j < 2 ^ 64"
        using fits that j unat_bounds(4) [of "v_width v"] unat_bounds(4) [of "v_height v"] by auto
      then show ?thesis by (simp add: usize_add_def)
    qed
    then show "each (\<lambda>i. ?body i j) [0..<min w (length (img_data im ! j))] m
        = each (\<lambda>i. draw_pixel v (x + i) (y + j) (?f (x + i) (y + j))) [0..<w] m"
      unfolding row [OF j] min.idem by (intro each_cong) simp
  qed
  finally show ?thesis
    using screen.rectangle_painted [of w h v x y ?f mem] fits by (auto simp: on_screen_def)
qed

text \<open>
  Claim C32. An image that was loaded and placed so that it fits on the screen is drawn without a
  panic: its rectangle shows its pixels, with red, green and blue in the three low bytes of the
  colour word from high to low, and no other pixel and no byte outside the framebuffer changes.
\<close>

theorem draw_loaded_image:
  assumes "image_new rd path = Inr im" "im_width (img_hdr im) = w" "im_height (img_hdr im) = h"
    and "vga_fits v" "x + w \<le> unat (v_width v)" "y + h \<le> unat (v_height v)"
  shows "\<exists>mem'. image_draw (set_position im x y) v mem = (mem', Inr ())
    \<and> (\<forall>px py. on_screen v px py \<longrightarrow>
         (if x \<le> px \<and> px < x + w \<and> y \<le> py \<and> py < y + h
          then (let p = img_data im ! (py - y) ! (px - x) in \<forall>n. bit (pixel_at v mem' px py) n \<longleftrightarrow>
                 16 \<le> n \<and> bit (red p) (n - 16) \<or> 8 \<le> n \<and> bit (green p) (n - 8) \<or> bit (blue p) n)
          else pixel_at v mem' px py = pixel_at v mem px py))
    \<and> (\<forall>p. \<not> framebuffer_byte v p \<longrightarrow> mem' p = mem p)"
proof -
  have "image_ok (set_position im x y)"
    using image_new_ok [OF assms(1)] by (simp add: image_ok_def set_position_def)
  moreover have "img_hdr (set_position im x y) = \<lparr>im_width = w, im_height = h, im_x = x, im_y = y\<rparr>"
    using assms(2,3) by (simp add: set_position_def)
  ultimately obtain mem' where mem': "image_draw (set_position im x y) v mem = (mem', Inr ())"
    "screen.painted v mem mem' (\<lambda>px py. x \<le> px \<and> px < x + w \<and> y \<le> py \<and> py < y + h)
        (\<lambda>px py. rgb_color (img_data (set_position im x y) ! (py - y) ! (px - x)))"
    using image_draw_painted assms(4-6) by blast
  have "img_data (set_position im x y) = img_data im" by (simp add: set_position_def)
  then show ?thesis
    using painted_screen [OF mem'(2)] mem'(1) by (auto simp: rgb_color_bit Let_def)
qed

section \<open>Concrete images\<close>

definition two_pixels :: "rgb list list" where
  "two_pixels = [[\<lparr>red = 255, green = 128, blue = 0\<rparr>, \<lparr>red = 1, green = 2, blue = 3\<rparr>]]"

definition art_disk :: initrd where
  "art_disk = ramdisk_with [(lit ''a.ppm'', encode_image (lit ''ppm'') 2 1 two_pixels),
     (lit ''b.pbm'', utf8_bytes (netpbm_header (lit ''pbm'') 4 2) @ 10 # [0x50, 0xA0])]"

lemma two_pixels_new:
  "parse_image (stem @ 46 # lit ''ppm'') (encode_image (lit ''ppm'') 2 1 two_pixels)
    = Inr \<lparr>img_hdr = \<lparr>im_width = 2, im_height = 1, im_x = 0, im_y = 0\<rparr>, img_data = two_pixels\<rparr>"
proof -
  have "length (netpbm_header (lit ''ppm'') 2 1) + 1 < 2 ^ 64"
    by (simp add: netpbm_header_def netpbm_size_def netpbm_magic_def fmt_dec_def radix_digits.simps)
  then show ?thesis
    using parse_image_netpbm [of "lit ''ppm''" 2 1 stem]
      image_rows_encoded [of "lit ''ppm''" two_pixels 2]
    by (simp add: encode_image_def image_extension_def two_pixels_def pixel_fits_def)
qed

lemma image_new_roundtrip_witness:
  "image_new art_disk (lit ''a'' @ 46 # lit ''ppm'')
    = Inr \<lparr>img_hdr = \<lparr>im_width = 2, im_height = length two_pixels, im_x = 0, im_y = 0\<rparr>,
           img_data = two_pixels\<rparr>"
proof (rule image_new_roundtrip)
  show "map_of (initrd_contents art_disk) (lit ''a'' @ 46 # lit ''ppm'')
      = Some (encode_image (lit ''ppm'') 2 (length two_pixels) two_pixels)"
    by (simp add: art_disk_def two_pixels_def)
  have "length (encode_image (lit ''ppm'') 2 1 two_pixels) = 17"
    using length_utf8_bytes_ascii [OF netpbm_header_ascii, of "lit ''ppm''" 2 1]
    by (simp add: encode_image_def netpbm_header_def netpbm_size_def netpbm_magic_def fmt_dec_def
        radix_digits.simps two_pixels_def row_bytes_def)
  then show "length (encode_image (lit ''ppm'') 2 (length two_pixels) two_pixels) < 2 ^ 64"
    by (simp add: two_pixels_def)
qed (simp_all add: image_extension_def two_pixels_def pixel_fits_def)

lemma draw_loaded_image_witness:
  "\<exists>mem'. image_draw (set_position \<lparr>img_hdr = \<lparr>im_width = 2, im_height = 1, im_x = 0, im_y = 0\<rparr>,
       img_data = two_pixels\<rparr> 10 20) small_screen (\<lambda>_. 0) = (mem', Inr ())"
proof -
  have "image_new art_disk (lit ''a'' @ 46 # lit ''ppm'')
      = Inr \<lparr>img_hdr = \<lparr>im_width = 2, im_height = 1, im_x = 0, im_y = 0\<rparr>, img_data = two_pixels\<rparr>"
    unfolding image_new_def art_disk_def
    by (subst ramdisk.loader_present [of _ _ "encode_image (lit ''ppm'') 2 1 two_pixels"])
       (use two_pixels_new [of "lit ''a''"] in simp_all)
  from draw_loaded_image [OF this, of 2 1 small_screen 10 20 "\<lambda>_. 0"] show ?thesis
    by (auto simp: small_screen_def vga_fits_def)
qed

definition narrow_image :: image where
  "narrow_image = \<lparr>img_hdr = \<lparr>im_width = 4, im_height = 2, im_x = 0, im_y = 0\<rparr>,
     img_data = (let w = \<lparr>red = 0xFF, green = 0xFF, blue = 0xFF\<rparr>; b = \<lparr>red = 0, green = 0, blue = 0\<rparr>
       in [[w, b, w, b], [w, b, w, b]])\<rparr>"

lemma narrow_image_new: "image_new art_disk (lit ''b'' @ lit ''.pbm'') = Inr narrow_image"
proof -
  have "length (netpbm_header (lit ''pbm'') 4 2) + 1 < 2 ^ 64"
    by (simp add: netpbm_header_def netpbm_size_def netpbm_magic_def fmt_dec_def radix_digits.simps)
  moreover have upt: "[0..<4] = [0, 1, 2, 3 :: nat]" "[0..<2] = [0, 1 :: nat]"
    by (simp_all add: numeral_eq_Suc)
  then have "image_rows (lit ''pbm'') [0x50, 0xA0] 4 2 = Inr (img_data narrow_image)"
    by (simp add: image_rows_def narrow_image_def decode_pixel_def usize_mul_def usize_add_def
        index_def image_masks_def upt Let_def)
  ultimately have "parse_image (lit ''b'' @ 46 # lit ''pbm'')
      (utf8_bytes (netpbm_header (lit ''pbm'') 4 2) @ 10 # [0x50, 0xA0]) = Inr narrow_image"
    using parse_image_netpbm [of "lit ''pbm''" 4 2 "lit ''b''" "[0x50, 0xA0]"]
    by (simp add: image_extension_def narrow_image_def)
  then show ?thesis
    unfolding image_new_def art_disk_def
    by (subst ramdisk.loader_present
        [of _ _ "utf8_bytes (netpbm_header (lit ''pbm'') 4 2) @ 10 # [0x50, 0xA0]"]) simp_all
qed

text \<open>The second row of this bitmap is white where the first is black.\<close>

lemma narrow_bitmap_rows_equal_witness: "img_data narrow_image ! 1 = img_data narrow_image ! 0"
  by (rule narrow_bitmap_rows_equal [OF narrow_image_new]) (simp_all add: narrow_image_def)

lemma image_new_well_formed_witness:
  "image_new art_disk (lit ''b'' @ lit ''.pbm'') = Inr narrow_image
    \<and> map length (img_data narrow_image) = replicate 2 4"
proof -
  have size: "im_width (img_hdr narrow_image) = 4" "im_height (img_hdr narrow_image) = 2"
    by (simp_all add: narrow_image_def)
  from image_new_well_formed [OF narrow_image_new, unfolded size]
  have "length (img_data narrow_image) = 2" "\<forall>row\<in>set (img_data narrow_image). length row = 4" by blast+
  then have "map length (img_data narrow_image) = replicate 2 4" by (auto intro: replicate_eqI)
  with narrow_image_new show ?thesis by blast
qed

end
