(* ===== verification/Serial.thy ===== *)
theory Serial
  imports Rust_Text Initrd_File
begin

text \<open>
  The serial port driver, \<^verbatim>\<open>kernel/src/serial.rs\<close>. Port input and output, which the \<^verbatim>\<open>x86_64\<close>
  crate and the hardware provide, are the parameter \<open>io\<close>: two functions on a device state of any
  type. The driver polls the line status register without a bound; each loop is a partial
  function whose value is \<open>None\<close> when it never ends.
\<close>

section \<open>Results of operations that may not return\<close>

definition obind ::
    "('s \<times> 'a result) option \<Rightarrow> ('s \<Rightarrow> 'a \<Rightarrow> ('s \<times> 'b result) option) \<Rightarrow> ('s \<times> 'b result) option" where
  "obind m f =
     (case m of
        None \<Rightarrow> None
      | Some (s, Inl p) \<Rightarrow> Some (s, Inl p)
      | Some (s, Inr x) \<Rightarrow> f s x)"

lemma obind_simps [simp, outcome_simps]:
  "obind None f = None"
  "obind (Some (s, Inl p)) f = Some (s, Inl p)"
  "obind (Some (s, Inr x)) f = f s x"
  by (simp_all add: obind_def)

lemma obind_assoc: "obind (obind m f) g = obind m (\<lambda>s x. obind (f s x) g)"
  by (simp add: obind_def split: option.splits prod.splits sum.splits)

section \<open>Ports\<close>

record 'd ports =
  port_in :: "u16 \<Rightarrow> 'd \<Rightarrow> u8 \<times> 'd"
  port_out :: "u16 \<Rightarrow> u8 \<Rightarrow> 'd \<Rightarrow> 'd"

record serial =
  s_address :: u16

datatype port_name = COM1

definition port_number :: "port_name \<Rightarrow> u16" where
  "port_number p = (case p of COM1 \<Rightarrow> 0x3F8)"

definition serial_new :: "port_name \<Rightarrow> serial" where
  "serial_new p = \<lparr>s_address = port_number p\<rparr>"

definition inb :: "'d ports \<Rightarrow> serial \<Rightarrow> u16 \<Rightarrow> 'd \<Rightarrow> 'd \<times> u8 result" where
  "inb io s offset d =
     sbind (d, checked_add (s_address s) offset) (\<lambda>d port.
     let (v, d) = port_in io port d in (d, Inr v))"

definition outb :: "'d ports \<Rightarrow> serial \<Rightarrow> u16 \<Rightarrow> u8 \<Rightarrow> 'd \<Rightarrow> 'd \<times> unit result" where
  "outb io s offset v d =
     sbind (d, checked_add (s_address s) offset) (\<lambda>d port. (port_out io port v d, Inr ()))"

definition serial_initialize :: "'d ports \<Rightarrow> serial \<Rightarrow> 'd \<Rightarrow> 'd \<times> unit result" where
  "serial_initialize io s d =
     sbind (outb io s 1 0x01 d) (\<lambda>d _.
     sbind (outb io s 3 0x80 d) (\<lambda>d _.
     sbind (outb io s 0 0x03 d) (\<lambda>d _.
     sbind (outb io s 1 0x00 d) (\<lambda>d _.
     sbind (outb io s 3 0x03 d) (\<lambda>d _.
     sbind (outb io s 2 0xC7 d) (\<lambda>d _.
     sbind (outb io s 4 0x0B d) (\<lambda>d _.
     sbind (outb io s 4 0x1E d) (\<lambda>d _.
     sbind (outb io s 0 0xAE d) (\<lambda>d _.
     sbind (inb io s 0 d) (\<lambda>d v.
     sbind (d, assert_eq v 0xAE) (\<lambda>d _.
     outb io s 4 0x0F d)))))))))))"

text \<open>The lazily built \<^verbatim>\<open>SERIAL\<close> static.\<close>

definition serial_static :: "'d ports \<Rightarrow> 'd \<Rightarrow> 'd \<times> serial result" where
  "serial_static io d =
     (let serial = serial_new COM1
      in sbind (serial_initialize io serial d) (\<lambda>d _. (d, Inr serial)))"

definition transmit_empty :: "'d ports \<Rightarrow> serial \<Rightarrow> 'd \<Rightarrow> 'd \<times> u8 result" where
  "transmit_empty io s d = sbind (inb io s 5 d) (\<lambda>d v. (d, Inr (v AND 0x20)))"

definition received :: "'d ports \<Rightarrow> serial \<Rightarrow> 'd \<Rightarrow> 'd \<times> u8 result" where
  "received io s d = sbind (inb io s 5 d) (\<lambda>d v. (d, Inr (v AND 0x1)))"

text \<open>The two polling loops.\<close>

partial_function (option) wait_transmit :: "'d ports \<Rightarrow> serial \<Rightarrow> 'd \<Rightarrow> ('d \<times> unit result) option" where
  "wait_transmit io s d =
     (case transmit_empty io s d of
        (d, Inl p) \<Rightarrow> Some (d, Inl p)
      | (d, Inr v) \<Rightarrow> if v = 0 then wait_transmit io s d else Some (d, Inr ()))"

partial_function (option) wait_received :: "'d ports \<Rightarrow> serial \<Rightarrow> 'd \<Rightarrow> ('d \<times> unit result) option" where
  "wait_received io s d =
     (case received io s d of
        (d, Inl p) \<Rightarrow> Some (d, Inl p)
      | (d, Inr v) \<Rightarrow> if v = 0 then wait_received io s d else Some (d, Inr ()))"

definition serial_read :: "'d ports \<Rightarrow> serial \<Rightarrow> 'd \<Rightarrow> ('d \<times> u8 result) option" where
  "serial_read io s d = obind (wait_received io s d) (\<lambda>d _. Some (inb io s 0 d))"

definition serial_write_char :: "'d ports \<Rightarrow> serial \<Rightarrow> rchar \<Rightarrow> 'd \<Rightarrow> ('d \<times> unit result) option" where
  "serial_write_char io s c d =
     obind (wait_transmit io s d) (\<lambda>d _. Some (outb io s 0 (word_of_nat c) d))"

fun serial_write_str :: "'d ports \<Rightarrow> serial \<Rightarrow> rstr \<Rightarrow> 'd \<Rightarrow> ('d \<times> unit result) option" where
  "serial_write_str io s [] d = Some (d, Inr ())"
| "serial_write_str io s (character # chars) d =
     obind (if character = 10 then serial_write_char io s 13 d else Some (d, Inr ())) (\<lambda>d _.
     obind (serial_write_char io s character d) (\<lambda>d _.
     serial_write_str io s chars d))"

text \<open>\<^verbatim>\<open>write!\<close> and \<^verbatim>\<open>writeln!\<close> render their arguments into one string, with interrupts off, and send it.\<close>

definition serial_write_fmt :: "'d ports \<Rightarrow> serial \<Rightarrow> rstr \<Rightarrow> 'd \<Rightarrow> ('d \<times> unit result) option" where
  "serial_write_fmt io s args d = serial_write_str io s args d"

lemma serial_write_fmt_str [simp]: "serial_write_fmt io s = serial_write_str io s"
  by (intro ext) (simp add: serial_write_fmt_def)

section \<open>What a 16550 does\<close>

text \<open>
  The behaviour of the hardware that the driver relies on, for a UART in its operating state
  (\<open>ready\<close>: divisor latch closed, not in loopback). \<open>sent\<close> is what went out on the line, \<open>inbox\<close>
  the bytes that wait to be read. \<open>transmitter_empty\<close> is bit 5 of the line status register. Writing the data
  register sends a byte when the transmitter is empty; what a write to a busy transmitter does is left open
  (a 16550 may lose a byte then). Reading the line status register sends and takes nothing, and does not fill the
  transmitter; after some number of polls the transmitter is empty; bit 0 says whether a byte is
  waiting, and reading the data register takes it.
\<close>

definition poll :: "'d ports \<Rightarrow> u16 \<Rightarrow> 'd \<Rightarrow> 'd" where
  "poll io base d = snd (port_in io (base + 5) d)"

definition transmitter_empty :: "'d ports \<Rightarrow> u16 \<Rightarrow> 'd \<Rightarrow> bool" where
  "transmitter_empty io base d \<longleftrightarrow> fst (port_in io (base + 5) d) AND 0x20 \<noteq> 0"

definition uart :: "'d ports \<Rightarrow> u16 \<Rightarrow> ('d \<Rightarrow> bool) \<Rightarrow> ('d \<Rightarrow> u8 list) \<Rightarrow> ('d \<Rightarrow> u8 list) \<Rightarrow> bool" where
  "uart io base ready sent inbox \<longleftrightarrow>
     (\<forall>d. ready d \<longrightarrow>
       (transmitter_empty io base d \<longrightarrow> (\<forall>v. let d' = port_out io base v d in
          ready d' \<and> sent d' = sent d @ [v] \<and> inbox d' = inbox d))
       \<and> (let d' = poll io base d in ready d' \<and> sent d' = sent d \<and> inbox d' = inbox d
           \<and> (transmitter_empty io base d \<longrightarrow> transmitter_empty io base d'))
       \<and> (\<exists>n. transmitter_empty io base ((poll io base ^^ n) d))
       \<and> (fst (port_in io (base + 5) d) AND 0x1 \<noteq> 0 \<longleftrightarrow> inbox d \<noteq> [])
       \<and> (\<forall>b bs. inbox d = b # bs \<longrightarrow>
            (let (v, d') = port_in io base d in
             v = b \<and> ready d' \<and> sent d' = sent d \<and> inbox d' = bs)))"

text \<open>The bytes that carry a text: a carriage return before every newline, characters cut to a byte.\<close>

definition crlf_bytes :: "rstr \<Rightarrow> u8 list" where
  "crlf_bytes text = concat (map (\<lambda>c. if c = 10 then [13, 10] else [word_of_nat c]) text)"

lemma crlf_bytes_simps [simp]:
  "crlf_bytes [] = []"
  "crlf_bytes (c # cs) = (if c = 10 then [13, 10] else [word_of_nat c]) @ crlf_bytes cs"
  "crlf_bytes (s @ t) = crlf_bytes s @ crlf_bytes t"
  by (simp_all add: crlf_bytes_def)

section \<open>The driver on a 16550\<close>

text \<open>What an operation of the driver keeps and changes.\<close>

definition sends ::
    "('d \<Rightarrow> bool) \<Rightarrow> ('d \<Rightarrow> u8 list) \<Rightarrow> ('d \<Rightarrow> u8 list) \<Rightarrow> 'd \<Rightarrow> ('d \<times> 'a result) option \<Rightarrow> u8 list
      \<Rightarrow> u8 list \<Rightarrow> 'a \<Rightarrow> bool" where
  "sends ready sent inbox d r out rest x \<longleftrightarrow>
     (\<exists>d'. r = Some (d', Inr x) \<and> ready d' \<and> sent d' = sent d @ out \<and> inbox d' = rest)"

lemma sends_bind:
  assumes "sends ready sent inbox d r out rest x"
    and "\<And>d'. r = Some (d', Inr x) \<Longrightarrow> ready d' \<Longrightarrow> sent d' = sent d @ out \<Longrightarrow> inbox d' = rest \<Longrightarrow>
      sends ready sent inbox d' (f d' x) out' rest' y"
  shows "sends ready sent inbox d (obind r f) (out @ out') rest' y"
proof -
  obtain d' where d': "r = Some (d', Inr x)" "ready d'" "sent d' = sent d @ out" "inbox d' = rest"
    using assms(1) by (auto simp: sends_def)
  from assms(2) [OF d'] show ?thesis using d'(1,3) by (auto simp: sends_def)
qed

lemma sends_done: "ready d \<Longrightarrow> sends ready sent inbox d (Some (d, Inr x)) [] (inbox d) x"
  by (simp add: sends_def)

lemma port_offset:
  fixes base :: u16
  assumes "base \<le> 0xFFFA"
  shows "checked_add base 5 = Inr (base + 5)" "checked_add base 0 = Inr base"
proof -
  have "unat base \<le> 65530" using assms by (simp add: word_le_nat_alt)
  then show "checked_add base 5 = Inr (base + 5)" "checked_add base 0 = Inr base"
    by (simp_all add: checked_add_def)
qed

text \<open>Waiting ends with the transmitter empty, which is what the write after it needs.\<close>

lemma wait_transmit_ends:
  assumes u: "uart io (s_address s) ready sent inbox" and base: "s_address s \<le> 0xFFFA" and d: "ready d"
  obtains d' where "wait_transmit io s d = Some (d', Inr ())" "ready d'" "sent d' = sent d" "inbox d' = inbox d"
    "transmitter_empty io (s_address s) d'"
proof -
  let ?poll = "poll io (s_address s)" and ?empty = "transmitter_empty io (s_address s)"
  have step: "wait_transmit io s d = (if ?empty d then Some (?poll d, Inr ()) else wait_transmit io s (?poll d))" for d
    using port_offset [OF base]
    by (subst wait_transmit.simps)
      (simp add: transmit_empty_def inb_def poll_def transmitter_empty_def split_beta)
  have keep: "ready (?poll d)" "sent (?poll d) = sent d" "inbox (?poll d) = inbox d" "?empty d \<Longrightarrow> ?empty (?poll d)"
    if "ready d" for d
    using u that by (simp_all add: uart_def Let_def)
  obtain n where "?empty ((?poll ^^ n) d)" using u d by (auto simp: uart_def)
  then have "\<exists>d'. wait_transmit io s d = Some (d', Inr ()) \<and> ready d' \<and> sent d' = sent d \<and> inbox d' = inbox d \<and> ?empty d'"
    using d
  proof (induction n arbitrary: d)
    case 0
    then show ?case using keep [OF 0(2)] by (simp add: step [of d])
  next
    case (Suc n)
    show ?case
    proof (cases "?empty d")
      case False
      have "\<exists>d'. wait_transmit io s (?poll d) = Some (d', Inr ()) \<and> ready d' \<and> sent d' = sent (?poll d)
          \<and> inbox d' = inbox (?poll d) \<and> ?empty d'"
        by (rule Suc.IH) (use Suc.prems keep in \<open>simp_all add: funpow_swap1\<close>)
      then show ?thesis using keep [OF Suc.prems(2)] False by (simp add: step [of d])
    qed (use keep [OF Suc.prems(2)] in \<open>simp add: step [of d]\<close>)
  qed
  then show thesis using that by blast
qed

lemma serial_write_char_sends:
  assumes u: "uart io (s_address s) ready sent inbox" and base: "s_address s \<le> 0xFFFA" and d: "ready d"
  shows "sends ready sent inbox d (serial_write_char io s c d) [word_of_nat c] (inbox d) ()"
proof -
  obtain d' where d': "wait_transmit io s d = Some (d', Inr ())" "ready d'" "sent d' = sent d" "inbox d' = inbox d"
      "transmitter_empty io (s_address s) d'"
    by (rule wait_transmit_ends [OF u base d])
  have "let e = port_out io (s_address s) (word_of_nat c) d' in
      ready e \<and> sent e = sent d' @ [word_of_nat c] \<and> inbox e = inbox d'"
    using u d'(2,5) by (simp add: uart_def)
  then show ?thesis
    using d' port_offset [OF base] by (simp add: serial_write_char_def sends_def outb_def Let_def)
qed

lemma serial_write_str_sends_bytes:
  assumes u: "uart io (s_address s) ready sent inbox" and base: "s_address s \<le> 0xFFFA" and d: "ready d"
  shows "sends ready sent inbox d (serial_write_str io s cs d) (crlf_bytes cs) (inbox d) ()"
  using d
proof (induction cs arbitrary: d)
  case Nil
  then show ?case by (simp add: sends_done)
next
  case (Cons c cs)
  have first: "sends ready sent inbox d
      (if c = 10 then serial_write_char io s 13 d else Some (d, Inr ()))
      (if c = 10 then [13] else []) (inbox d) ()"
    using serial_write_char_sends [OF u base Cons.prems, of 13] Cons.prems by (simp add: sends_done)
  have "sends ready sent inbox d (serial_write_str io s (c # cs) d)
      ((if c = 10 then [13] else []) @ [word_of_nat c] @ crlf_bytes cs) (inbox d) ()"
    unfolding serial_write_str.simps
  proof (rule sends_bind [OF first])
    fix d'
    assume d': "ready d'" "inbox d' = inbox d"
    show "sends ready sent inbox d' (obind (serial_write_char io s c d') (\<lambda>d _. serial_write_str io s cs d))
        ([word_of_nat c] @ crlf_bytes cs) (inbox d) ()"
      by (rule sends_bind [OF serial_write_char_sends [OF u base d'(1)]])
        (metis Cons.IH d'(2))
  qed
  then show ?case by (simp split: if_splits)
qed

lemma serial_read_takes:
  assumes u: "uart io (s_address s) ready sent inbox" and base: "s_address s \<le> 0xFFFA"
    and d: "ready d" "inbox d = b # bs"
  shows "sends ready sent inbox d (serial_read io s d) [] bs b"
proof -
  let ?d = "poll io (s_address s) d"
  have keep: "ready ?d" "sent ?d = sent d" "inbox ?d = b # bs"
    and data: "fst (port_in io (s_address s + 5) d) AND 0x1 \<noteq> 0"
    using u d by (simp_all add: uart_def Let_def)
  have "wait_received io s d = Some (?d, Inr ())"
    using port_offset [OF base] data
    by (subst wait_received.simps) (simp add: received_def inb_def poll_def split_beta)
  moreover have "let (v, d') = port_in io (s_address s) ?d in
      v = b \<and> ready d' \<and> sent d' = sent ?d \<and> inbox d' = bs"
    using u keep(1,3) unfolding uart_def by blast
  then obtain d' where "port_in io (s_address s) ?d = (b, d')" "ready d'" "sent d' = sent d" "inbox d' = bs"
    using keep(2) by (cases "port_in io (s_address s) ?d") auto
  ultimately show ?thesis
    using port_offset [OF base] by (simp add: serial_read_def sends_def inb_def)
qed

text \<open>
  Claim C22. On a UART that always empties its transmitter in the end, and that takes a byte reliably only
  when it is empty, writing a text returns; it sends the characters of the text in order, each cut to its low byte and every newline preceded
  by a carriage return, sends nothing else and takes nothing from the receiver.
\<close>

theorem serial_write_str_sends:
  assumes "uart io (s_address s) ready sent inbox" "s_address s \<le> 0xFFFA" "ready d"
  shows "\<exists>d'. serial_write_str io s cs d = Some (d', Inr ())
    \<and> ready d' \<and> sent d' = sent d @ crlf_bytes cs \<and> inbox d' = inbox d"
  using serial_write_str_sends_bytes [OF assms] by (simp add: sends_def)

definition transmitter_stuck :: "'d ports \<Rightarrow> u16 \<Rightarrow> bool" where
  "transmitter_stuck io base \<longleftrightarrow> (\<forall>d. fst (port_in io (base + 5) d) AND 0x20 = 0)"

lemma wait_transmit_stuck:
  assumes "wait_transmit io s d = Some r"
  shows "s_address s \<le> 0xFFFA \<longrightarrow> \<not> transmitter_stuck io (s_address s)"
proof (rule wait_transmit.raw_induct [OF _ assms,
    where P = "\<lambda>io s d r. s_address s \<le> 0xFFFA \<longrightarrow> \<not> transmitter_stuck io (s_address s)"])
  fix wait and io :: "'a ports" and s d r
  assume IH: "\<And>io s d r. wait io s d = Some r \<Longrightarrow>
      s_address s \<le> 0xFFFA \<longrightarrow> \<not> transmitter_stuck io (s_address s)"
    and eq: "(case transmit_empty io s d of
        (d, Inl p) \<Rightarrow> Some (d, Inl p)
      | (d, Inr v) \<Rightarrow> if v = 0 then wait io s d else Some (d, Inr ())) = Some r"
  show "s_address s \<le> 0xFFFA \<longrightarrow> \<not> transmitter_stuck io (s_address s)"
  proof
    assume base: "s_address s \<le> 0xFFFA"
    have "transmit_empty io s d
        = (snd (port_in io (s_address s + 5) d), Inr (fst (port_in io (s_address s + 5) d) AND 0x20))"
      using port_offset [OF base] by (simp add: transmit_empty_def inb_def split_beta)
    then show "\<not> transmitter_stuck io (s_address s)"
      using IH eq base by (auto simp: transmitter_stuck_def split: if_splits)
  qed
qed

text \<open>
  Claim C40. The driver has no timeout: when the line status never reports an empty transmitter,
  writing any non-empty text to the port does not return.
\<close>

theorem serial_write_never_returns:
  assumes "transmitter_stuck io (s_address s)" "s_address s \<le> 0xFFFA" "cs \<noteq> []"
  shows "serial_write_str io s cs d = None"
proof -
  have wait: "wait_transmit io s d = None" for d
    using wait_transmit_stuck [of io s d] assms(1,2) by (cases "wait_transmit io s d") auto
  obtain c cs' where "cs = c # cs'" using assms(3) by (cases cs) auto
  then show ?thesis by (simp add: serial_write_char_def wait)
qed

section \<open>A concrete UART\<close>

text \<open>Its transmitter is busy for two polls after each byte, and loses what is written meanwhile.\<close>

record test_uart =
  line_out :: "u8 list"
  line_in :: "u8 list"
  busy :: nat

definition test_status :: "test_uart \<Rightarrow> u8" where
  "test_status d = (if line_in d = [] then (if busy d = 0 then 0x20 else 0)
     else (if busy d = 0 then 0x21 else 0x01))"

definition test_ports :: "test_uart ports" where
  "test_ports = \<lparr>
     port_in = (\<lambda>p d. if p = 0x3FD then (test_status d, d\<lparr>busy := busy d - 1\<rparr>)
       else if p = 0x3F8 then
         (case line_in d of [] \<Rightarrow> (0, d) | b # bs \<Rightarrow> (b, d\<lparr>line_in := bs\<rparr>))
       else (0, d)),
     port_out = (\<lambda>p v d. if p = 0x3F8 \<and> busy d = 0 then d\<lparr>line_out := line_out d @ [v], busy := 2\<rparr> else d)\<rparr>"

lemma test_status_bits:
  "test_status d AND 0x20 \<noteq> 0 \<longleftrightarrow> busy d = 0" "test_status d AND 1 = 0 \<longleftrightarrow> line_in d = []"
  by (simp_all add: test_status_def)

lemma test_polls: "busy ((poll test_ports 0x3F8 ^^ n) d) = busy d - n"
  by (induction n) (simp_all add: poll_def test_ports_def)

lemma test_empty: "transmitter_empty test_ports 0x3F8 d \<longleftrightarrow> busy d = 0"
  by (simp add: transmitter_empty_def test_ports_def test_status_bits)

lemma test_uart_ok: "uart test_ports 0x3F8 (\<lambda>_. True) line_out line_in"
proof -
  have "\<exists>n. busy d \<le> n" for d by blast
  then show ?thesis
    by (simp add: uart_def test_empty test_polls) (auto simp: poll_def test_ports_def test_status_bits)
qed

definition idle_uart :: test_uart where
  "idle_uart = \<lparr>line_out = [], line_in = [], busy = 0\<rparr>"

lemma serial_write_str_sends_witness:
  "\<exists>d'. serial_write_str test_ports (serial_new COM1) (lit ''hi'' @ [10]) idle_uart = Some (d', Inr ())
    \<and> line_out d' = [104, 105, 13, 10]"
  using serial_write_str_sends [of test_ports "serial_new COM1" "\<lambda>_. True" line_out line_in idle_uart
      "lit ''hi'' @ [10]"] test_uart_ok
  by (auto simp: serial_new_def port_number_def idle_uart_def)

definition dead_ports :: "unit ports" where
  "dead_ports = \<lparr>port_in = (\<lambda>p d. (0, d)), port_out = (\<lambda>p v d. d)\<rparr>"

lemma serial_write_never_returns_witness:
  "serial_write_str dead_ports (serial_new COM1) (lit ''x'') () = None"
  by (rule serial_write_never_returns)
    (simp_all add: transmitter_stuck_def dead_ports_def serial_new_def port_number_def)

end
