(* ===== verification/Shell.thy ===== *)
theory Shell
  imports Elf Timer Scheduler Serial Vga
begin

text \<open>
  The shell, \<^verbatim>\<open>kernel/src/shell.rs\<close>: its configuration from \<^verbatim>\<open>/etc\<close>, the greeting it displays on
  either console, and the handler that takes one byte from the serial port, edits the line, and
  on a carriage return runs the command.
\<close>

section \<open>State\<close>

record shell =
  buffer :: "rchar list"
  group :: rstr
  group_id :: u32
  prompt :: rstr
  user_id :: u32
  username :: rstr
  working_directory :: rstr

definition parse_u32 :: "rstr \<Rightarrow> u32 result" where
  "parse_u32 s = rbind (unwrap_result (from_str_radix (2 ^ 32) 10 s)) (\<lambda>n. Inr (word_of_nat n))"

definition file_text :: "initrd \<Rightarrow> rstr \<Rightarrow> rstr result" where
  "file_text rd path = rbind (get_data rd path) (\<lambda>data. unwrap_result (from_utf8 data))"

definition shell_new :: "initrd \<Rightarrow> shell result" where
  "shell_new rd =
     rbind (rbind (file_text rd (lit ''initrd/etc/hostname'')) (\<lambda>s. Inr (trim_end s))) (\<lambda>hostname.
     rbind (rbind (file_text rd (lit ''initrd/etc/passwd'')) (\<lambda>s. Inr (split_terminator 58 s))) (\<lambda>passwd.
     let (field, passwd) = iter_nth passwd 0 in
     rbind (unwrap_option field) (\<lambda>username.
     let (field, passwd) = iter_nth passwd 1 in
     rbind (rbind (unwrap_option field) parse_u32) (\<lambda>user_id.
     let (field, passwd) = iter_nth passwd 0 in
     rbind (rbind (unwrap_option field) parse_u32) (\<lambda>group_id.
     let (field, passwd) = iter_nth passwd 1 in
     rbind (unwrap_option field) (\<lambda>home.
     rbind (rbind (file_text rd (lit ''initrd/etc/group'')) (\<lambda>s. Inr (split_terminator 58 s))) (\<lambda>groups.
     let (field, groups) = iter_nth groups 0 in
     rbind (unwrap_option field) (\<lambda>group.
     Inr \<lparr>buffer = [], group = group, group_id = group_id,
          prompt = BOLD @ DEFAULT @ lit ''['' @ GREEN @ username @ lit ''@'' @ hostname @ lit '' ''
            @ BLUE @ lit ''~'' @ DEFAULT @ lit '']# '',
          user_id = user_id, username = username, working_directory = home\<rparr>))))))))"

section \<open>Output\<close>

text \<open>\<^verbatim>\<open>display\<close> is generic in its writer: \<open>write\<close> is the writer's \<^verbatim>\<open>write_fmt\<close>.\<close>

definition display ::
    "(rstr \<Rightarrow> 'w \<Rightarrow> ('w \<times> unit result) option) \<Rightarrow> initrd \<Rightarrow> shell \<Rightarrow> 'w \<Rightarrow> ('w \<times> unit result) option" where
  "display write rd sh w =
     obind (Some (w, file_text rd (lit ''initrd/etc/motd''))) (\<lambda>w motd.
     obind (write (writeln motd) w) (\<lambda>w _.
     write (prompt sh) w))"

text \<open>The handler's state: the shell, the scheduler its \<^verbatim>\<open>fork\<close> command changes, and the port.\<close>

record 'd shell_state =
  st_shell :: shell
  st_sched :: scheduler
  st_dev :: 'd

definition lift_dev ::
    "('d \<Rightarrow> ('d \<times> 'a result) option) \<Rightarrow> 'd shell_state \<Rightarrow> ('d shell_state \<times> 'a result) option" where
  "lift_dev f st = map_option (\<lambda>(d, r). (st\<lparr>st_dev := d\<rparr>, r)) (f (st_dev st))"

definition put :: "'d ports \<Rightarrow> serial \<Rightarrow> rstr \<Rightarrow> 'd shell_state \<Rightarrow> ('d shell_state \<times> unit result) option" where
  "put io s text st = lift_dev (serial_write_fmt io s text) st"

fun put_all :: "'d ports \<Rightarrow> serial \<Rightarrow> rstr list \<Rightarrow> 'd shell_state \<Rightarrow> ('d shell_state \<times> unit result) option" where
  "put_all io s [] st = Some (st, Inr ())"
| "put_all io s (t # ts) st = obind (put io s t st) (\<lambda>st _. put_all io s ts st)"

definition help_lines :: "rstr list" where
  "help_lines =
    [lit ''Available commands:'',
     9 # lit ''echo     -- Display a line of text.'',
     9 # lit ''fork     -- Create child process.'',
     9 # lit ''help     -- Print a list of commands.'',
     9 # lit ''id       -- Print user and group ID.'',
     9 # lit ''logs     -- Retrieve the system logs.'',
     9 # lit ''pwd      -- Print current working directory.'',
     9 # lit ''readelf  -- Read ELF executable file.'',
     9 # lit ''reboot   -- Reboot the operating system.'',
     9 # lit ''shutdown -- Shutdown the operating system.'',
     9 # lit ''time     -- Display the elapsed time.'']"

section \<open>The handler\<close>

definition run_command ::
    "initrd \<Rightarrow> timer \<Rightarrow> logger \<Rightarrow> 'd ports \<Rightarrow> serial \<Rightarrow> rstr \<Rightarrow> (rstr \<times> rstr) option \<Rightarrow> 'd shell_state
      \<Rightarrow> ('d shell_state \<times> unit result) option" where
  "run_command rd tm lg io s command input st =
     (let argument = (case input of Some pair \<Rightarrow> snd pair | None \<Rightarrow> []) in
      if command = lit ''echo'' then put io s (writeln argument) st
      else if command = lit ''fork'' then
        (case sys_fork (st_sched st) of
           Inl p \<Rightarrow> Some (st, Inl p)
         | Inr (sched, pid) \<Rightarrow>
             put io s (writeln (lit ''Created child process with ID #'' @ fmt_dec (unat pid) @ lit ''.''))
               (st\<lparr>st_sched := sched\<rparr>))
      else if command = lit ''help'' then put_all io s (map writeln help_lines) st
      else if command = lit ''id'' then
        put io s (writeln (lit ''uid='' @ fmt_dec (unat (user_id (st_shell st))) @ lit ''(''
          @ username (st_shell st) @ lit '') gid='' @ fmt_dec (unat (group_id (st_shell st)))
          @ lit ''('' @ group (st_shell st) @ lit '')'')) st
      else if command = lit ''logs'' then
        put_all io s (map (\<lambda>g. writeln (fmt_log g)) (get_logs lg)) st
      else if command = lit ''pwd'' then put io s (writeln (working_directory (st_shell st))) st
      else if command = lit ''readelf'' then
        obind (Some (st, elf_new rd argument)) (\<lambda>st executable.
        put io s (writeln (fmt_elf executable)) st)
      else if command = lit ''reboot'' then
        put io s (writeln (lit ''Rebooting the operating system.'')) st
      else if command = lit ''shutdown'' then
        put io s (writeln (lit ''Shutting down the operating system.'')) st
      else if command = lit ''time'' then put io s (writeln (fmt_dec (unat (get_elapsed tm)))) st
      else put io s (writeln (RED @ lit ''ERROR: Command not found.'')) st)"

text \<open>The arm of the carriage return.\<close>

definition interpret_line ::
    "initrd \<Rightarrow> timer \<Rightarrow> logger \<Rightarrow> 'd ports \<Rightarrow> serial \<Rightarrow> 'd shell_state
      \<Rightarrow> ('d shell_state \<times> unit result) option" where
  "interpret_line rd tm lg io s st =
     (let line = buffer (st_shell st);
          input = split_once_whitespace line;
          command = (case input of Some pair \<Rightarrow> fst pair | None \<Rightarrow> line)
      in obind (put io s (writeln NORMAL) st) (\<lambda>st _.
         obind (run_command rd tm lg io s command input st) (\<lambda>st _.
         obind (put io s (prompt (st_shell st)) st) (\<lambda>st _.
         Some (st\<lparr>st_shell := (st_shell st)\<lparr>buffer := []\<rparr>\<rparr>, Inr ())))))"

definition interpret_character ::
    "initrd \<Rightarrow> timer \<Rightarrow> logger \<Rightarrow> 'd ports \<Rightarrow> serial \<Rightarrow> u8 \<Rightarrow> 'd shell_state
      \<Rightarrow> ('d shell_state \<times> unit result) option" where
  "interpret_character rd tm lg io s byte st =
     (let character = unat byte; sh = st_shell st in
      if character = 13 then interpret_line rd tm lg io s st
      else if character = 8 then
        if buffer sh \<noteq> [] then
          put io s ([character] @ lit '' '' @ [character])
            (st\<lparr>st_shell := sh\<lparr>buffer := butlast (buffer sh)\<rparr>\<rparr>)
        else Some (st, Inr ())
      else
        put io s [character] (st\<lparr>st_shell := sh\<lparr>buffer := buffer sh @ [character]\<rparr>\<rparr>))"

definition interpret_byte ::
    "initrd \<Rightarrow> timer \<Rightarrow> logger \<Rightarrow> 'd ports \<Rightarrow> serial \<Rightarrow> 'd shell_state
      \<Rightarrow> ('d shell_state \<times> unit result) option" where
  "interpret_byte rd tm lg io s st =
     obind (lift_dev (serial_read io s) st) (\<lambda>st byte. interpret_character rd tm lg io s byte st)"

section \<open>What the handler does on a line\<close>

text \<open>
  \<open>says\<close> is the outcome of a handler on a UART: it returns \<open>x\<close>, the state is \<open>st'\<close> up to the
  device, the bytes \<open>out\<close> were sent and the bytes \<open>rest\<close> still wait.
\<close>

definition line_ok :: "'d ports \<Rightarrow> serial \<Rightarrow> ('d \<Rightarrow> bool) \<Rightarrow> ('d \<Rightarrow> u8 list) \<Rightarrow> ('d \<Rightarrow> u8 list) \<Rightarrow> bool" where
  "line_ok io s ready sent inbox \<longleftrightarrow> uart io (s_address s) ready sent inbox \<and> s_address s \<le> 0xFFFA"

definition says ::
    "('d \<Rightarrow> bool) \<Rightarrow> ('d \<Rightarrow> u8 list) \<Rightarrow> ('d \<Rightarrow> u8 list) \<Rightarrow> 'd shell_state
      \<Rightarrow> ('d shell_state \<times> 'a result) option \<Rightarrow> u8 list \<Rightarrow> u8 list \<Rightarrow> 'd shell_state \<Rightarrow> 'a \<Rightarrow> bool" where
  "says ready sent inbox st r out rest st' x \<longleftrightarrow>
     (\<exists>d'. r = Some (st'\<lparr>st_dev := d'\<rparr>, Inr x) \<and> ready d' \<and> sent d' = sent (st_dev st) @ out \<and> inbox d' = rest)"

lemma says_bind:
  assumes "says ready sent inbox st r out rest st1 x"
    and "\<And>d'. ready d' \<Longrightarrow> inbox d' = rest \<Longrightarrow>
      says ready sent inbox (st1\<lparr>st_dev := d'\<rparr>) (f (st1\<lparr>st_dev := d'\<rparr>) x) out' rest' st2 y"
  shows "says ready sent inbox st (obind r f) (out @ out') rest' st2 y"
proof -
  obtain d' where d': "r = Some (st1\<lparr>st_dev := d'\<rparr>, Inr x)" "ready d'" "sent d' = sent (st_dev st) @ out"
      "inbox d' = rest"
    using assms(1) by (auto simp: says_def)
  from assms(2) [OF d'(2,4)] show ?thesis using d'(1,3) by (auto simp: says_def)
qed

lemma says_done: "ready (st_dev st) \<Longrightarrow> says ready sent inbox st (Some (st, Inr x)) [] (inbox (st_dev st)) st x"
  unfolding says_def by (rule exI [of _ "st_dev st"]) simp

lemma says_put:
  assumes "line_ok io s ready sent inbox" "ready (st_dev st)"
  shows "says ready sent inbox st (put io s t st) (crlf_bytes t) (inbox (st_dev st)) st ()"
  using serial_write_str_sends_bytes [of io s ready sent inbox "st_dev st" t] assms
  by (auto simp: line_ok_def sends_def says_def put_def lift_dev_def)

lemma says_put_all:
  assumes "line_ok io s ready sent inbox" "ready (st_dev st)"
  shows "says ready sent inbox st (put_all io s ts st) (crlf_bytes (concat ts)) (inbox (st_dev st)) st ()"
  using assms(2)
proof (induction ts arbitrary: st)
  case Nil
  then show ?case by (simp add: says_done)
next
  case (Cons t ts)
  have "says ready sent inbox (st\<lparr>st_dev := d'\<rparr>) (put_all io s ts (st\<lparr>st_dev := d'\<rparr>))
      (crlf_bytes (concat ts)) (inbox (st_dev st)) st ()"
    if "ready d'" "inbox d' = inbox (st_dev st)" for d'
    using Cons.IH [of "st\<lparr>st_dev := d'\<rparr>"] that by (simp add: says_def)
  from says_bind [OF says_put [OF assms(1) Cons.prems] this] show ?case by simp
qed

lemma says_read:
  assumes "line_ok io s ready sent inbox" "ready (st_dev st)" "inbox (st_dev st) = b # bs"
  shows "says ready sent inbox st (lift_dev (serial_read io s) st) [] bs st b"
  using serial_read_takes [of io s ready sent inbox "st_dev st" b bs] assms
  by (auto simp: line_ok_def sends_def says_def lift_dev_def)

text \<open>
  What each command replies, as a function of the line alone: the text between the reset sequence
  and the next prompt, and the scheduler afterwards.
\<close>

definition command_word :: "rstr \<Rightarrow> rstr" where
  "command_word line = takeWhile (\<lambda>c. \<not> is_whitespace c) line"

definition command_argument :: "rstr \<Rightarrow> rstr" where
  "command_argument line = drop 1 (dropWhile (\<lambda>c. \<not> is_whitespace c) line)"

definition command_reply ::
    "initrd \<Rightarrow> timer \<Rightarrow> logger \<Rightarrow> shell \<Rightarrow> rstr \<Rightarrow> scheduler \<Rightarrow> (scheduler \<times> rstr) result" where
  "command_reply rd tm lg sh line sched =
     (let word = command_word line; says = (\<lambda>t. Inr (sched, writeln t)) in
      if word = lit ''echo'' then says (command_argument line)
      else if word = lit ''fork'' then
        rbind (sys_fork sched) (\<lambda>(sched, pid).
        Inr (sched, writeln (lit ''Created child process with ID #'' @ fmt_dec (unat pid) @ lit ''.'')))
      else if word = lit ''help'' then Inr (sched, concat (map writeln help_lines))
      else if word = lit ''id'' then
        says (lit ''uid='' @ fmt_dec (unat (user_id sh)) @ lit ''('' @ username sh @ lit '') gid=''
          @ fmt_dec (unat (group_id sh)) @ lit ''('' @ group sh @ lit '')'')
      else if word = lit ''logs'' then Inr (sched, concat (map (\<lambda>g. writeln (fmt_log g)) (logs lg)))
      else if word = lit ''pwd'' then says (working_directory sh)
      else if word = lit ''readelf'' then
        rbind (elf_new rd (command_argument line)) (\<lambda>e. says (fmt_elf e))
      else if word = lit ''reboot'' then says (lit ''Rebooting the operating system.'')
      else if word = lit ''shutdown'' then says (lit ''Shutting down the operating system.'')
      else if word = lit ''time'' then says (fmt_dec (unat (get_elapsed tm)))
      else says (RED @ lit ''ERROR: Command not found.''))"

lemma split_line:
  "(case split_once_whitespace line of Some pair \<Rightarrow> fst pair | None \<Rightarrow> line) = command_word line"
  "(case split_once_whitespace line of Some pair \<Rightarrow> snd pair | None \<Rightarrow> []) = command_argument line"
proof -
  let ?rest = "dropWhile (\<lambda>c. \<not> is_whitespace c) line"
  have "takeWhile (\<lambda>c. \<not> is_whitespace c) line @ ?rest = line" by simp
  then have "takeWhile (\<lambda>c. \<not> is_whitespace c) line = line" if "?rest = []"
    unfolding that by simp
  note whole = this and defs = split_once_whitespace_def command_word_def command_argument_def
  have "(case split_once_whitespace line of Some pair \<Rightarrow> fst pair | None \<Rightarrow> line) = command_word line
    \<and> (case split_once_whitespace line of Some pair \<Rightarrow> snd pair | None \<Rightarrow> []) = command_argument line"
  proof (cases ?rest)
    case Nil
    show ?thesis
      by (simp only: defs Nil whole [OF Nil] list.case option.case drop_Nil simp_thms)
  next
    case (Cons c cs)
    show ?thesis
      by (simp only: defs Cons list.case option.case fst_conv snd_conv drop_Suc_Cons drop_0
          One_nat_def simp_thms)
  qed
  then show "(case split_once_whitespace line of Some pair \<Rightarrow> fst pair | None \<Rightarrow> line) = command_word line"
      "(case split_once_whitespace line of Some pair \<Rightarrow> snd pair | None \<Rightarrow> []) = command_argument line"
    by (rule conjunct1, rule conjunct2)
qed

lemma run_command_reply:
  assumes "line_ok io s ready sent inbox" "ready (st_dev st)"
    and "command_reply rd tm lg (st_shell st) line (st_sched st) = Inr (sched, reply)"
  shows "says ready sent inbox st
    (run_command rd tm lg io s (command_word line) (split_once_whitespace line) st)
    (crlf_bytes reply) (inbox (st_dev st)) (st\<lparr>st_sched := sched\<rparr>) ()"
proof -
  have put: "says ready sent inbox st (put io s t (st\<lparr>st_sched := sched\<rparr>)) (crlf_bytes t) (inbox (st_dev st))
      (st\<lparr>st_sched := sched\<rparr>) ()" for t sched
    using says_put [OF assms(1), of "st\<lparr>st_sched := sched\<rparr>" t] assms(2) by (simp add: says_def)
  have keep: "st\<lparr>st_sched := st_sched st\<rparr> = st" by simp
  note here = put [of _ "st_sched st", unfolded keep] says_put_all [OF assms(1,2)]
  show ?thesis
    using assms(3)
    by (auto simp: command_reply_def run_command_def Let_def split_line(2) get_logs_def here put
        split: if_splits)
qed

section \<open>Editing and running lines\<close>

text \<open>The line editor on the typed bytes: what is in the buffer, and what is echoed.\<close>

fun edit_line :: "rchar list \<Rightarrow> u8 list \<Rightarrow> rchar list" where
  "edit_line buf [] = buf"
| "edit_line buf (k # ks) = edit_line (if k = 8 then butlast buf else buf @ [unat k]) ks"

fun echo_bytes :: "rchar list \<Rightarrow> u8 list \<Rightarrow> u8 list" where
  "echo_bytes buf [] = []"
| "echo_bytes buf (k # ks) =
     (if k = 8 then (if buf = [] then [] else [8, 32, 8]) @ echo_bytes (butlast buf) ks
      else crlf_bytes [unat k] @ echo_bytes (buf @ [unat k]) ks)"

text \<open>One interrupt per byte.\<close>

fun interpret_bytes ::
    "nat \<Rightarrow> initrd \<Rightarrow> timer \<Rightarrow> logger \<Rightarrow> 'd ports \<Rightarrow> serial \<Rightarrow> 'd shell_state
      \<Rightarrow> ('d shell_state \<times> unit result) option" where
  "interpret_bytes 0 rd tm lg io s st = Some (st, Inr ())"
| "interpret_bytes (Suc n) rd tm lg io s st =
     obind (interpret_byte rd tm lg io s st) (\<lambda>st _. interpret_bytes n rd tm lg io s st)"

lemma byte_eqs: "unat k = 13 \<longleftrightarrow> k = 13" "unat k = 8 \<longleftrightarrow> k = 8" for k :: u8
  by (auto dest: arg_cong [of _ _ unat] intro: unsigned_word_eqI)

lemma interpret_key:
  assumes "line_ok io s ready sent inbox" "ready (st_dev st)" "inbox (st_dev st) = k # ks" "k \<noteq> 13"
  shows "says ready sent inbox st (interpret_byte rd tm lg io s st)
    (echo_bytes (buffer (st_shell st)) [k]) ks
    (st\<lparr>st_shell := (st_shell st)\<lparr>buffer := edit_line (buffer (st_shell st)) [k]\<rparr>\<rparr>) ()"
proof -
  let ?buf = "buffer (st_shell st)"
  let ?st = "st\<lparr>st_shell := (st_shell st)\<lparr>buffer := edit_line ?buf [k]\<rparr>\<rparr>"
  have put: "says ready sent inbox (st\<lparr>st_dev := d'\<rparr>) (put io s t (st\<lparr>st_dev := d', st_shell := sh\<rparr>))
      (crlf_bytes t) ks (st\<lparr>st_shell := sh\<rparr>) ()"
    if "ready d'" "inbox d' = ks" for d' t sh
    using says_put [OF assms(1), of "st\<lparr>st_dev := d', st_shell := sh\<rparr>" t] that by (simp add: says_def)
  have idle: "says ready sent inbox (st\<lparr>st_dev := d'\<rparr>) (Some (st\<lparr>st_dev := d'\<rparr>, Inr ())) [] ks st ()"
    if "ready d'" "inbox d' = ks" for d'
    unfolding says_def by (rule exI [of _ d']) (simp add: that)
  have same: "(st_shell st)\<lparr>buffer := []\<rparr> = st_shell st" if "?buf = []"
    using that by simp
  have "says ready sent inbox st (interpret_byte rd tm lg io s st) ([] @ echo_bytes ?buf [k]) ks ?st ()"
    unfolding interpret_byte_def
  proof (rule says_bind [OF says_read [OF assms(1-3)]])
    fix d'
    assume d': "ready d'" "inbox d' = ks"
    show "says ready sent inbox (st\<lparr>st_dev := d'\<rparr>) (interpret_character rd tm lg io s k (st\<lparr>st_dev := d'\<rparr>))
       (echo_bytes ?buf [k]) ks ?st ()"
      using put [OF d', of "[8, 32, 8]"] put [OF d', of "[unat k]"] idle [OF d'] assms(4)
      by (cases "k = 8"; cases "?buf = []") (auto simp: interpret_character_def Let_def byte_eqs same)
  qed
  then show ?thesis by simp
qed

lemma echo_bytes_step:
  "echo_bytes buf (k # ks) = echo_bytes buf [k] @ echo_bytes (edit_line buf [k]) ks"
  by simp

lemma interpret_keys:
  assumes "line_ok io s ready sent inbox" "13 \<notin> set keys" "ready (st_dev st)"
    and "inbox (st_dev st) = keys @ rest"
  shows "says ready sent inbox st (interpret_bytes (length keys) rd tm lg io s st)
    (echo_bytes (buffer (st_shell st)) keys) rest
    (st\<lparr>st_shell := (st_shell st)\<lparr>buffer := edit_line (buffer (st_shell st)) keys\<rparr>\<rparr>) ()"
  using assms(2-)
proof (induction keys arbitrary: st)
  case Nil
  then show ?case by (simp add: says_def) (metis shell_state.surjective shell_state.update_convs(3))
next
  case (Cons k ks)
  let ?st = "st\<lparr>st_shell := (st_shell st)\<lparr>buffer := edit_line (buffer (st_shell st)) [k]\<rparr>\<rparr>"
  have "says ready sent inbox st (interpret_byte rd tm lg io s st)
      (echo_bytes (buffer (st_shell st)) [k]) (ks @ rest) ?st ()"
    by (rule interpret_key [OF assms(1)]) (use Cons.prems in auto)
  moreover have "says ready sent inbox (?st\<lparr>st_dev := d'\<rparr>) (interpret_bytes (length ks) rd tm lg io s (?st\<lparr>st_dev := d'\<rparr>))
      (echo_bytes (edit_line (buffer (st_shell st)) [k]) ks) rest
      (st\<lparr>st_shell := (st_shell st)\<lparr>buffer := edit_line (buffer (st_shell st)) (k # ks)\<rparr>\<rparr>) ()"
    if "ready d'" "inbox d' = ks @ rest" for d'
    using Cons.IH [of "?st\<lparr>st_dev := d'\<rparr>"] Cons.prems(1) that by (simp add: says_def)
  ultimately show ?case
    unfolding echo_bytes_step [of _ k ks] by (simp add: says_bind)
qed

text \<open>The arm of the carriage return, step by step: the reset sequence, the reply, the prompt.\<close>

lemma prompt_says:
  assumes "line_ok io s ready sent inbox" "ready (st_dev st)" "inbox (st_dev st) = rest"
  shows "says ready sent inbox st
    (obind (put io s (prompt (st_shell st)) st) (\<lambda>st _. Some (st\<lparr>st_shell := (st_shell st)\<lparr>buffer := []\<rparr>\<rparr>, Inr ())))
    (crlf_bytes (prompt (st_shell st))) rest (st\<lparr>st_shell := (st_shell st)\<lparr>buffer := []\<rparr>\<rparr>) ()"
proof -
  have cleared: "says ready sent inbox (st\<lparr>st_dev := d'\<rparr>)
      (Some ((st\<lparr>st_dev := d'\<rparr>)\<lparr>st_shell := (st_shell (st\<lparr>st_dev := d'\<rparr>))\<lparr>buffer := []\<rparr>\<rparr>, Inr ()))
      [] rest (st\<lparr>st_shell := (st_shell st)\<lparr>buffer := []\<rparr>\<rparr>) ()" if "ready d'" "inbox d' = rest" for d'
    unfolding says_def by (rule exI [of _ d']) (simp add: that)
  have "says ready sent inbox st
    (obind (put io s (prompt (st_shell st)) st) (\<lambda>st _. Some (st\<lparr>st_shell := (st_shell st)\<lparr>buffer := []\<rparr>\<rparr>, Inr ())))
    (crlf_bytes (prompt (st_shell st)) @ []) rest (st\<lparr>st_shell := (st_shell st)\<lparr>buffer := []\<rparr>\<rparr>) ()"
    by (rule says_bind [OF says_put [OF assms(1,2), unfolded assms(3)]]) (rule cleared)
  then show ?thesis by simp
qed

lemma interpret_line_says:
  assumes "line_ok io s ready sent inbox" "ready (st_dev st)" "inbox (st_dev st) = rest"
    and "command_reply rd tm lg (st_shell st) (buffer (st_shell st)) (st_sched st) = Inr (sched, reply)"
  shows "says ready sent inbox st (interpret_line rd tm lg io s st)
    (crlf_bytes (writeln NORMAL) @ crlf_bytes reply @ crlf_bytes (prompt (st_shell st))) rest
    (st\<lparr>st_shell := (st_shell st)\<lparr>buffer := []\<rparr>, st_sched := sched\<rparr>) ()"
proof -
  let ?line = "buffer (st_shell st)"
  let ?final = "st\<lparr>st_shell := (st_shell st)\<lparr>buffer := []\<rparr>, st_sched := sched\<rparr>"
  let ?prompt = "\<lambda>st _. obind (put io s (prompt (st_shell st)) st)
    (\<lambda>st _. Some (st\<lparr>st_shell := (st_shell st)\<lparr>buffer := []\<rparr>\<rparr>, Inr ()))"
  let ?run = "\<lambda>st _. obind (run_command rd tm lg io s (command_word ?line) (split_once_whitespace ?line) st) ?prompt"
  have prompted: "says ready sent inbox (st\<lparr>st_sched := sched, st_dev := d\<rparr>)
      (?prompt (st\<lparr>st_sched := sched, st_dev := d\<rparr>) ()) (crlf_bytes (prompt (st_shell st))) rest ?final ()"
    if "ready d" "inbox d = rest" for d
  proof -
    have swap: "st\<lparr>st_sched := sched, st_shell := sh, st_dev := d'\<rparr> = st\<lparr>st_shell := sh, st_sched := sched, st_dev := d'\<rparr>"
      for sh d' by simp
    show ?thesis
      using prompt_says [OF assms(1), of "st\<lparr>st_sched := sched, st_dev := d\<rparr>" rest] that
      by (simp add: says_def swap)
  qed
  have run: "says ready sent inbox (st\<lparr>st_dev := d\<rparr>)
      (run_command rd tm lg io s (command_word ?line) (split_once_whitespace ?line) (st\<lparr>st_dev := d\<rparr>))
      (crlf_bytes reply) rest (st\<lparr>st_sched := sched\<rparr>) ()" if "ready d" "inbox d = rest" for d
    using run_command_reply [OF assms(1), of "st\<lparr>st_dev := d\<rparr>" rd tm lg ?line] assms(4) that
    by (simp add: says_def)
  have ran: "says ready sent inbox (st\<lparr>st_dev := d\<rparr>) (?run (st\<lparr>st_dev := d\<rparr>) ())
      (crlf_bytes reply @ crlf_bytes (prompt (st_shell st))) rest ?final ()" if "ready d" "inbox d = rest" for d
    by (rule says_bind [OF run [OF that]]) (rule prompted)
  show ?thesis
    unfolding interpret_line_def Let_def split_line(1)
    by (rule says_bind [OF says_put [OF assms(1,2), unfolded assms(3)]]) (rule ran)
qed

lemma interpret_enter:
  assumes "line_ok io s ready sent inbox" "ready (st_dev st)" "inbox (st_dev st) = 13 # rest"
    and "command_reply rd tm lg (st_shell st) (buffer (st_shell st)) (st_sched st) = Inr (sched, reply)"
  shows "says ready sent inbox st (interpret_byte rd tm lg io s st)
    (crlf_bytes (writeln NORMAL @ reply @ prompt (st_shell st))) rest
    (st\<lparr>st_shell := (st_shell st)\<lparr>buffer := []\<rparr>, st_sched := sched\<rparr>) ()"
proof -
  have enter: "says ready sent inbox (st\<lparr>st_dev := d\<rparr>) (interpret_character rd tm lg io s 13 (st\<lparr>st_dev := d\<rparr>))
      (crlf_bytes (writeln NORMAL) @ crlf_bytes reply @ crlf_bytes (prompt (st_shell st))) rest
      (st\<lparr>st_shell := (st_shell st)\<lparr>buffer := []\<rparr>, st_sched := sched\<rparr>) ()" if "ready d" "inbox d = rest" for d
    using interpret_line_says [OF assms(1), of "st\<lparr>st_dev := d\<rparr>" rest rd tm lg sched reply] assms(4) that
    by (simp add: interpret_character_def says_def)
  have "says ready sent inbox st (interpret_byte rd tm lg io s st)
      ([] @ crlf_bytes (writeln NORMAL) @ crlf_bytes reply @ crlf_bytes (prompt (st_shell st))) rest
      (st\<lparr>st_shell := (st_shell st)\<lparr>buffer := []\<rparr>, st_sched := sched\<rparr>) ()"
    unfolding interpret_byte_def by (rule says_bind [OF says_read [OF assms(1-3)]]) (rule enter)
  then show ?thesis by simp
qed

lemma command_reply_buffer:
  "command_reply rd tm lg (sh\<lparr>buffer := b\<rparr>) line sched = command_reply rd tm lg sh line sched"
  by (cases sh) (simp add: command_reply_def cong: if_cong)

lemma interpret_bytes_add:
  "interpret_bytes (n + m) rd tm lg io s st
    = obind (interpret_bytes n rd tm lg io s st) (\<lambda>st _. interpret_bytes m rd tm lg io s st)"
  by (induction n arbitrary: st) (simp_all add: obind_assoc)

lemma obind_done: "obind m (\<lambda>s _. Some (s, Inr ())) = m"
  by (simp add: obind_def split: option.splits prod.splits sum.splits)

lemma interpret_bytes_last:
  "interpret_bytes (n + 1) rd tm lg io s st
    = obind (interpret_bytes n rd tm lg io s st) (\<lambda>st _. interpret_byte rd tm lg io s st)"
  unfolding interpret_bytes_add by (simp add: obind_done)

text \<open>
  Claim C7. A line typed at the serial console: the bytes up to the carriage return are edited
  into the line and echoed, backspaces included; the carriage return runs the command. The
  handler returns after the last byte, having sent the echo, the reset sequence, the command's
  reply and the prompt; the line is empty again, the scheduler is what the command made it, and
  bytes typed ahead are still waiting.
\<close>

theorem shell_session:
  assumes "uart io (s_address s) ready sent inbox" "s_address s \<le> 0xFFFA" "ready (st_dev st)"
    and "inbox (st_dev st) = keys @ 13 # rest" "13 \<notin> set keys" "buffer (st_shell st) = []"
    and "command_reply rd tm lg (st_shell st) (edit_line [] keys) (st_sched st) = Inr (sched, reply)"
  shows "\<exists>d'. interpret_bytes (length keys + 1) rd tm lg io s st
      = Some (st\<lparr>st_sched := sched, st_dev := d'\<rparr>, Inr ())
    \<and> ready d' \<and> inbox d' = rest
    \<and> sent d' = sent (st_dev st) @ echo_bytes [] keys
        @ crlf_bytes (writeln NORMAL @ reply @ prompt (st_shell st))"
proof -
  let ?st = "st\<lparr>st_shell := (st_shell st)\<lparr>buffer := edit_line [] keys\<rparr>\<rparr>"
  have line: "line_ok io s ready sent inbox" using assms(1,2) by (simp add: line_ok_def)
  have keys: "says ready sent inbox st (interpret_bytes (length keys) rd tm lg io s st)
      (echo_bytes [] keys) (13 # rest) ?st ()"
    using interpret_keys [OF line assms(5,3,4), of rd tm lg] assms(6) by simp
  have reply: "command_reply rd tm lg ((st_shell st)\<lparr>buffer := edit_line [] keys\<rparr>) (edit_line [] keys) (st_sched st)
      = Inr (sched, reply)"
    using assms(7) by (simp only: command_reply_buffer)
  have enter: "says ready sent inbox (?st\<lparr>st_dev := d\<rparr>) (interpret_byte rd tm lg io s (?st\<lparr>st_dev := d\<rparr>))
      (crlf_bytes (writeln NORMAL @ reply @ prompt (st_shell st))) rest (st\<lparr>st_sched := sched\<rparr>) ()"
    if "ready d" "inbox d = 13 # rest" for d
  proof -
    have "(st_shell st)\<lparr>buffer := []\<rparr> = st_shell st" using assms(6) by simp
    then show ?thesis
      using interpret_enter [OF line, of "?st\<lparr>st_dev := d\<rparr>" rest rd tm lg sched reply] reply that
      by (simp add: says_def)
  qed
  from says_bind [OF keys enter]
  have "says ready sent inbox st (interpret_bytes (length keys + 1) rd tm lg io s st)
      (echo_bytes [] keys @ crlf_bytes (writeln NORMAL @ reply @ prompt (st_shell st))) rest
      (st\<lparr>st_sched := sched\<rparr>) ()"
    unfolding interpret_bytes_last .
  then show ?thesis by (auto simp: says_def)
qed

lemma run_command_panics:
  assumes "command_reply rd tm lg (st_shell st) line (st_sched st) = Inl p"
  shows "run_command rd tm lg io s (command_word line) (split_once_whitespace line) st = Some (st, Inl p)"
  using assms
  by (auto simp: command_reply_def run_command_def Let_def split_line(2) rbind_Inl_iff split: if_splits)

lemma edit_line_plain: "8 \<notin> set keys \<Longrightarrow> edit_line buf keys = buf @ map unat keys"
  by (induction keys arbitrary: buf) auto

text \<open>
  The shell does not catch the panic of a command: typing \<^verbatim>\<open>readelf\<close> and a path that is
  not in the ramdisk panics in the interrupt handler, with \<^verbatim>\<open>unwrap\<close> on a missing file.
\<close>

theorem readelf_missing_panics:
  assumes "uart io (s_address s) ready sent inbox" "s_address s \<le> 0xFFFA" "ready (st_dev st)"
    and "inbox (st_dev st) = map word_of_nat (lit ''readelf '') @ path @ 13 # rest"
    and "8 \<notin> set path" "13 \<notin> set path" "buffer (st_shell st) = []"
    and "map unat path \<notin> fst ` set (initrd_contents rd)"
  shows "\<exists>st'. interpret_bytes (length path + 9) rd tm lg io s st = Some (st', Inl UnwrapNone)"
proof -
  let ?keys = "map word_of_nat (lit ''readelf '') @ path"
  let ?line = "lit ''readelf '' @ map unat path"
  have line: "line_ok io s ready sent inbox" using assms(1,2) by (simp add: line_ok_def)
  have "13 \<notin> set ?keys" "8 \<notin> set ?keys" using assms(5,6) by simp_all
  then obtain d where d: "interpret_bytes (length ?keys) rd tm lg io s st
      = Some (st\<lparr>st_shell := (st_shell st)\<lparr>buffer := ?line\<rparr>, st_dev := d\<rparr>, Inr ())"
      "ready d" "inbox d = 13 # rest"
    using interpret_keys [OF line, of ?keys st "13 # rest" rd tm lg] assms(3,4,7)
    by (auto simp: says_def edit_line_plain)
  let ?st = "st\<lparr>st_shell := (st_shell st)\<lparr>buffer := ?line\<rparr>, st_dev := d\<rparr>"
  have "elf_new rd (map unat path) = Inl UnwrapNone"
    using ramdisk.lookup_absent [OF assms(8)] by (simp add: elf_new_def)
  then have reply: "command_reply rd tm lg sh ?line sched = Inl UnwrapNone" for sh sched
    by (simp add: command_reply_def command_word_def command_argument_def is_whitespace_def)
  obtain d1 where d1: "lift_dev (serial_read io s) ?st = Some (?st\<lparr>st_dev := d1\<rparr>, Inr 13)" "ready d1"
    using says_read [OF line, of ?st 13 rest] d(2,3) by (auto simp: says_def)
  obtain d2 where "put io s (writeln NORMAL) (?st\<lparr>st_dev := d1\<rparr>) = Some (?st\<lparr>st_dev := d2\<rparr>, Inr ())"
    using says_put [OF line, of "?st\<lparr>st_dev := d1\<rparr>" "writeln NORMAL"] d1(2) by (auto simp: says_def)
  then have "interpret_byte rd tm lg io s ?st = Some (?st\<lparr>st_dev := d2\<rparr>, Inl UnwrapNone)"
    using d1(1) run_command_panics [OF reply, of io s "?st\<lparr>st_dev := d2\<rparr>"]
    by (simp add: interpret_byte_def interpret_character_def interpret_line_def Let_def split_line(1))
  then have "interpret_bytes (length ?keys + 1) rd tm lg io s st = Some (?st\<lparr>st_dev := d2\<rparr>, Inl UnwrapNone)"
    unfolding interpret_bytes_last d(1) by simp
  moreover have "length ?keys + 1 = length path + 9" by simp
  ultimately show ?thesis by metis
qed

section \<open>Reading the configuration\<close>

text \<open>The configuration files in their usual formats: one account, one group, one host name.\<close>

definition etc_passwd :: "rstr \<Rightarrow> rstr \<Rightarrow> u32 \<Rightarrow> u32 \<Rightarrow> rstr \<Rightarrow> rstr \<Rightarrow> rstr \<Rightarrow> rstr" where
  "etc_passwd user password uid gid gecos home rest =
     user @ 58 # password @ 58 # fmt_dec (unat uid) @ 58 # fmt_dec (unat gid) @ 58 # gecos
       @ 58 # home @ 58 # rest"

definition shell_prompt :: "rstr \<Rightarrow> rstr \<Rightarrow> rstr" where
  "shell_prompt user host = BOLD @ DEFAULT @ lit ''['' @ GREEN @ user @ lit ''@'' @ host @ lit '' ''
     @ BLUE @ lit ''~'' @ DEFAULT @ lit '']# ''"

lemma file_text_contents:
  "map_of (initrd_contents rd) path = Some (utf8_bytes s) \<Longrightarrow> \<forall>c\<in>set s. scalar_value c \<Longrightarrow>
     file_text rd path = Inr s"
  by (simp add: file_text_def ramdisk.lookup_present from_utf8_bytes)

lemma parse_u32_fmt_dec: "parse_u32 (fmt_dec (unat n)) = Inr n"
  using unat_bounds(3) [of n] by (simp add: parse_u32_def from_str_fmt_dec)

lemma shell_new_etc:
  assumes "map_of (initrd_contents rd) (lit ''initrd/etc/hostname'') = Some (utf8_bytes (host @ [10]))"
    and "map_of (initrd_contents rd) (lit ''initrd/etc/passwd'')
      = Some (utf8_bytes (etc_passwd user password uid gid gecos home rest))"
    and "map_of (initrd_contents rd) (lit ''initrd/etc/group'') = Some (utf8_bytes (gname @ 58 # members))"
    and "\<forall>c\<in>set (host @ user @ password @ gecos @ home @ rest @ gname @ members). scalar_value c"
    and "58 \<notin> set (user @ password @ gecos @ home @ gname)"
    and "host = [] \<or> \<not> is_whitespace (last host)"
  shows "shell_new rd = Inr \<lparr>buffer = [], group = gname, group_id = gid, prompt = shell_prompt user host,
    user_id = uid, username = user, working_directory = home\<rparr>"
proof -
  have digits: "58 \<notin> set (fmt_dec n)" "\<forall>c\<in>set (fmt_dec n). scalar_value c" for n
    by (auto dest!: fmt_dec_ascii)
  have "\<forall>c\<in>set (host @ [10]). scalar_value c" "\<forall>c\<in>set (gname @ 58 # members). scalar_value c"
      "\<forall>c\<in>set (etc_passwd user password uid gid gecos home rest). scalar_value c"
    using assms(4) digits(2) by (auto simp: etc_passwd_def)
  note texts = file_text_contents [OF assms(1) this(1)] file_text_contents [OF assms(3) this(2)]
    file_text_contents [OF assms(2) this(3)]
  have "split_terminator 58 (etc_passwd user password uid gid gecos home rest)
      = user # password # fmt_dec (unat uid) # fmt_dec (unat gid) # gecos # home # split_terminator 58 rest"
    using assms(5) digits(1) by (simp add: etc_passwd_def split_terminator_first)
  moreover have "split_terminator 58 (gname @ 58 # members) = gname # split_terminator 58 members"
    using assms(5) by (simp add: split_terminator_first)
  ultimately show ?thesis
    using texts trim_end_newline [OF assms(6)]
    by (simp add: shell_new_def iter_nth_def parse_u32_fmt_dec shell_prompt_def Let_def)
qed

text \<open>
  Claim C34. The shell takes its identity from \<^verbatim>\<open>/etc\<close>: from a host name file, a \<^verbatim>\<open>passwd\<close> entry and a
  \<^verbatim>\<open>group\<close> entry in their usual formats it gets the host name without the newline, user name, user
  and group number, home directory and group name, and builds the prompt from them.
\<close>

theorem shell_new_configuration:
  assumes "map_of (initrd_contents rd) (lit ''initrd/etc/hostname'') = Some (utf8_bytes (host @ [10]))"
    and "map_of (initrd_contents rd) (lit ''initrd/etc/passwd'')
      = Some (utf8_bytes (etc_passwd user password uid gid gecos home rest))"
    and "map_of (initrd_contents rd) (lit ''initrd/etc/group'') = Some (utf8_bytes (gname @ 58 # members))"
    and "\<forall>c\<in>set (host @ user @ password @ gecos @ home @ rest @ gname @ members). scalar_value c"
    and "58 \<notin> set (user @ password @ gecos @ home @ gname)"
    and "host = [] \<or> \<not> is_whitespace (last host)"
  shows "shell_new rd = Inr \<lparr>buffer = [], group = gname, group_id = gid, prompt = shell_prompt user host,
    user_id = uid, username = user, working_directory = home\<rparr>"
  by (rule shell_new_etc [OF assms])

section \<open>A concrete console\<close>

definition etc_disk :: initrd where
  "etc_disk = ramdisk_with
    [(lit ''initrd/etc/hostname'', utf8_bytes (lit ''localhost'' @ [10])),
     (lit ''initrd/etc/passwd'', utf8_bytes (etc_passwd (lit ''root'') (lit ''x'') 0 0 (lit ''Super User'')
        (lit ''/root'') (lit ''/bin/sh'' @ [10]))),
     (lit ''initrd/etc/group'', utf8_bytes (lit ''root'' @ 58 # lit ''x:0:'' @ [10]))]"

definition root_shell :: shell where
  "root_shell = \<lparr>buffer = [], group = lit ''root'', group_id = 0,
     prompt = shell_prompt (lit ''root'') (lit ''localhost''), user_id = 0, username = lit ''root'',
     working_directory = lit ''/root''\<rparr>"

lemma shell_new_configuration_witness: "shell_new etc_disk = Inr root_shell"
  unfolding root_shell_def
proof (rule shell_new_configuration)
  show "map_of (initrd_contents etc_disk) (lit ''initrd/etc/hostname'')
      = Some (utf8_bytes (lit ''localhost'' @ [10]))"
    by (simp add: etc_disk_def)
  show "map_of (initrd_contents etc_disk) (lit ''initrd/etc/passwd'')
      = Some (utf8_bytes (etc_passwd (lit ''root'') (lit ''x'') 0 0 (lit ''Super User'')
          (lit ''/root'') (lit ''/bin/sh'' @ [10])))"
    by (simp add: etc_disk_def)
  show "map_of (initrd_contents etc_disk) (lit ''initrd/etc/group'')
      = Some (utf8_bytes (lit ''root'' @ 58 # lit ''x:0:'' @ [10]))"
    by (simp add: etc_disk_def)
qed (simp_all add: is_whitespace_def)

definition console_state :: "u8 list \<Rightarrow> test_uart shell_state" where
  "console_state keys = \<lparr>st_shell = root_shell, st_sched = boot_scheduler,
     st_dev = \<lparr>line_out = [], line_in = keys, busy = 1\<rparr>\<rparr>"

lemma com1: "s_address (serial_new COM1) = 0x3F8"
  by (simp add: serial_new_def port_number_def)

text \<open>\<^verbatim>\<open>fork\<close> typed with a slip that is rubbed out.\<close>

lemma shell_session_witness:
  "\<exists>d'. interpret_bytes (length [102, 111, 114, 120, 8, 107] + 1) etc_disk timer_new logger_new test_ports
        (serial_new COM1) (console_state [102, 111, 114, 120, 8, 107, 13, 1])
      = Some ((console_state [102, 111, 114, 120, 8, 107, 13, 1])\<lparr>st_sched := forked_scheduler, st_dev := d'\<rparr>, Inr ())
    \<and> line_in d' = [1]"
proof -
  have "command_reply etc_disk timer_new logger_new root_shell
      (edit_line [] [102, 111, 114, 120, 8, 107]) boot_scheduler
    = Inr (forked_scheduler, writeln (lit ''Created child process with ID #'' @ fmt_dec 2 @ lit ''.''))"
    by (simp add: command_reply_def command_word_def is_whitespace_def fork_boot)
  with shell_session [of test_ports "serial_new COM1" "\<lambda>_. True" line_out line_in
      "console_state [102, 111, 114, 120, 8, 107, 13, 1]" "[102, 111, 114, 120, 8, 107]" "[1]"
      etc_disk timer_new logger_new forked_scheduler]
  show ?thesis using test_uart_ok by (auto simp: com1 console_state_def root_shell_def)
qed

lemma readelf_missing_panics_witness:
  "\<exists>st'. interpret_bytes (length [110, 111 :: u8] + 9) etc_disk timer_new logger_new test_ports
      (serial_new COM1) (console_state (map word_of_nat (lit ''readelf '') @ [110, 111] @ [13]))
    = Some (st', Inl UnwrapNone)"
  by (rule readelf_missing_panics [of test_ports "serial_new COM1" "\<lambda>_. True" line_out line_in _ _ "[]"])
    (use test_uart_ok in \<open>simp_all add: com1 console_state_def root_shell_def etc_disk_def\<close>)

end
