(* ===== verification/Memory.thy ===== *)
theory Memory
  imports Kernel_Prelude
begin

text \<open>
  Memory initialisation, \<^verbatim>\<open>kernel/src/memory.rs\<close>: the frame allocator that hands out the usable
  pages of the boot loader's memory map one after the other, and the mapping of the kernel heap.
  The types and page-table operations of the \<^verbatim>\<open>x86_64\<close> crate are the parameter \<open>api\<close>; what the code
  relies on is stated in \<open>frames_align\<close>, \<open>pages_align\<close> and \<open>maps_pages\<close>. Frames and pages are named by
  their start addresses.
\<close>

section \<open>The frame allocator\<close>

datatype entry_type = USABLE | Unusable u64

record mem_entry =
  me_base :: u64
  me_length :: u64
  me_type :: entry_type

record physical_manager =
  memory_map :: "mem_entry list"
  pm_next :: usize

record 't paging =
  virt_new :: "u64 \<Rightarrow> u64 result"
    \<comment> \<open>\<^verbatim>\<open>VirtAddr::new\<close>\<close>
  virt_add :: "u64 \<Rightarrow> u64 \<Rightarrow> u64 result"
    \<comment> \<open>\<^verbatim>\<open>VirtAddr + u64\<close>\<close>
  virt_sub :: "u64 \<Rightarrow> u64 \<Rightarrow> u64 result"
    \<comment> \<open>\<^verbatim>\<open>VirtAddr - u64\<close>\<close>
  cr3 :: u64
    \<comment> \<open>the start address of the frame that \<^verbatim>\<open>Cr3::read\<close> returns\<close>
  offset_table :: "u64 \<Rightarrow> u64 \<Rightarrow> 't"
    \<comment> \<open>\<^verbatim>\<open>OffsetPageTable::new\<close> of the table at an address, for a memory offset\<close>
  frame_of :: "u64 \<Rightarrow> u64 result"
    \<comment> \<open>\<^verbatim>\<open>PhysFrame::containing_address(PhysAddr::new(x))\<close>\<close>
  page_of :: "u64 \<Rightarrow> u64 result"
    \<comment> \<open>\<^verbatim>\<open>Page::containing_address\<close>\<close>
  page_range :: "u64 \<Rightarrow> u64 \<Rightarrow> u64 list"
    \<comment> \<open>the pages of \<^verbatim>\<open>Page::range_inclusive\<close>\<close>
  map_to :: "u64 \<Rightarrow> u64 \<Rightarrow> 't \<times> physical_manager \<Rightarrow> ('t \<times> physical_manager) \<times> bool result"
    \<comment> \<open>\<^verbatim>\<open>Mapper::map_to\<close> of a page to a frame, present and writable; \<open>False\<close> is \<^verbatim>\<open>Err\<close>\<close>

text \<open>The boot loader's answer to the memory map request.\<close>

definition physical_new :: "mem_entry list option \<Rightarrow> physical_manager result" where
  "physical_new response =
     rbind (unwrap_option response) (\<lambda>entries. Inr \<lparr>memory_map = entries, pm_next = 0\<rparr>)"

text \<open>\<^verbatim>\<open>(base..end).step_by(4096)\<close>.\<close>

definition stepped :: "u64 \<Rightarrow> u64 \<Rightarrow> u64 list" where
  "stepped base end =
     map (\<lambda>i. base + word_of_nat (4096 * i)) [0..<(unat end - unat base + 4095) div 4096]"

text \<open>Applying the last closure of the iterator chain to its items, in order, up to the first panic.\<close>

fun map_items :: "('a \<Rightarrow> 'b result) \<Rightarrow> 'a list \<Rightarrow> 'b list result" where
  "map_items f [] = Inr []"
| "map_items f (x # xs) = rbind (f x) (\<lambda>y. rbind (map_items f xs) (\<lambda>ys. Inr (y # ys)))"

text \<open>
  \<^verbatim>\<open>usable_frames().nth(n)\<close>. The iterator is lazy: it reaches an entry, and computes its end, only
  when the entries before it are exhausted.
\<close>

fun nth_usable_frame :: "'t paging \<Rightarrow> mem_entry list \<Rightarrow> usize \<Rightarrow> u64 option result" where
  "nth_usable_frame api [] n = Inr None"
| "nth_usable_frame api (x # xs) n =
     (if me_type x = USABLE then
        rbind (checked_add (me_base x) (me_length x)) (\<lambda>end.
        let items = stepped (me_base x) end in
        rbind (map_items (frame_of api) (take (Suc n) items)) (\<lambda>frames.
        if n < length items then Inr (Some (last frames))
        else nth_usable_frame api xs (n - length items)))
      else nth_usable_frame api xs n)"

definition allocate_frame ::
    "'t paging \<Rightarrow> physical_manager \<Rightarrow> physical_manager \<times> u64 option result" where
  "allocate_frame api pm =
     sbind (pm, nth_usable_frame api (memory_map pm) (pm_next pm)) (\<lambda>pm frame.
     sbind (pm, usize_add (pm_next pm) 1) (\<lambda>pm n.
     (pm\<lparr>pm_next := n\<rparr>, Inr frame)))"

section \<open>Mapping the heap\<close>

text \<open>\<^verbatim>\<open>VirtualManager::new\<close>, for the boot loader's answer to the higher half request.\<close>

definition virtual_new :: "'t paging \<Rightarrow> u64 option \<Rightarrow> 't result" where
  "virtual_new api response =
     rbind (unwrap_option response) (\<lambda>offset.
     rbind (virt_new api offset) (\<lambda>physical_memory_offset.
     rbind (virt_add api physical_memory_offset (cr3 api)) (\<lambda>virtual_address.
     Inr (offset_table api virtual_address physical_memory_offset))))"

fun allocate_pages ::
    "'t paging \<Rightarrow> u64 list \<Rightarrow> 't \<times> physical_manager \<Rightarrow> ('t \<times> physical_manager) \<times> unit result" where
  "allocate_pages api [] s = (s, Inr ())"
| "allocate_pages api (page # pages) s =
     (case allocate_frame api (snd s) of
        (pm, Inl p) \<Rightarrow> ((fst s, pm), Inl p)
      | (pm, Inr frame) \<Rightarrow>
          sbind ((fst s, pm), unwrap_option frame) (\<lambda>s frame.
          sbind (map_to api page frame s) (\<lambda>s mapped.
          if mapped then allocate_pages api pages s else (s, Inl UnwrapErr))))"

definition HEAP_START :: u64 where [code_consts]: "HEAP_START = 0x444444440000"

definition HEAP_SIZE :: u64 where [code_consts]: "HEAP_SIZE = 4 * 1024 * 1024"

definition heap_range :: "'t paging \<Rightarrow> u64 list result" where
  "heap_range api =
     rbind (virt_new api HEAP_START) (\<lambda>heap_start.
     rbind (rbind (virt_add api heap_start HEAP_SIZE) (\<lambda>e. virt_sub api e 1)) (\<lambda>heap_end.
     rbind (page_of api heap_start) (\<lambda>heap_start_page.
     rbind (page_of api heap_end) (\<lambda>heap_end_page.
     Inr (page_range api heap_start_page heap_end_page)))))"

text \<open>
  \<^verbatim>\<open>memory::initialize\<close>: the heap's pages are mapped, with the two managers created by their first
  lock, and then the heap allocator gets its region, which is the value returned.
\<close>

definition memory_initialize ::
    "'t paging \<Rightarrow> u64 option \<Rightarrow> mem_entry list option
      \<Rightarrow> ('t \<times> physical_manager) option \<times> (u64 \<times> u64) result" where
  "memory_initialize api hhdm entries =
     (case rbind (heap_range api) (\<lambda>pages. rbind (virtual_new api hhdm) (\<lambda>table.
           rbind (physical_new entries) (\<lambda>pm. Inr (pages, table, pm)))) of
        Inl p \<Rightarrow> (None, Inl p)
      | Inr (pages, table, pm) \<Rightarrow>
          (case allocate_pages api pages (table, pm) of
             (s, Inl p) \<Rightarrow> (Some s, Inl p)
           | (s, Inr _) \<Rightarrow> (Some s, Inr (HEAP_START, HEAP_SIZE))))"

section \<open>Which frames are handed out\<close>

text \<open>
  What the crate documents: a physical address has at most 52 bits (\<^verbatim>\<open>PhysAddr::new\<close> panics
  otherwise), and the frame that contains it starts at the multiple of 4096 below it.
\<close>

definition frames_align :: "'t paging \<Rightarrow> bool" where
  "frames_align api \<longleftrightarrow> (\<forall>x. unat x < 2 ^ 52 \<longrightarrow> frame_of api x = Inr (word_of_nat (unat x div 4096 * 4096)))"

text \<open>
  What the boot protocol promises of usable entries: page aligned, within the physical address
  space, and not overlapping.
\<close>

definition entry_range :: "mem_entry \<Rightarrow> nat set" where
  "entry_range e = {unat (me_base e)..<unat (me_base e) + unat (me_length e)}"

definition usable :: "mem_entry list \<Rightarrow> mem_entry list" where
  "usable es = filter (\<lambda>e. me_type e = USABLE) es"

definition memory_map_ok :: "mem_entry list \<Rightarrow> bool" where
  "memory_map_ok es \<longleftrightarrow>
     (\<forall>e\<in>set (usable es). 4096 dvd unat (me_base e) \<and> 4096 dvd unat (me_length e)
        \<and> unat (me_base e) + unat (me_length e) \<le> 2 ^ 52)
     \<and> (\<forall>i j. i < j \<longrightarrow> j < length (usable es) \<longrightarrow>
          entry_range (usable es ! i) \<inter> entry_range (usable es ! j) = {})"

text \<open>The page-aligned addresses of an entry, and of all usable entries in order.\<close>

definition entry_pages :: "mem_entry \<Rightarrow> nat list" where
  "entry_pages e = map (\<lambda>i. unat (me_base e) + 4096 * i) [0..<unat (me_length e) div 4096]"

definition usable_pages :: "mem_entry list \<Rightarrow> nat list" where
  "usable_pages es = concat (map entry_pages (usable es))"

definition entry_ok :: "mem_entry \<Rightarrow> bool" where
  "entry_ok e \<longleftrightarrow> 4096 dvd unat (me_base e) \<and> 4096 dvd unat (me_length e)
     \<and> unat (me_base e) + unat (me_length e) \<le> 2 ^ 52"

lemma usable_simps [simp]:
  "usable [] = []"
  "usable (e # es) = (if me_type e = USABLE then e # usable es else usable es)"
  by (simp_all add: usable_def)

lemma usable_pages_simps [simp]:
  "usable_pages [] = []"
  "usable_pages (e # es) = (if me_type e = USABLE then entry_pages e @ usable_pages es else usable_pages es)"
  by (simp_all add: usable_pages_def)

lemma entry_pages_less:
  assumes "entry_ok e" "a \<in> set (entry_pages e)"
  shows "4096 dvd a" "a \<in> entry_range e" "a < 2 ^ 52"
proof -
  obtain i where i: "a = unat (me_base e) + 4096 * i" "i < unat (me_length e) div 4096"
    using assms(2) by (auto simp: entry_pages_def)
  obtain k where k: "unat (me_length e) = 4096 * k" using assms(1) by (auto simp: entry_ok_def)
  show "4096 dvd a" using assms(1) i(1) by (auto simp: entry_ok_def)
  show "a \<in> entry_range e" using i k by (simp add: entry_range_def)
  then show "a < 2 ^ 52" using assms(1) by (auto simp: entry_range_def entry_ok_def)
qed

lemma stepped_entry:
  assumes "entry_ok e"
  shows "stepped (me_base e) (me_base e + me_length e) = map word_of_nat (entry_pages e)"
proof -
  obtain k where k: "unat (me_length e) = 4096 * k" using assms by (auto simp: entry_ok_def)
  have "unat (me_base e) + unat (me_length e) < 2 ^ 64" using assms by (simp add: entry_ok_def)
  then have "unat (me_base e + me_length e) = unat (me_base e) + unat (me_length e)"
    by (simp add: unat_word_ariths)
  then have "(unat (me_base e + me_length e) - unat (me_base e) + 4095) div 4096 = unat (me_length e) div 4096"
    using k by simp
  then show ?thesis by (simp add: stepped_def entry_pages_def)
qed

lemma map_items_id: "(\<And>x. x \<in> set xs \<Longrightarrow> f x = Inr x) \<Longrightarrow> map_items f xs = Inr xs"
  by (induction xs) simp_all

lemma frame_of_page:
  assumes "frames_align api" "entry_ok e" "a \<in> set (entry_pages e)"
  shows "frame_of api (word_of_nat a) = Inr (word_of_nat a)"
proof -
  have a: "4096 dvd a" "a < 2 ^ 52" using entry_pages_less [OF assms(2,3)] by simp_all
  have u: "unat (word_of_nat a :: u64) = a" using a(2) by (simp add: unat_of_nat)
  have "frame_of api (word_of_nat a)
      = Inr (word_of_nat (unat (word_of_nat a :: u64) div 4096 * 4096))"
    using assms(1) a(2) u by (simp only: frames_align_def)
  then show ?thesis by (simp only: u dvd_div_mult_self [OF a(1)])
qed

lemma nth_usable_frame_pages:
  assumes "frames_align api" "\<forall>e\<in>set (usable es). entry_ok e"
  shows "nth_usable_frame api es n
    = Inr (if n < length (usable_pages es) then Some (word_of_nat (usable_pages es ! n)) else None)"
  using assms(2)
proof (induction es arbitrary: n)
  case Nil
  then show ?case by simp
next
  case (Cons e es)
  show ?case
  proof (cases "me_type e = USABLE")
    case True
    then have ok: "entry_ok e" "\<forall>e\<in>set (usable es). entry_ok e" using Cons.prems by auto
    let ?items = "map word_of_nat (entry_pages e) :: u64 list"
    have "checked_add (me_base e) (me_length e) = Inr (me_base e + me_length e)"
      using ok(1) by (simp add: checked_add_def entry_ok_def)
    moreover have "map_items (frame_of api) (take (Suc n) ?items) = Inr (take (Suc n) ?items)"
    proof -
      have "frame_of api x = Inr x" if x: "x \<in> set (take (Suc n) ?items)" for x
      proof -
        from x have "x \<in> set ?items" by (rule in_set_takeD)
        then obtain a where "a \<in> set (entry_pages e)" "x = word_of_nat a" by auto
        then show ?thesis using frame_of_page [OF assms(1) ok(1)] by simp
      qed
      then show ?thesis by (rule map_items_id)
    qed
    moreover have "last (take (Suc n) ?items) = word_of_nat (entry_pages e ! n)"
      if "n < length (entry_pages e)"
      using that by (simp add: take_Suc_conv_app_nth)
    ultimately show ?thesis
      using True Cons.IH [OF ok(2)]
      by (cases "n < length (entry_pages e)")
        (auto simp: stepped_entry [OF ok(1)] Let_def nth_append)
  next
    case False
    then show ?thesis using Cons by simp
  qed
qed

lemma memory_map_entries: "memory_map_ok es \<Longrightarrow> \<forall>e\<in>set (usable es). entry_ok e"
  by (simp add: memory_map_ok_def entry_ok_def)

lemma allocate_frame_next:
  assumes "frames_align api" "memory_map_ok (memory_map pm)" "pm_next pm < 2 ^ 64 - 1"
  shows "allocate_frame api pm = (pm\<lparr>pm_next := Suc (pm_next pm)\<rparr>,
    Inr (if pm_next pm < length (usable_pages (memory_map pm))
         then Some (word_of_nat (usable_pages (memory_map pm) ! pm_next pm)) else None))"
  using nth_usable_frame_pages [OF assms(1) memory_map_entries [OF assms(2)], of "pm_next pm"] assms(3)
  by (simp add: allocate_frame_def usize_add_def)

lemma distinct_entry_pages: "distinct (entry_pages e)"
  by (simp add: entry_pages_def distinct_map inj_on_def)

definition disjoint_entries :: "mem_entry list \<Rightarrow> bool" where
  "disjoint_entries us \<longleftrightarrow> (\<forall>i j. i < j \<longrightarrow> j < length us \<longrightarrow> entry_range (us ! i) \<inter> entry_range (us ! j) = {})"

lemma disjoint_entries_Cons:
  assumes "disjoint_entries (u # us)"
  shows "disjoint_entries us" "e \<in> set us \<Longrightarrow> entry_range u \<inter> entry_range e = {}"
proof -
  show "disjoint_entries us"
    unfolding disjoint_entries_def
  proof (intro allI impI)
    fix i j assume "i < j" "j < length us"
    then show "entry_range (us ! i) \<inter> entry_range (us ! j) = {}"
      using assms [unfolded disjoint_entries_def, rule_format, of "Suc i" "Suc j"] by simp
  qed
  show "entry_range u \<inter> entry_range e = {}" if e: "e \<in> set us"
  proof -
    obtain j where "j < length us" "e = us ! j" using e by (auto simp: in_set_conv_nth)
    then show ?thesis
      using assms [unfolded disjoint_entries_def, rule_format, of 0 "Suc j"] by simp
  qed
qed

lemma distinct_entries:
  "\<forall>e\<in>set us. entry_ok e \<Longrightarrow> disjoint_entries us \<Longrightarrow> distinct (concat (map entry_pages us))"
proof (induction us)
  case (Cons u us)
  have "distinct (concat (map entry_pages us))"
    using Cons.IH Cons.prems disjoint_entries_Cons(1) by simp
  moreover have "set (entry_pages u) \<inter> set (concat (map entry_pages us)) = {}"
    using Cons.prems(1) disjoint_entries_Cons(2) [OF Cons.prems(2)] entry_pages_less(2) by fastforce
  ultimately show ?case by (simp add: distinct_entry_pages)
qed simp

lemma distinct_usable_pages: "memory_map_ok es \<Longrightarrow> distinct (usable_pages es)"
  unfolding usable_pages_def
  by (intro distinct_entries memory_map_entries) (simp_all add: memory_map_ok_def disjoint_entries_def)

lemma set_entry_pages:
  assumes "entry_ok e"
  shows "set (entry_pages e) = {a. 4096 dvd a \<and> a \<in> entry_range e}"
proof -
  have "a \<in> set (entry_pages e)" if a: "4096 dvd a" "a \<in> entry_range e" for a
  proof -
    obtain b where b: "unat (me_base e) = 4096 * b" using assms by (auto simp: entry_ok_def)
    obtain l where l: "unat (me_length e) = 4096 * l" using assms by (auto simp: entry_ok_def)
    obtain c where c: "a = 4096 * c" using a(1) by (auto simp: dvd_def)
    have "b \<le> c" "c < b + l" using a(2) b l c by (auto simp: entry_range_def)
    then show ?thesis by (auto simp: entry_pages_def b l c intro!: image_eqI [of _ _ "c - b"])
  qed
  then show ?thesis using entry_pages_less [OF assms] by blast
qed

lemma set_usable_pages:
  assumes "memory_map_ok es"
  shows "set (usable_pages es) = {a. 4096 dvd a \<and> (\<exists>e\<in>set (usable es). a \<in> entry_range e)}"
  using set_entry_pages memory_map_entries [OF assms] by (auto simp: usable_pages_def)

lemma usable_pages_less: "memory_map_ok es \<Longrightarrow> a \<in> set (usable_pages es) \<Longrightarrow> a < 2 ^ 52"
  using entry_pages_less(3) memory_map_entries by (fastforce simp: usable_pages_def)


section \<open>The frame allocator as an interface\<close>

text \<open>Allocating \<open>n\<close> times in a row, with the results in order.\<close>

fun allocations :: "('s \<Rightarrow> 's \<times> 'f option result) \<Rightarrow> nat \<Rightarrow> 's \<Rightarrow> 's \<times> 'f option list result" where
  "allocations alloc 0 s = (s, Inr [])"
| "allocations alloc (Suc n) s =
     sbind (alloc s) (\<lambda>s f. sbind (allocations alloc n s) (\<lambda>s fs. (s, Inr (f # fs))))"

text \<open>
  What \<^verbatim>\<open>FrameAllocator\<close> promises its clients: while \<open>ready s n\<close>, \<open>n\<close> more calls each take the first
  of the frames that \<open>rest\<close> lists, or return \<^verbatim>\<open>None\<close> when there is none.
\<close>

locale frame_allocator =
  fixes alloc :: "'s \<Rightarrow> 's \<times> 'f option result"
    and rest :: "'s \<Rightarrow> 'f list"
    and ready :: "'s \<Rightarrow> nat \<Rightarrow> bool"
  assumes alloc_next: "ready s (Suc n) \<Longrightarrow>
    \<exists>s'. alloc s = (s', Inr (case rest s of [] \<Rightarrow> None | f # fs \<Rightarrow> Some f))
      \<and> rest s' = tl (rest s) \<and> ready s' n"
begin

lemma alloc_first:
  assumes "ready s (Suc n)" "rest s = f # fs"
  obtains s' where "alloc s = (s', Inr (Some f))" "rest s' = fs" "ready s' n"
  using alloc_next [OF assms(1)] assms(2) by auto

lemma allocations_rest:
  "ready s (n + m) \<Longrightarrow>
   \<exists>s'. allocations alloc n s = (s', Inr (map Some (take n (rest s)) @ replicate (n - length (rest s)) None))
     \<and> rest s' = drop n (rest s) \<and> ready s' m"
proof (induction n arbitrary: s)
  case (Suc n)
  from alloc_next [of s "n + m"] Suc.prems obtain s1 where
    s1: "alloc s = (s1, Inr (case rest s of [] \<Rightarrow> None | f # fs \<Rightarrow> Some f))"
      "rest s1 = tl (rest s)" "ready s1 (n + m)" by auto
  from Suc.IH [OF s1(3)] obtain s2 where
    s2: "allocations alloc n s1
        = (s2, Inr (map Some (take n (rest s1)) @ replicate (n - length (rest s1)) None))"
      "rest s2 = drop n (rest s1)" "ready s2 m" by blast
  show ?case using s1 s2 by (cases "rest s") auto
qed simp

lemma allocations_Some:
  assumes "ready s (n + m)" "n \<le> length (rest s)"
  obtains s' where "allocations alloc n s = (s', Inr (map Some (take n (rest s))))"
    "rest s' = drop n (rest s)" "ready s' m"
  using allocations_rest [OF assms(1)] assms(2) by auto

end

text \<open>The frames a manager has not handed out yet, and the provider's side of the interface.\<close>

definition frames_left :: "physical_manager \<Rightarrow> u64 list" where
  "frames_left pm = map word_of_nat (drop (pm_next pm) (usable_pages (memory_map pm)))"

definition manager_ready :: "'t paging \<Rightarrow> physical_manager \<Rightarrow> nat \<Rightarrow> bool" where
  "manager_ready api pm n \<longleftrightarrow>
     frames_align api \<and> memory_map_ok (memory_map pm) \<and> pm_next pm + n < 2 ^ 64"

interpretation frames: frame_allocator "allocate_frame api" frames_left "manager_ready api" for api
proof
  fix pm :: physical_manager and n
  assume "manager_ready api pm (Suc n)"
  then have ok: "frames_align api" "memory_map_ok (memory_map pm)" "pm_next pm + Suc n < 2 ^ 64"
    by (simp_all add: manager_ready_def)
  let ?us = "usable_pages (memory_map pm)"
  let ?pm = "pm\<lparr>pm_next := Suc (pm_next pm)\<rparr>"
  have "allocate_frame api pm
      = (?pm, Inr (if pm_next pm < length ?us then Some (word_of_nat (?us ! pm_next pm)) else None))"
    using ok by (intro allocate_frame_next) simp_all
  moreover have "(if pm_next pm < length ?us then Some (word_of_nat (?us ! pm_next pm)) else None)
      = (case frames_left pm of [] \<Rightarrow> None | f # fs \<Rightarrow> Some f)"
    by (cases "pm_next pm < length ?us") (simp_all add: frames_left_def Cons_nth_drop_Suc [symmetric])
  moreover have "frames_left ?pm = tl (frames_left pm)"
    by (simp add: frames_left_def drop_Suc drop_tl map_tl)
  moreover have "manager_ready api ?pm n" using ok by (simp add: manager_ready_def)
  ultimately show "\<exists>pm'. allocate_frame api pm = (pm', Inr (case frames_left pm of [] \<Rightarrow> None | f # fs \<Rightarrow> Some f))
      \<and> frames_left pm' = tl (frames_left pm) \<and> manager_ready api pm' n"
    by simp
qed

lemma unat_usable: "memory_map_ok es \<Longrightarrow> a \<in> set (usable_pages es) \<Longrightarrow> unat (word_of_nat a :: u64) = a"
  using usable_pages_less [of es a] by (simp add: unat_of_nat)

lemma distinct_usable_frames:
  assumes "memory_map_ok es"
  shows "distinct (map word_of_nat (usable_pages es) :: u64 list)"
  using distinct_usable_pages [OF assms] unat_usable [OF assms]
  by (auto simp: distinct_map inj_on_def) metis

lemma frames_left_distinct: "memory_map_ok (memory_map pm) \<Longrightarrow> distinct (frames_left pm)"
  using distinct_drop [OF distinct_usable_frames, of "memory_map pm" "pm_next pm"]
  by (simp add: frames_left_def drop_map)

definition usable_frame :: "mem_entry list \<Rightarrow> u64 \<Rightarrow> bool" where
  "usable_frame es f \<longleftrightarrow> 4096 dvd unat f \<and> (\<exists>e\<in>set es. me_type e = USABLE \<and> unat f \<in> entry_range e)"

lemma set_usable_frames:
  assumes "memory_map_ok es"
  shows "word_of_nat ` set (usable_pages es) = {f. usable_frame es f}"
proof -
  have "usable_frame es (word_of_nat a)" if "a \<in> set (usable_pages es)" for a
    using that unat_usable [OF assms that] set_usable_pages [OF assms]
    by (auto simp: usable_frame_def usable_def)
  moreover have "f \<in> word_of_nat ` set (usable_pages es)" if "usable_frame es f" for f
    using that set_usable_pages [OF assms]
    by (intro image_eqI [of _ _ "unat f"]) (auto simp: usable_frame_def usable_def)
  ultimately show ?thesis by blast
qed


section \<open>Mapped pages\<close>

text \<open>
  What the crate documents of pages and of the page table, for the lower half of the address space:
  \<open>tr\<close> reads the translation of a table, \<open>tables\<close> the frames its subtables occupy, and \<open>free\<close> says that
  a page is neither mapped nor inside a huge page. Mapping takes at most three frames from the
  allocator for new subtables, and fails only if the page is not free or a frame is missing.
\<close>

definition pages_align :: "'t paging \<Rightarrow> bool" where
  "pages_align api \<longleftrightarrow>
     (\<forall>x. unat x < 2 ^ 47 \<longrightarrow> virt_new api x = Inr x
        \<and> page_of api x = Inr (word_of_nat (unat x div 4096 * 4096)))
     \<and> (\<forall>x y. unat x + unat y < 2 ^ 47 \<longrightarrow> virt_add api x y = Inr (x + y))
     \<and> (\<forall>x y. unat y \<le> unat x \<and> unat x < 2 ^ 47 \<longrightarrow> virt_sub api x y = Inr (x - y))
     \<and> (\<forall>a n. unat a + 4096 * n < 2 ^ 47 \<longrightarrow>
          page_range api a (a + word_of_nat (4096 * n)) = map (\<lambda>i. a + word_of_nat (4096 * i)) [0..<Suc n])"

definition maps_pages ::
    "'t paging \<Rightarrow> ('t \<Rightarrow> u64 \<Rightarrow> u64 option) \<Rightarrow> ('t \<Rightarrow> u64 set) \<Rightarrow> ('t \<Rightarrow> u64 \<Rightarrow> bool) \<Rightarrow> bool" where
  "maps_pages api tr tables free \<longleftrightarrow>
     (\<forall>page frame t pm. free t page \<longrightarrow>
        (\<exists>k\<le>3. \<forall>pm' fs. allocations (allocate_frame api) k pm = (pm', Inr (map Some fs)) \<longrightarrow>
          (\<exists>t'. map_to api page frame (t, pm) = ((t', pm'), Inr True)
             \<and> tr t' = (tr t)(page \<mapsto> frame) \<and> tables t' = tables t \<union> set fs
             \<and> (\<forall>q. q \<noteq> page \<longrightarrow> free t q \<longrightarrow> free t' q))))"

lemma map_to_step:
  assumes maps: "maps_pages api tr tables free" and free: "free t page"
    and ready: "manager_ready api pm (3 + m)" and enough: "3 \<le> length (frames_left pm)"
  obtains k t' pm' where "k \<le> 3" "map_to api page frame (t, pm) = ((t', pm'), Inr True)"
    "tr t' = (tr t)(page \<mapsto> frame)" "tables t' = tables t \<union> set (take k (frames_left pm))"
    "\<forall>q. q \<noteq> page \<longrightarrow> free t q \<longrightarrow> free t' q"
    "frames_left pm' = drop k (frames_left pm)" "manager_ready api pm' m"
proof -
  obtain k where k: "k \<le> 3" and step:
    "\<forall>pm' fs. allocations (allocate_frame api) k pm = (pm', Inr (map Some fs)) \<longrightarrow>
       (\<exists>t'. map_to api page frame (t, pm) = ((t', pm'), Inr True)
          \<and> tr t' = (tr t)(page \<mapsto> frame) \<and> tables t' = tables t \<union> set fs
          \<and> (\<forall>q. q \<noteq> page \<longrightarrow> free t q \<longrightarrow> free t' q))"
    using maps free unfolding maps_pages_def by blast
  have "manager_ready api pm (k + m)" using ready k by (simp add: manager_ready_def)
  moreover have "k \<le> length (frames_left pm)" using k enough by simp
  ultimately obtain pm' where
    pm': "allocations (allocate_frame api) k pm = (pm', Inr (map Some (take k (frames_left pm))))"
      "frames_left pm' = drop k (frames_left pm)" "manager_ready api pm' m"
    by (rule frames.allocations_Some)
  from step pm'(1) obtain t' where "map_to api page frame (t, pm) = ((t', pm'), Inr True)"
    "tr t' = (tr t)(page \<mapsto> frame)" "tables t' = tables t \<union> set (take k (frames_left pm))"
    "\<forall>q. q \<noteq> page \<longrightarrow> free t q \<longrightarrow> free t' q" by blast
  with k pm' show thesis by (intro that)
qed

lemma allocate_pages_maps:
  assumes "maps_pages api tr tables free"
  shows "distinct pages \<Longrightarrow> \<forall>p\<in>set pages. free t p \<Longrightarrow> manager_ready api pm (4 * length pages) \<Longrightarrow>
    4 * length pages \<le> length (frames_left pm) \<Longrightarrow> distinct (frames_left pm) \<Longrightarrow>
    \<exists>t' pm' fs new. allocate_pages api pages (t, pm) = ((t', pm'), Inr ())
      \<and> tr t' = (tr t)(pages [\<mapsto>] fs) \<and> length fs = length pages \<and> distinct fs
      \<and> tables t' = tables t \<union> new \<and> set fs \<inter> new = {} \<and> set fs \<union> new \<subseteq> set (frames_left pm)"
proof (induction pages arbitrary: t pm)
  case Nil
  then show ?case by (auto intro!: exI [of _ "{}"])
next
  case (Cons page pages)
  obtain f R where R: "frames_left pm = f # R" using Cons.prems(4) by (cases "frames_left pm") auto
  have "manager_ready api pm (Suc (3 + 4 * length pages))" using Cons.prems(3) by (simp add: manager_ready_def)
  from frames.alloc_first [OF this R] obtain pm1 where
    pm1: "allocate_frame api pm = (pm1, Inr (Some f))" "frames_left pm1 = R"
      "manager_ready api pm1 (3 + 4 * length pages)" by blast
  have "free t page" "3 \<le> length (frames_left pm1)" using Cons.prems(2,4) R pm1(2) by simp_all
  from map_to_step [OF assms this(1) pm1(3) this(2), of f] obtain k t2 pm2 where
    two: "k \<le> 3" "map_to api page f (t, pm1) = ((t2, pm2), Inr True)"
      "tr t2 = (tr t)(page \<mapsto> f)" "tables t2 = tables t \<union> set (take k R)"
      "\<forall>q. q \<noteq> page \<longrightarrow> free t q \<longrightarrow> free t2 q"
      "frames_left pm2 = drop k R" "manager_ready api pm2 (4 * length pages)"
    using pm1(2) by metis
  have "\<forall>p\<in>set pages. free t2 p" using Cons.prems(1,2) two(5) by auto
  moreover have "4 * length pages \<le> length (frames_left pm2)" using Cons.prems(4) R two(1,6) by simp
  moreover have dR: "distinct R" "f \<notin> set R" using Cons.prems(5) R by auto
  then have "distinct (frames_left pm2)" using two(6) by simp
  ultimately obtain t' pm' fs new where
    ih: "allocate_pages api pages (t2, pm2) = ((t', pm'), Inr ())"
      "tr t' = (tr t2)(pages [\<mapsto>] fs)" "length fs = length pages" "distinct fs"
      "tables t' = tables t2 \<union> new" "set fs \<inter> new = {}" "set fs \<union> new \<subseteq> set (frames_left pm2)"
    using Cons.IH [of t2 pm2] Cons.prems(1) two(7) by auto
  have later: "set fs \<union> new \<subseteq> set (drop k R)" using ih(7) two(6) by simp
  have apart: "set (take k R) \<inter> set (drop k R) = {}"
    using dR(1) by (metis append_take_drop_id distinct_append)
  have inR: "set (drop k R) \<subseteq> set R" "set (take k R) \<subseteq> set R"
    by (simp_all add: set_drop_subset set_take_subset)
  have "allocate_pages api (page # pages) (t, pm) = ((t', pm'), Inr ())"
    using pm1(1) two(2) ih(1) by simp
  moreover have "tr t' = (tr t)(page # pages [\<mapsto>] f # fs)" using ih(2) two(3) by simp
  moreover have "distinct (f # fs)" using ih(4) later inR dR(2) by auto
  moreover have "tables t' = tables t \<union> (set (take k R) \<union> new)" using ih(5) two(4) by auto
  moreover have "set (f # fs) \<inter> (set (take k R) \<union> new) = {}"
    using ih(6) later apart inR dR(2) by auto
  moreover have "set (f # fs) \<union> (set (take k R) \<union> new) \<subseteq> set (frames_left pm)"
    using later inR R by auto
  ultimately show ?case using ih(3) by (metis length_Cons)
qed

definition heap_pages :: "u64 list" where
  "heap_pages = map (\<lambda>i. HEAP_START + word_of_nat (4096 * i)) [0..<1024]"

lemma heap_range_pages:
  assumes "pages_align api"
  shows "heap_range api = Inr heap_pages"
proof -
  have start: "unat HEAP_START = 0x444444440000" and size: "unat HEAP_SIZE = 4194304"
    by (simp_all add: HEAP_START_def HEAP_SIZE_def)
  have e: "HEAP_START + HEAP_SIZE - 1 = 0x44444483FFFF" "HEAP_START + HEAP_SIZE = 0x444444840000"
    by (simp_all add: HEAP_START_def HEAP_SIZE_def)
  have "virt_new api HEAP_START = Inr HEAP_START"
    using assms start by (simp add: pages_align_def)
  moreover have "virt_add api HEAP_START HEAP_SIZE = Inr 0x444444840000"
    using assms start size e(2) by (simp add: pages_align_def)
  moreover have "virt_sub api 0x444444840000 1 = Inr 0x44444483FFFF"
    using assms by (simp add: pages_align_def)
  moreover have "page_of api HEAP_START = Inr HEAP_START"
    using assms start by (simp add: pages_align_def HEAP_START_def)
  moreover have "page_of api 0x44444483FFFF = Inr (HEAP_START + word_of_nat (4096 * 1023))"
    using assms by (simp add: pages_align_def HEAP_START_def)
  moreover have "page_range api HEAP_START (HEAP_START + word_of_nat (4096 * 1023)) = heap_pages"
  proof -
    have "unat HEAP_START + 4096 * 1023 < 2 ^ 47" using start by simp
    then have "page_range api HEAP_START (HEAP_START + word_of_nat (4096 * 1023))
        = map (\<lambda>i. HEAP_START + word_of_nat (4096 * i)) [0..<Suc 1023]"
      using assms unfolding pages_align_def by blast
    moreover have "Suc 1023 = (1024 :: nat)" by simp
    ultimately show ?thesis by (simp only: heap_pages_def)
  qed
  ultimately show ?thesis by (simp add: heap_range_def)
qed


section \<open>Properties\<close>

text \<open>
  Claim C13. A fresh manager hands out every page of the usable regions exactly once: \<open>n\<close> allocations
  return distinct, page-aligned frames inside usable regions, then \<^verbatim>\<open>None\<close> for ever, and \<^verbatim>\<open>None\<close> comes
  only after all the usable pages have been returned.
\<close>

theorem allocate_frame_exactly_once:
  assumes "frames_align api" "memory_map_ok es" "physical_new (Some es) = Inr pm" "n < 2 ^ 64"
  shows "\<exists>pm' fs. allocations (allocate_frame api) n pm
      = (pm', Inr (map Some fs @ replicate (n - length fs) None))
    \<and> length fs \<le> n \<and> distinct fs \<and> (\<forall>f\<in>set fs. usable_frame es f)
    \<and> (length fs < n \<longrightarrow> set fs = {f. usable_frame es f})"
proof -
  have pm: "pm = \<lparr>memory_map = es, pm_next = 0\<rparr>" using assms(3) by (simp add: physical_new_def)
  have "manager_ready api pm (n + 0)" using assms pm by (simp add: manager_ready_def)
  from frames.allocations_rest [OF this] obtain pm' where
    run: "allocations (allocate_frame api) n pm = (pm', Inr (map Some (take n (frames_left pm))
      @ replicate (n - length (frames_left pm)) None))" by blast
  have rest: "distinct (frames_left pm)" "set (frames_left pm) = {f. usable_frame es f}"
    using frames_left_distinct [of pm] set_usable_frames [OF assms(2)] assms(2) pm
    by (simp_all add: frames_left_def)
  show ?thesis
    using run rest set_take_subset [of n "frames_left pm"]
    by (intro exI [of _ pm'] exI [of _ "take n (frames_left pm)"]) (auto simp: min_def)
qed

lemma memory_initialize_maps:
  assumes "frames_align api" "pages_align api" "maps_pages api tr tables free"
    and "memory_map_ok es" "4096 \<le> length (usable_pages es)"
    and "virtual_new api hhdm = Inr t" "\<forall>p\<in>set heap_pages. free t p"
    and "tables t \<inter> {f. usable_frame es f} = {}"
  shows "\<exists>t' pm' fs. memory_initialize api hhdm (Some es) = (Some (t', pm'), Inr (HEAP_START, HEAP_SIZE))
    \<and> tr t' = (tr t)(heap_pages [\<mapsto>] fs) \<and> length fs = 1024 \<and> distinct fs
    \<and> (\<forall>f\<in>set fs. usable_frame es f \<and> f \<notin> tables t')"
proof -
  define pm where "pm = \<lparr>memory_map = es, pm_next = 0\<rparr>"
  have len: "length heap_pages = 1024" by (simp add: heap_pages_def)
  have "inj_on (\<lambda>i. HEAP_START + word_of_nat (4096 * i)) {0..<1024}"
  proof (rule inj_onI)
    fix i j :: nat
    assume ij: "i \<in> {0..<1024}" "j \<in> {0..<1024}"
      and "HEAP_START + word_of_nat (4096 * i) = HEAP_START + word_of_nat (4096 * j)"
    then have "unat (word_of_nat (4096 * i) :: u64) = unat (word_of_nat (4096 * j) :: u64)"
      by (simp only: add_left_cancel)
    with ij show "i = j" by (simp only: unat_of_nat) simp
  qed
  then have d: "distinct heap_pages" by (simp add: heap_pages_def distinct_map)
  have ready: "manager_ready api pm (4 * length heap_pages)"
    using assms(1,4) len by (simp add: manager_ready_def pm_def)
  have rest: "distinct (frames_left pm)" "set (frames_left pm) = {f. usable_frame es f}"
    "4 * length heap_pages \<le> length (frames_left pm)"
    using frames_left_distinct [of pm] set_usable_frames [OF assms(4)] assms(4,5) len
    by (simp_all add: frames_left_def pm_def)
  obtain t' pm' fs new where
    run: "allocate_pages api heap_pages (t, pm) = ((t', pm'), Inr ())"
      "tr t' = (tr t)(heap_pages [\<mapsto>] fs)" "length fs = length heap_pages" "distinct fs"
      "tables t' = tables t \<union> new" "set fs \<inter> new = {}" "set fs \<union> new \<subseteq> set (frames_left pm)"
    using allocate_pages_maps [OF assms(3) d assms(7) ready rest(3,1)] by blast
  have "memory_initialize api hhdm (Some es) = (Some (t', pm'), Inr (HEAP_START, HEAP_SIZE))"
    using heap_range_pages [OF assms(2)] assms(6) run(1)
    by (simp add: memory_initialize_def physical_new_def pm_def)
  moreover have "\<forall>f\<in>set fs. usable_frame es f \<and> f \<notin> tables t'"
    using run(5,6,7) rest(2) assms(8) by blast
  ultimately show ?thesis using run(2,3,4) len by auto
qed

text \<open>
  Claim C5. With at least 4096 usable pages, and page tables outside usable memory, initialisation
  maps each of the heap's 1024 pages, from \<open>HEAP_START\<close> on, to a usable frame of its own, disjoint from
  every frame of the page tables, changes no other translation, and gives the heap allocator exactly
  the mapped region.
\<close>

theorem memory_initialize_heap:
  assumes "frames_align api" "pages_align api" "maps_pages api tr tables free"
    and "memory_map_ok es" "4096 \<le> length (usable_pages es)"
    and "virtual_new api hhdm = Inr t" "\<forall>p\<in>set heap_pages. free t p"
    and "tables t \<inter> {f. usable_frame es f} = {}"
  shows "\<exists>t' pm' fs. memory_initialize api hhdm (Some es) = (Some (t', pm'), Inr (HEAP_START, HEAP_SIZE))
    \<and> tr t' = (tr t)(heap_pages [\<mapsto>] fs) \<and> length fs = 1024 \<and> distinct fs
    \<and> (\<forall>f\<in>set fs. usable_frame es f \<and> f \<notin> tables t')"
  by (rule memory_initialize_maps [OF assms])


text \<open>
  A concrete instance: page tables as a map of pages and the set of frames they occupy, where every
  mapping takes one frame for a subtable; and a memory map with 32 MiB of usable memory.
\<close>

definition flat_base :: "((u64 \<rightharpoonup> u64) \<times> u64 set) paging" where
  "flat_base = \<lparr>virt_new = Inr, virt_add = (\<lambda>x y. Inr (x + y)), virt_sub = (\<lambda>x y. Inr (x - y)),
     cr3 = 0x1000, offset_table = (\<lambda>_ _. (Map.empty, {0x1000})),
     frame_of = (\<lambda>x. Inr (word_of_nat (unat x div 4096 * 4096))),
     page_of = (\<lambda>x. Inr (word_of_nat (unat x div 4096 * 4096))),
     page_range = (\<lambda>a b. map (\<lambda>i. a + word_of_nat (4096 * i)) [0..<Suc (unat (b - a) div 4096)]),
     map_to = (\<lambda>_ _ s. (s, Inr False))\<rparr>"

definition flat_api :: "((u64 \<rightharpoonup> u64) \<times> u64 set) paging" where
  "flat_api = flat_base\<lparr>map_to := (\<lambda>page frame (t, pm).
     if fst t page \<noteq> None then ((t, pm), Inr False)
     else (case allocate_frame flat_base pm of
         (pm, Inl p) \<Rightarrow> ((t, pm), Inl p)
       | (pm, Inr None) \<Rightarrow> ((t, pm), Inr False)
       | (pm, Inr (Some f)) \<Rightarrow> ((((fst t)(page \<mapsto> frame), insert f (snd t)), pm), Inr True)))\<rparr>"

definition flat_map :: "mem_entry list" where
  "flat_map = [\<lparr>me_base = 0, me_length = 0x100000, me_type = Unusable 1\<rparr>,
     \<lparr>me_base = 0x100000, me_length = 0x2000000, me_type = USABLE\<rparr>]"

lemma allocate_frame_cong:
  assumes "frame_of a = frame_of b"
  shows "allocate_frame a pm = allocate_frame b pm"
proof -
  have "nth_usable_frame a es n = nth_usable_frame b es n" for es n
    using assms by (induction es arbitrary: n) (simp_all add: Let_def cong: if_cong)
  then show ?thesis by (simp add: allocate_frame_def)
qed

lemma flat_frames: "allocate_frame flat_api = allocate_frame flat_base"
  by (intro ext allocate_frame_cong) (simp add: flat_api_def flat_base_def)

lemma flat_frames_align: "frames_align flat_api"
  by (simp add: frames_align_def flat_api_def flat_base_def)

lemma flat_pages_align: "pages_align flat_api"
proof -
  have "unat (word_of_nat (4096 * n) :: u64) = 4096 * n" if "unat (a :: u64) + 4096 * n < 2 ^ 47" for a n
    using that by (simp only: unat_of_nat) simp
  then show ?thesis by (auto simp: pages_align_def flat_api_def flat_base_def simp del: of_nat_mult upt_Suc)
qed

lemma flat_maps_pages: "maps_pages flat_api fst snd (\<lambda>t q. fst t q = None)"
  unfolding maps_pages_def
proof (intro allI impI exI [of _ 1] conjI)
  fix page frame pm pm' fs and t :: "(u64 \<rightharpoonup> u64) \<times> u64 set"
  assume free: "fst t page = None"
    and run: "allocations (allocate_frame flat_api) 1 pm = (pm', Inr (map Some fs))"
  obtain f where f: "allocate_frame flat_base pm = (pm', Inr (Some f))" "fs = [f]"
    using run by (auto simp: flat_frames sbind_def split: sum.splits prod.splits)
  show "\<exists>t'. map_to flat_api page frame (t, pm) = ((t', pm'), Inr True)
     \<and> fst t' = (fst t)(page \<mapsto> frame) \<and> snd t' = snd t \<union> set fs
     \<and> (\<forall>q. q \<noteq> page \<longrightarrow> fst t q = None \<longrightarrow> fst t' q = None)"
    using free f by (simp add: flat_api_def)
qed simp

lemma flat_map_ok: "memory_map_ok flat_map"
  by (simp add: memory_map_ok_def flat_map_def)

lemma flat_usable: "usable_frame flat_map f \<longleftrightarrow> 4096 dvd unat f \<and> 0x100000 \<le> unat f \<and> unat f < 0x2100000"
  by (auto simp: usable_frame_def flat_map_def entry_range_def)

theorem allocate_frame_exactly_once_witness:
  "\<exists>pm' fs. allocations (allocate_frame flat_api) 3 \<lparr>memory_map = flat_map, pm_next = 0\<rparr>
      = (pm', Inr (map Some fs @ replicate (3 - length fs) None))
    \<and> length fs \<le> 3 \<and> distinct fs \<and> (\<forall>f\<in>set fs. usable_frame flat_map f)
    \<and> (length fs < 3 \<longrightarrow> set fs = {f. usable_frame flat_map f})"
  by (rule allocate_frame_exactly_once [OF flat_frames_align flat_map_ok])
    (simp_all add: physical_new_def)

theorem memory_initialize_heap_witness:
  "\<exists>t' pm' fs. memory_initialize flat_api (Some 0) (Some flat_map)
      = (Some (t', pm'), Inr (HEAP_START, HEAP_SIZE))
    \<and> fst t' = Map.empty(heap_pages [\<mapsto>] fs) \<and> length fs = 1024 \<and> distinct fs
    \<and> (\<forall>f\<in>set fs. usable_frame flat_map f \<and> f \<notin> snd t')"
proof -
  have "virtual_new flat_api (Some 0) = Inr (Map.empty, {0x1000})"
    by (simp add: virtual_new_def flat_api_def flat_base_def)
  moreover have "4096 \<le> length (usable_pages flat_map)"
    by (simp add: flat_map_def entry_pages_def)
  moreover have "snd (Map.empty, {0x1000}) \<inter> {f. usable_frame flat_map f} = {}"
    by (simp add: flat_usable)
  ultimately show ?thesis
    using memory_initialize_heap [OF flat_frames_align flat_pages_align flat_maps_pages flat_map_ok,
      of "Some 0" "(Map.empty, {0x1000})"] by simp
qed

end
