(* ===== verification/Keyboard.thy ===== *)
theory Keyboard
  imports Shell
begin

text \<open>
  The state that the interrupt handlers share, and the keyboard, \<^verbatim>\<open>kernel/src/keyboard.rs\<close>: a scan code
  is read and logged, and the enter key shows the shell's greeting on the screen. The record \<open>kernel\<close>
  has one field for each of the kernel's mutable statics; \<open>k_vga_console\<close> is \<open>None\<close> until \<^verbatim>\<open>VGA_CONSOLE\<close>
  is first used.
\<close>

section \<open>The statics\<close>

record 'd kernel =
  k_log :: logger
  k_timer :: timer
  k_sched :: scheduler
  k_serial_console :: shell
  k_vga_console :: "shell option"
  k_screen :: "vga \<times> memory"
  k_dev :: 'd

section \<open>The console on the screen\<close>

text \<open>The lazily built \<^verbatim>\<open>VGA_CONSOLE\<close> static clears the screen and loads the shell's configuration.\<close>

definition vga_console :: "initrd \<Rightarrow> vga \<times> memory \<Rightarrow> (vga \<times> memory) \<times> shell result" where
  "vga_console rd vm =
     (let x = get_font_width (fst vm) in
      sbind (vm, usize_add (get_font_height (fst vm)) x) (\<lambda>vm y.
      sbind (clear (fst vm) (snd vm)) (\<lambda>vm _.
      let vga = set_cursor (fst vm) x y (color_value White) (color_value Black) in
      sbind ((vga, snd vm), shell_new rd) (\<lambda>vm shell.
      (vm, Inr shell)))))"

text \<open>\<^verbatim>\<open>VGA_CONSOLE.lock()\<close>.\<close>

definition lock_vga_console :: "initrd \<Rightarrow> 'd kernel \<Rightarrow> 'd kernel \<times> shell result" where
  "lock_vga_console rd k =
     (case k_vga_console k of
        Some shell \<Rightarrow> (k, Inr shell)
      | None \<Rightarrow>
          (case vga_console rd (k_screen k) of
             (vm, Inl p) \<Rightarrow> (k\<lparr>k_screen := vm\<rparr>, Inl p)
           | (vm, Inr shell) \<Rightarrow> (k\<lparr>k_screen := vm, k_vga_console := Some shell\<rparr>, Inr shell)))"

section \<open>The keyboard\<close>

datatype scan_code = Enter

definition scan_value :: "scan_code \<Rightarrow> u8" where
  "scan_value c = (case c of Enter \<Rightarrow> 0x1C)"

record keyboard =
  kb_port :: u16

definition keyboard_new :: keyboard where
  "keyboard_new = \<lparr>kb_port = 0x60\<rparr>"

definition keyboard_read :: "'d ports \<Rightarrow> keyboard \<Rightarrow> 'd \<Rightarrow> 'd \<times> u8" where
  "keyboard_read io kb d = prod.swap (port_in io (kb_port kb) d)"

definition keyboard_interpret ::
    "'d ports \<Rightarrow> initrd \<Rightarrow> keyboard \<Rightarrow> 'd kernel \<Rightarrow> ('d kernel \<times> unit result) option" where
  "keyboard_interpret io rd kb k =
     (let (d, scan_code) = keyboard_read io kb (k_dev k);
          message = lit ''Received scan code (0x'' @ fmt_hex (unat scan_code) @ lit '') from keyboard.'';
          k = k\<lparr>k_dev := d, k_log := trace (k_log k) message\<rparr>
      in if scan_code = scan_value Enter then
           obind (Some (lock_vga_console rd k)) (\<lambda>k shell.
           map_option (\<lambda>(vm, r). (k\<lparr>k_screen := vm\<rparr>, r))
             (display (\<lambda>s vm. Some (write_fmt rd s vm)) rd shell (k_screen k)))
         else Some (k, Inr ()))"

section \<open>What stays as it is\<close>

text \<open>
  Writing and clearing move the cursor and load fonts; they never change the geometry, and a font
  that was loaded is well formed.
\<close>

definition same_screen :: "vga \<Rightarrow> vga \<Rightarrow> bool" where
  "same_screen v v' \<longleftrightarrow> v_address v' = v_address v \<and> v_height v' = v_height v
     \<and> v_pitch v' = v_pitch v \<and> v_width v' = v_width v
     \<and> (font_ok (v_font v) \<longrightarrow> font_ok (v_font v'))"

lemma same_screen_refl [simp, intro]: "same_screen v v"
  by (simp add: same_screen_def)

lemma same_screen_trans [trans]: "same_screen a b \<Longrightarrow> same_screen b c \<Longrightarrow> same_screen a c"
  by (simp add: same_screen_def)

lemma same_screen_set_cursor [simp]: "same_screen v (set_cursor w x y fg bg) \<longleftrightarrow> same_screen v w"
  by (simp add: same_screen_def set_cursor_def)

lemma same_screen_font: "font_new rd path = Inr f \<Longrightarrow> same_screen v w \<Longrightarrow> same_screen v (w\<lparr>v_font := f\<rparr>)"
  by (auto simp: same_screen_def font_new_def intro: parse_font_ok)

lemma sbind_screen:
  assumes "same_screen v (fst (fst m))"
    and "\<And>s x. m = (s, Inr x) \<Longrightarrow> same_screen v (fst s) \<Longrightarrow> same_screen v (fst (fst (f s x)))"
  shows "same_screen v (fst (fst (sbind m f)))"
  using assms by (cases m; cases "snd m") auto

lemma write_str_loop_screen:
  "same_screen v (fst s) \<Longrightarrow> same_screen v (fst (fst (write_str_loop rd cs x y fg bg n s)))"
proof (induction cs arbitrary: x y fg bg n s rule: length_induct)
  case (1 cs)
  show ?case
  proof (cases cs)
    case Nil
    then show ?thesis using 1 by (simp add: write_str_loop.simps(1))
  next
    case (Cons c ds)
    have IH: "same_screen v (fst s) \<Longrightarrow> length es \<le> length ds \<Longrightarrow>
        same_screen v (fst (fst (write_str_loop rd es x y fg bg n s)))" for es x y fg bg n s
      using 1(1) unfolding Cons by (cases s) (auto simp: less_Suc_eq_le)
    have drop: "length (drop 1 (dropWhile P ds)) \<le> length ds" for P
      using length_dropWhile_le [of P ds] by simp
    show ?thesis
      unfolding Cons write_str_loop.simps(2) Let_def using 1(2) drop
      by (auto intro!: sbind_screen IH same_screen_font split: prod.split sum.split)
  qed
qed

lemma write_str_screen: "same_screen v (fst vm) \<Longrightarrow> same_screen v (fst (fst (write_str rd s vm)))"
  by (simp add: write_str_def Let_def write_str_loop_screen)

lemma clear_screen_same: "same_screen v w \<Longrightarrow> same_screen v (fst (fst (clear w mem)))"
  by (auto simp: clear_def split: prod.split sum.split)

lemma vga_console_screen: "same_screen v (fst vm) \<Longrightarrow> same_screen v (fst (fst (vga_console rd vm)))"
  unfolding vga_console_def Let_def by (auto intro!: sbind_screen clear_screen_same)

end
