(* ===== verification/Interrupts.thy ===== *)
theory Interrupts
  imports Keyboard
begin

text \<open>
  Interrupts, \<^verbatim>\<open>kernel/src/interrupts.rs\<close>: the handlers, the interrupt descriptor table and the masks of
  the two interrupt controllers. The controllers (crate \<^verbatim>\<open>pic8259\<close>) are the parameter \<open>board\<close>; the
  text of an interrupt frame (crate \<^verbatim>\<open>x86_64\<close>) is an argument. Locks are not modelled: handlers run
  with interrupts disabled, and the code they interrupt, the idle loop, holds none.
\<close>

section \<open>Lines and vectors\<close>

definition PIC_1_OFFSET :: u8 where [code_consts]: "PIC_1_OFFSET = 32"

definition PIC_2_OFFSET :: u8 where [code_consts]: "PIC_2_OFFSET = PIC_1_OFFSET + 8"

datatype interrupt_index = TimerLine | KeyboardLine | CascadeLine | COM2Line | COM1Line

definition index_value :: "interrupt_index \<Rightarrow> u8" where
  "index_value i =
     (case i of
        TimerLine \<Rightarrow> PIC_1_OFFSET
      | KeyboardLine \<Rightarrow> PIC_1_OFFSET + 1
      | CascadeLine \<Rightarrow> PIC_1_OFFSET + 2
      | COM2Line \<Rightarrow> PIC_1_OFFSET + 3
      | COM1Line \<Rightarrow> PIC_1_OFFSET + 4)"

text \<open>The entries of the table, by their names in \<^verbatim>\<open>InterruptDescriptorTable\<close>, and the handlers.\<close>

datatype exception =
    DivideError
  | Debug
  | NonMaskableInterrupt
  | Breakpoint
  | Overflow
  | BoundRangeExceeded
  | InvalidOpcode
  | DeviceNotAvailable
  | DoubleFault
  | InvalidTss
  | SegmentNotPresent
  | StackSegmentFault
  | GeneralProtectionFault
  | PageFault
  | X87FloatingPoint
  | AlignmentCheck
  | MachineCheck
  | SimdFloatingPoint
  | Virtualization
  | CpProtectionException
  | HvInjectionException
  | VmmCommunicationException
  | SecurityException

datatype vector = Exception exception | Index u8

datatype handler =
    DivideErrorHandler
  | DebugHandler
  | NmiHandler
  | BreakpointHandler
  | OverflowHandler
  | BoundRangeHandler
  | InvalidOpcodeHandler
  | DeviceNotAvailableHandler
  | DoubleFaultHandler
  | InvalidTssHandler
  | SegmentNotPresentHandler
  | StackSegmentFaultHandler
  | GeneralProtectionFaultHandler
  | PageFaultHandler
  | X87FloatingPointHandler
  | AlignmentCheckHandler
  | MachineCheckHandler
  | SimdFloatingPointHandler
  | VirtualizationHandler
  | ControlProtectionHandler
  | HypervisorInjectionHandler
  | VmmCommunicationHandler
  | SecurityHandler
  | TimerHandler
  | KeyboardHandler
  | SerialHandler

type_synonym idt = "vector \<rightharpoonup> handler"

definition set_handlers :: "(vector \<times> handler) list \<Rightarrow> idt \<Rightarrow> idt" where
  "set_handlers entries table = fold (\<lambda>(v, h) t. t(v \<mapsto> h)) entries table"

definition IDT :: idt where
  "IDT = set_handlers
      [(Exception DivideError, DivideErrorHandler),
       (Exception Debug, DebugHandler),
       (Exception NonMaskableInterrupt, NmiHandler),
       (Exception Breakpoint, BreakpointHandler),
       (Exception Overflow, OverflowHandler),
       (Exception BoundRangeExceeded, BoundRangeHandler),
       (Exception InvalidOpcode, InvalidOpcodeHandler),
       (Exception DeviceNotAvailable, DeviceNotAvailableHandler),
       (Exception DoubleFault, DoubleFaultHandler),
       (Exception InvalidTss, InvalidTssHandler),
       (Exception SegmentNotPresent, SegmentNotPresentHandler),
       (Exception StackSegmentFault, StackSegmentFaultHandler),
       (Exception GeneralProtectionFault, GeneralProtectionFaultHandler),
       (Exception PageFault, PageFaultHandler),
       (Exception X87FloatingPoint, X87FloatingPointHandler),
       (Exception AlignmentCheck, AlignmentCheckHandler),
       (Exception MachineCheck, MachineCheckHandler),
       (Exception SimdFloatingPoint, SimdFloatingPointHandler),
       (Exception Virtualization, VirtualizationHandler),
       (Exception CpProtectionException, ControlProtectionHandler),
       (Exception HvInjectionException, HypervisorInjectionHandler),
       (Exception VmmCommunicationException, VmmCommunicationHandler),
       (Exception SecurityException, SecurityHandler),
       (Index (index_value TimerLine), TimerHandler),
       (Index (index_value KeyboardLine), KeyboardHandler),
       (Index (index_value COM1Line), SerialHandler)] Map.empty"

section \<open>Exceptions\<close>

text \<open>Whether a handler returns to the interrupted code, or has called \<^verbatim>\<open>halt\<close>.\<close>

datatype control = Returns | Halts

definition divide_error_handler :: "rstr \<Rightarrow> logger \<Rightarrow> logger \<times> control" where
  "divide_error_handler frame lg =
     (error lg (lit ''Division error was thrown: '' @ frame), Returns)"

definition debug_handler :: "rstr \<Rightarrow> logger \<Rightarrow> logger \<times> control" where
  "debug_handler frame lg =
     (debug lg (lit ''Debug exception was thrown: '' @ frame), Returns)"

definition nmi_handler :: "rstr \<Rightarrow> logger \<Rightarrow> logger \<times> control" where
  "nmi_handler frame lg =
     (error lg (lit ''Non-Maskable Interrupt (NMI) was thrown: '' @ frame), Returns)"

definition breakpoint_handler :: "rstr \<Rightarrow> logger \<Rightarrow> logger \<times> control" where
  "breakpoint_handler frame lg =
     (warn lg (lit ''Breakpoint exception was thrown: '' @ frame), Returns)"

definition overflow_handler :: "rstr \<Rightarrow> logger \<Rightarrow> logger \<times> control" where
  "overflow_handler frame lg =
     (error lg (lit ''Overflow exception was thrown: '' @ frame), Returns)"

definition bound_range_handler :: "rstr \<Rightarrow> logger \<Rightarrow> logger \<times> control" where
  "bound_range_handler frame lg =
     (error lg (lit ''Bound range exceeded exception was thrown: '' @ frame), Returns)"

definition invalid_opcode_handler :: "rstr \<Rightarrow> logger \<Rightarrow> logger \<times> control" where
  "invalid_opcode_handler frame lg =
     (error lg (lit ''Invalid opcode exception was thrown: '' @ frame), Returns)"

definition device_not_available_handler :: "rstr \<Rightarrow> logger \<Rightarrow> logger \<times> control" where
  "device_not_available_handler frame lg =
     (error lg (lit ''Device not available exception was thrown: '' @ frame), Returns)"

definition double_fault_handler :: "rstr \<Rightarrow> u64 \<Rightarrow> logger \<Rightarrow> logger \<times> control" where
  "double_fault_handler frame code lg =
     (error lg (lit ''Double fault was thrown (code 0x'' @ fmt_hex (unat code) @ lit ''): '' @ frame), Halts)"

definition invalid_tss_handler :: "rstr \<Rightarrow> u64 \<Rightarrow> logger \<Rightarrow> logger \<times> control" where
  "invalid_tss_handler frame code lg =
     (error lg (lit ''Invalid TSS exception was thrown (code 0x'' @ fmt_hex (unat code) @ lit ''): '' @ frame), Returns)"

definition segment_not_present_handler :: "rstr \<Rightarrow> u64 \<Rightarrow> logger \<Rightarrow> logger \<times> control" where
  "segment_not_present_handler frame code lg =
     (error lg (lit ''Segment not present exception was thrown (code 0x'' @ fmt_hex (unat code) @ lit ''): '' @ frame), Returns)"

definition stack_segment_fault_handler :: "rstr \<Rightarrow> u64 \<Rightarrow> logger \<Rightarrow> logger \<times> control" where
  "stack_segment_fault_handler frame code lg =
     (error lg (lit ''Stack segment fault was thrown (code 0x'' @ fmt_hex (unat code) @ lit ''): '' @ frame), Returns)"

definition general_protection_fault_handler :: "rstr \<Rightarrow> u64 \<Rightarrow> logger \<Rightarrow> logger \<times> control" where
  "general_protection_fault_handler frame code lg =
     (error lg (lit ''General protection fault was thrown (code 0x'' @ fmt_hex (unat code) @ lit ''): '' @ frame), Returns)"

definition page_fault_handler :: "rstr \<Rightarrow> u64 \<Rightarrow> logger \<Rightarrow> logger \<times> control" where
  "page_fault_handler frame code lg =
     (error lg (lit ''Page fault was thrown (code 0x'' @ fmt_hex (unat code) @ lit ''): '' @ frame), Returns)"

definition x87_floating_point_handler :: "rstr \<Rightarrow> logger \<Rightarrow> logger \<times> control" where
  "x87_floating_point_handler frame lg =
     (error lg (lit ''x87 floating point exception was thrown: '' @ frame), Returns)"

definition alignment_check_handler :: "rstr \<Rightarrow> u64 \<Rightarrow> logger \<Rightarrow> logger \<times> control" where
  "alignment_check_handler frame code lg =
     (error lg (lit ''Alignment check exception was thrown (code 0x'' @ fmt_hex (unat code) @ lit ''): '' @ frame), Returns)"

definition machine_check_handler :: "rstr \<Rightarrow> logger \<Rightarrow> logger \<times> control" where
  "machine_check_handler frame lg =
     (error lg (lit ''Machine check exception was thrown: '' @ frame), Halts)"

definition simd_floating_point_handler :: "rstr \<Rightarrow> logger \<Rightarrow> logger \<times> control" where
  "simd_floating_point_handler frame lg =
     (error lg (lit ''SIMD floating point exception was thrown: '' @ frame), Returns)"

definition virtualization_handler :: "rstr \<Rightarrow> logger \<Rightarrow> logger \<times> control" where
  "virtualization_handler frame lg =
     (error lg (lit ''Virtualization exception was thrown: '' @ frame), Returns)"

definition control_protection_handler :: "rstr \<Rightarrow> u64 \<Rightarrow> logger \<Rightarrow> logger \<times> control" where
  "control_protection_handler frame code lg =
     (error lg (lit ''Control protection exception was thrown (code 0x'' @ fmt_hex (unat code) @ lit ''): '' @ frame), Returns)"

definition hypervisor_injection_handler :: "rstr \<Rightarrow> logger \<Rightarrow> logger \<times> control" where
  "hypervisor_injection_handler frame lg =
     (error lg (lit ''Hypervisor injection exception was thrown: '' @ frame), Returns)"

definition vmm_communication_handler :: "rstr \<Rightarrow> u64 \<Rightarrow> logger \<Rightarrow> logger \<times> control" where
  "vmm_communication_handler frame code lg =
     (error lg (lit ''VMM communication exception was thrown (code 0x'' @ fmt_hex (unat code) @ lit ''): '' @ frame), Returns)"

definition security_handler :: "rstr \<Rightarrow> u64 \<Rightarrow> logger \<Rightarrow> logger \<times> control" where
  "security_handler frame code lg =
     (error lg (lit ''Security exception was thrown (code 0x'' @ fmt_hex (unat code) @ lit ''): '' @ frame), Returns)"

section \<open>Devices\<close>

text \<open>The machine: its ports and its two interrupt controllers.\<close>

record 'd board =
  machine_ports :: "'d ports"
  notify_end_of_interrupt :: "u8 \<Rightarrow> 'd \<Rightarrow> 'd"
  pics_initialize :: "'d \<Rightarrow> 'd"
  write_masks :: "u8 \<Rightarrow> u8 \<Rightarrow> 'd \<Rightarrow> 'd"

definition end_interrupt :: "'d board \<Rightarrow> interrupt_index \<Rightarrow> 'd kernel \<Rightarrow> 'd kernel" where
  "end_interrupt b i k = k\<lparr>k_dev := notify_end_of_interrupt b (index_value i) (k_dev k)\<rparr>"

definition timer_handler :: "'d board \<Rightarrow> 'd kernel \<Rightarrow> 'd kernel \<times> unit result" where
  "timer_handler b k =
     (let k = k\<lparr>k_timer := increment (k_timer k)\<rparr> in
      case tick (k_sched k) (k_log k) of
        (lg, Inl p) \<Rightarrow> (k\<lparr>k_log := lg\<rparr>, Inl p)
      | (lg, Inr s) \<Rightarrow> (end_interrupt b TimerLine (k\<lparr>k_log := lg, k_sched := s\<rparr>), Inr ()))"

definition keyboard_handler :: "'d board \<Rightarrow> initrd \<Rightarrow> 'd kernel \<Rightarrow> ('d kernel \<times> unit result) option" where
  "keyboard_handler b rd k =
     obind (keyboard_interpret (machine_ports b) rd keyboard_new k) (\<lambda>k _.
     Some (end_interrupt b KeyboardLine k, Inr ()))"

text \<open>The part of the kernel that the serial console changes.\<close>

definition console_part :: "'d kernel \<Rightarrow> 'd shell_state" where
  "console_part k = \<lparr>st_shell = k_serial_console k, st_sched = k_sched k, st_dev = k_dev k\<rparr>"

definition with_console :: "'d kernel \<Rightarrow> 'd shell_state \<Rightarrow> 'd kernel" where
  "with_console k st = k\<lparr>k_serial_console := st_shell st, k_sched := st_sched st, k_dev := st_dev st\<rparr>"

definition serial_handler ::
    "'d board \<Rightarrow> initrd \<Rightarrow> serial \<Rightarrow> 'd kernel \<Rightarrow> ('d kernel \<times> unit result) option" where
  "serial_handler b rd s k =
     obind (map_option (\<lambda>(st, r). (with_console k st, r))
       (interpret_byte rd (k_timer k) (k_log k) (machine_ports b) s (console_part k))) (\<lambda>k _.
     Some (end_interrupt b COM1Line k, Inr ()))"

text \<open>\<^verbatim>\<open>interrupts::initialize\<close>: the table that is loaded, and the controllers.\<close>

definition interrupts_initialize :: "'d board \<Rightarrow> 'd \<Rightarrow> idt \<times> 'd" where
  "interrupts_initialize b d = (IDT, write_masks b 0b11101100 0b11111111 (pics_initialize b d))"

section \<open>Dispatch\<close>

definition log_exception :: "logger \<times> control \<Rightarrow> 'd kernel \<Rightarrow> ('d kernel \<times> control result) option" where
  "log_exception outcome k = Some (k\<lparr>k_log := fst outcome\<rparr>, Inr (snd outcome))"

definition returning :: "('d kernel \<times> unit result) option \<Rightarrow> ('d kernel \<times> control result) option" where
  "returning r = obind r (\<lambda>k _. Some (k, Inr Returns))"

text \<open>What happens when the processor runs a handler of the table.\<close>

definition run_handler ::
    "'d board \<Rightarrow> initrd \<Rightarrow> serial \<Rightarrow> rstr \<Rightarrow> u64 \<Rightarrow> handler \<Rightarrow> 'd kernel
      \<Rightarrow> ('d kernel \<times> control result) option" where
  "run_handler b rd s frame code h k =
     (let lg = k_log k in
      case h of
        TimerHandler \<Rightarrow> returning (Some (timer_handler b k))
      | KeyboardHandler \<Rightarrow> returning (keyboard_handler b rd k)
      | SerialHandler \<Rightarrow> returning (serial_handler b rd s k)
      | DivideErrorHandler \<Rightarrow> log_exception (divide_error_handler frame lg) k
      | DebugHandler \<Rightarrow> log_exception (debug_handler frame lg) k
      | NmiHandler \<Rightarrow> log_exception (nmi_handler frame lg) k
      | BreakpointHandler \<Rightarrow> log_exception (breakpoint_handler frame lg) k
      | OverflowHandler \<Rightarrow> log_exception (overflow_handler frame lg) k
      | BoundRangeHandler \<Rightarrow> log_exception (bound_range_handler frame lg) k
      | InvalidOpcodeHandler \<Rightarrow> log_exception (invalid_opcode_handler frame lg) k
      | DeviceNotAvailableHandler \<Rightarrow> log_exception (device_not_available_handler frame lg) k
      | DoubleFaultHandler \<Rightarrow> log_exception (double_fault_handler frame code lg) k
      | InvalidTssHandler \<Rightarrow> log_exception (invalid_tss_handler frame code lg) k
      | SegmentNotPresentHandler \<Rightarrow> log_exception (segment_not_present_handler frame code lg) k
      | StackSegmentFaultHandler \<Rightarrow> log_exception (stack_segment_fault_handler frame code lg) k
      | GeneralProtectionFaultHandler \<Rightarrow> log_exception (general_protection_fault_handler frame code lg) k
      | PageFaultHandler \<Rightarrow> log_exception (page_fault_handler frame code lg) k
      | X87FloatingPointHandler \<Rightarrow> log_exception (x87_floating_point_handler frame lg) k
      | AlignmentCheckHandler \<Rightarrow> log_exception (alignment_check_handler frame code lg) k
      | MachineCheckHandler \<Rightarrow> log_exception (machine_check_handler frame lg) k
      | SimdFloatingPointHandler \<Rightarrow> log_exception (simd_floating_point_handler frame lg) k
      | VirtualizationHandler \<Rightarrow> log_exception (virtualization_handler frame lg) k
      | ControlProtectionHandler \<Rightarrow> log_exception (control_protection_handler frame code lg) k
      | HypervisorInjectionHandler \<Rightarrow> log_exception (hypervisor_injection_handler frame lg) k
      | VmmCommunicationHandler \<Rightarrow> log_exception (vmm_communication_handler frame code lg) k
      | SecurityHandler \<Rightarrow> log_exception (security_handler frame code lg) k)"


section \<open>What the console keeps\<close>

text \<open>
  Whatever is typed at the serial console, the shell's configuration stays and the scheduler changes
  only by \<^verbatim>\<open>fork\<close>, which keeps its invariant.
\<close>

definition same_shell :: "shell \<Rightarrow> shell \<Rightarrow> bool" where
  "same_shell sh sh' \<longleftrightarrow> sh'\<lparr>buffer := []\<rparr> = sh\<lparr>buffer := []\<rparr>"

definition console_kept :: "'d shell_state \<Rightarrow> 'd shell_state \<Rightarrow> bool" where
  "console_kept st st' \<longleftrightarrow> same_shell (st_shell st) (st_shell st')
     \<and> (sched_inv (st_sched st) \<longrightarrow> sched_inv (st_sched st'))"

definition outcome_all :: "('s \<Rightarrow> bool) \<Rightarrow> ('s \<times> 'a result) option \<Rightarrow> bool" where
  "outcome_all P r \<longleftrightarrow> (\<forall>s x. r = Some (s, x) \<longrightarrow> P s)"

lemma outcome_all_simps [simp]: "outcome_all P None" "outcome_all P (Some (s, x)) = P s"
  by (simp_all add: outcome_all_def)

lemma outcome_all_obind:
  assumes "outcome_all P m" "\<And>s x. m = Some (s, Inr x) \<Longrightarrow> P s \<Longrightarrow> outcome_all P (f s x)"
  shows "outcome_all P (obind m f)"
  using assms by (cases m) (auto simp: obind_def split: sum.split)

lemma outcome_all_if:
  "outcome_all P a \<Longrightarrow> outcome_all P b \<Longrightarrow> outcome_all P (if c then a else b)"
  by simp

abbreviation keeps :: "'d shell_state \<Rightarrow> ('d shell_state \<times> 'a result) option \<Rightarrow> bool" where
  "keeps st \<equiv> outcome_all (console_kept st)"

lemma same_shell_buffer [simp]:
  "same_shell sh sh" "same_shell sh (sh'\<lparr>buffer := bs\<rparr>) = same_shell sh sh'"
  by (simp_all add: same_shell_def)

lemma same_shell_trans [trans]: "same_shell a b \<Longrightarrow> same_shell b c \<Longrightarrow> same_shell a c"
  by (simp add: same_shell_def)

lemma console_kept_simps [simp]:
  "console_kept st st"
  "console_kept st (st'\<lparr>st_dev := d\<rparr>) = console_kept st st'"
  "console_kept st (st'\<lparr>st_shell := (st_shell st')\<lparr>buffer := bs\<rparr>\<rparr>) = console_kept st st'"
  by (simp_all add: console_kept_def)

lemma keeps_lift_dev: "console_kept st st1 \<Longrightarrow> keeps st (lift_dev f st1)"
  by (auto simp: outcome_all_def lift_dev_def)

lemma keeps_put: "console_kept st st1 \<Longrightarrow> keeps st (put io s t st1)"
  by (simp add: put_def keeps_lift_dev)

lemma keeps_put_all: "console_kept st st1 \<Longrightarrow> keeps st (put_all io s ts st1)"
  by (induction ts arbitrary: st1) (auto intro: outcome_all_obind keeps_put)

lemma keeps_fork:
  assumes "console_kept st st1"
  shows "keeps st (case sys_fork (st_sched st1) of Inl p \<Rightarrow> Some (st1, Inl p)
    | Inr (sched, pid) \<Rightarrow> put io s (t pid) (st1\<lparr>st_sched := sched\<rparr>))"
proof -
  have "console_kept st (st1\<lparr>st_sched := sched\<rparr>)" if "sys_fork (st_sched st1) = Inr (sched, pid)" for sched pid
    using assms that by (auto simp: console_kept_def sys_fork_def intro: sched_inv_fork)
  with assms show ?thesis by (auto split: sum.split intro!: keeps_put)
qed

lemma keeps_run_command:
  assumes "console_kept st st1"
  shows "keeps st (run_command rd tm lg io s c input st1)"
proof -
  have "keeps st (obind (Some (st1, elf_new rd path)) (\<lambda>st e. put io s (t e) st))" for path t
    by (intro outcome_all_obind keeps_put) (use assms in simp_all)
  then show ?thesis
    unfolding run_command_def Let_def
    by (intro outcome_all_if keeps_put keeps_put_all keeps_fork assms)
qed

lemma keeps_interpret_byte: "keeps st (interpret_byte rd tm lg io s st)"
  unfolding interpret_byte_def interpret_character_def interpret_line_def Let_def
  by (intro outcome_all_obind outcome_all_if keeps_lift_dev keeps_put keeps_run_command) simp_all

section \<open>What every interrupt keeps\<close>

text \<open>
  The state of the kernel, relative to its state \<open>k0\<close> when interrupts were enabled: the scheduler is
  well formed, the log has only grown, the screen has the same geometry and a well-formed font, the
  serial console has the same configuration, and the console on the screen is unused or configured
  from the RAM disk.
\<close>

definition kernel_ok :: "initrd \<Rightarrow> 'd kernel \<Rightarrow> 'd kernel \<Rightarrow> bool" where
  "kernel_ok rd k0 k \<longleftrightarrow> sched_inv (k_sched k) \<and> extends_log (k_log k0) (k_log k)
     \<and> same_screen (fst (k_screen k0)) (fst (k_screen k))
     \<and> same_shell (k_serial_console k0) (k_serial_console k)
     \<and> (\<forall>sh. k_vga_console k = Some sh \<longrightarrow> shell_new rd = Inr sh)"

lemma kernel_ok_dev [simp]: "kernel_ok rd k0 (k\<lparr>k_dev := d\<rparr>) = kernel_ok rd k0 k"
  by (simp add: kernel_ok_def)

lemma kernel_ok_end [simp]: "kernel_ok rd k0 (end_interrupt b i k) = kernel_ok rd k0 k"
  by (simp add: end_interrupt_def)

lemma end_interrupt_fields [simp]:
  "k_log (end_interrupt b i k) = k_log k" "k_timer (end_interrupt b i k) = k_timer k"
  "k_sched (end_interrupt b i k) = k_sched k" "k_screen (end_interrupt b i k) = k_screen k"
  "k_serial_console (end_interrupt b i k) = k_serial_console k"
  "k_vga_console (end_interrupt b i k) = k_vga_console k"
  "k_dev (end_interrupt b i k) = notify_end_of_interrupt b (index_value i) (k_dev k)"
  by (simp_all add: end_interrupt_def)

lemma kernel_ok_timer:
  assumes "kernel_ok rd k0 k" "timer_handler b k = (k', Inr u)"
  shows "kernel_ok rd k0 k'"
proof -
  obtain lg where lg: "tick (k_sched k) (k_log k) = (lg, Inr (after_tick (k_sched k)))"
      "extends_log (k_log k) lg"
    using tick_after_tick by blast
  then have "k' = end_interrupt b TimerLine (k\<lparr>k_timer := increment (k_timer k), k_log := lg,
      k_sched := after_tick (k_sched k)\<rparr>)"
    using assms(2) by (simp add: timer_handler_def Let_def)
  then show ?thesis
    using assms(1) lg(2) extends_log_trans sched_inv_tick by (auto simp: kernel_ok_def)
qed

lemma kernel_ok_serial:
  assumes "kernel_ok rd k0 k" "serial_handler b rd s k = Some (k', Inr u)"
  shows "kernel_ok rd k0 k'"
proof -
  obtain st where st: "interpret_byte rd (k_timer k) (k_log k) (machine_ports b) s (console_part k) = Some (st, Inr ())"
      "k' = end_interrupt b COM1Line (with_console k st)"
    using assms(2) by (auto simp: serial_handler_def obind_def split: option.splits sum.splits)
  have "console_kept (console_part k) st"
    using keeps_interpret_byte [of "console_part k" rd "k_timer k" "k_log k" "machine_ports b" s] st(1)
    by simp
  then show ?thesis
    using assms(1) st(2) same_shell_trans
    by (auto simp: console_kept_def kernel_ok_def console_part_def with_console_def)
qed

lemma lock_vga_console_ok:
  assumes "kernel_ok rd k0 k" "lock_vga_console rd k = (k', Inr sh)"
  shows "kernel_ok rd k0 k'"
proof (cases "k_vga_console k")
  case None
  then obtain vm where vm: "vga_console rd (k_screen k) = (vm, Inr sh)"
      "k' = k\<lparr>k_screen := vm, k_vga_console := Some sh\<rparr>"
    using assms(2) by (auto simp: lock_vga_console_def split: prod.splits sum.splits)
  have "same_screen (fst (k_screen k0)) (fst vm)"
    using vga_console_screen [of "fst (k_screen k0)" "k_screen k" rd] assms(1) vm(1)
    by (simp add: kernel_ok_def)
  moreover have "shell_new rd = Inr sh"
    using vm(1) by (auto simp: vga_console_def Let_def sbind_Inr_iff)
  ultimately show ?thesis using assms(1) vm(2) by (simp add: kernel_ok_def)
qed (use assms in \<open>simp add: lock_vga_console_def\<close>)

lemma display_screen:
  assumes "same_screen v (fst vm)"
  shows "outcome_all (\<lambda>vm'. same_screen v (fst vm'))
    (display (\<lambda>s vm. Some (write_str rd s vm)) rd sh vm)"
proof -
  have "outcome_all (\<lambda>vm'. same_screen v (fst vm')) (Some (write_str rd s vm))"
    if "same_screen v (fst vm)" for s vm
    using write_str_screen [OF that, of rd s] by (cases "write_str rd s vm") simp
  then show ?thesis
    unfolding display_def by (intro outcome_all_obind) (use assms in simp_all)
qed

lemma kernel_ok_keyboard:
  assumes "kernel_ok rd k0 k" "keyboard_handler b rd k = Some (k', Inr u)"
  shows "kernel_ok rd k0 k'"
proof -
  obtain d code where read: "keyboard_read (machine_ports b) keyboard_new (k_dev k) = (d, code)"
    by fastforce
  define m where "m = lit ''Received scan code (0x'' @ fmt_hex (unat code) @ lit '') from keyboard.''"
  let ?k = "k\<lparr>k_dev := d, k_log := trace (k_log k) m\<rparr>"
  have k: "kernel_ok rd k0 ?k"
    using assms(1) extends_log_trans [OF _ extends_log_log]
    by (auto simp: kernel_ok_def trace_def)
  obtain k1 where k1: "keyboard_interpret (machine_ports b) rd keyboard_new k = Some (k1, Inr ())"
      "k' = end_interrupt b KeyboardLine k1"
    using assms(2) by (auto simp: keyboard_handler_def obind_def split: option.splits sum.splits)
  have "kernel_ok rd k0 k1"
  proof (cases "code = scan_value Enter")
    case True
    then obtain k2 sh vm where two: "lock_vga_console rd ?k = (k2, Inr sh)"
        "display (\<lambda>s vm. Some (write_str rd s vm)) rd sh (k_screen k2) = Some (vm, Inr ())"
        "k1 = k2\<lparr>k_screen := vm\<rparr>"
      using k1(1) read
      by (auto simp: keyboard_interpret_def m_def obind_def split: option.splits prod.splits sum.splits)
    have "kernel_ok rd k0 k2" by (rule lock_vga_console_ok [OF k two(1)])
    then show ?thesis
      using display_screen [of "fst (k_screen k0)" "k_screen k2" rd sh] two(2,3) by (simp add: kernel_ok_def)
  next
    case False
    then show ?thesis using k1(1) read k by (simp add: keyboard_interpret_def m_def)
  qed
  then show ?thesis using k1(2) by simp
qed

lemma log_exception_ok:
  "kernel_ok rd k0 k \<Longrightarrow> extends_log (k_log k) (fst outcome) \<Longrightarrow>
    log_exception outcome k = Some (k', Inr c) \<Longrightarrow> kernel_ok rd k0 k'"
  by (auto simp: log_exception_def kernel_ok_def intro: extends_log_trans)

lemmas exception_handler_defs =
  divide_error_handler_def debug_handler_def nmi_handler_def breakpoint_handler_def
  overflow_handler_def bound_range_handler_def invalid_opcode_handler_def
  device_not_available_handler_def double_fault_handler_def invalid_tss_handler_def
  segment_not_present_handler_def stack_segment_fault_handler_def
  general_protection_fault_handler_def page_fault_handler_def x87_floating_point_handler_def
  alignment_check_handler_def machine_check_handler_def simd_floating_point_handler_def
  virtualization_handler_def control_protection_handler_def hypervisor_injection_handler_def
  vmm_communication_handler_def security_handler_def

lemma returning_Inr: "returning r = Some (k', Inr c) \<longleftrightarrow> r = Some (k', Inr ()) \<and> c = Returns"
  by (auto simp: returning_def obind_def split: option.splits sum.splits)

lemma exception_handlers_log:
  "extends_log lg (fst (divide_error_handler frame lg))"
  "extends_log lg (fst (debug_handler frame lg))"
  "extends_log lg (fst (nmi_handler frame lg))"
  "extends_log lg (fst (breakpoint_handler frame lg))"
  "extends_log lg (fst (overflow_handler frame lg))"
  "extends_log lg (fst (bound_range_handler frame lg))"
  "extends_log lg (fst (invalid_opcode_handler frame lg))"
  "extends_log lg (fst (device_not_available_handler frame lg))"
  "extends_log lg (fst (double_fault_handler frame code lg))"
  "extends_log lg (fst (invalid_tss_handler frame code lg))"
  "extends_log lg (fst (segment_not_present_handler frame code lg))"
  "extends_log lg (fst (stack_segment_fault_handler frame code lg))"
  "extends_log lg (fst (general_protection_fault_handler frame code lg))"
  "extends_log lg (fst (page_fault_handler frame code lg))"
  "extends_log lg (fst (x87_floating_point_handler frame lg))"
  "extends_log lg (fst (alignment_check_handler frame code lg))"
  "extends_log lg (fst (machine_check_handler frame lg))"
  "extends_log lg (fst (simd_floating_point_handler frame lg))"
  "extends_log lg (fst (virtualization_handler frame lg))"
  "extends_log lg (fst (control_protection_handler frame code lg))"
  "extends_log lg (fst (hypervisor_injection_handler frame lg))"
  "extends_log lg (fst (vmm_communication_handler frame code lg))"
  "extends_log lg (fst (security_handler frame code lg))"
  unfolding exception_handler_defs logger_macro_defs fst_conv by (rule extends_log_log)+

lemma exception_logs:
  assumes "h \<notin> {TimerHandler, KeyboardHandler, SerialHandler}"
  obtains outcome where "run_handler b rd s frame code h k = log_exception outcome k"
    "extends_log (k_log k) (fst outcome)"
proof -
  have "\<exists>outcome. run_handler b rd s frame code h k = log_exception outcome k
      \<and> extends_log (k_log k) (fst outcome)"
    using assms
    by (cases h) (simp_all only: run_handler_def Let_def handler.case insert_iff simp_thms,
        (rule exI, rule conjI, rule refl, rule exception_handlers_log)+)
  with that show thesis by blast
qed

lemma kernel_ok_handler:
  assumes "kernel_ok rd k0 k" "run_handler b rd s frame code h k = Some (k', Inr c)"
  shows "kernel_ok rd k0 k'"
proof (cases "h \<in> {TimerHandler, KeyboardHandler, SerialHandler}")
  case True
  then show ?thesis
    using assms kernel_ok_timer kernel_ok_keyboard kernel_ok_serial
    by (auto simp: run_handler_def returning_Inr)
next
  case False
  then obtain outcome where o: "run_handler b rd s frame code h k = log_exception outcome k"
    "extends_log (k_log k) (fst outcome)" by (rule exception_logs)
  show ?thesis by (rule log_exception_ok [OF assms(1) o(2)]) (use assms(2) o(1) in simp)
qed

section \<open>The running kernel\<close>

text \<open>
  A step of the kernel after boot: the processor runs a handler of the table and it returns, or a
  device changes its own state (a key is pressed, a byte arrives).
\<close>

inductive kernel_step :: "'d board \<Rightarrow> initrd \<Rightarrow> serial \<Rightarrow> 'd kernel \<Rightarrow> 'd kernel \<Rightarrow> bool" for b rd s where
  interrupt: "IDT v = Some h \<Longrightarrow> run_handler b rd s frame code h k = Some (k', Inr Returns) \<Longrightarrow>
    kernel_step b rd s k k'"
| device: "kernel_step b rd s k (k\<lparr>k_dev := d\<rparr>)"

inductive_cases kernel_stepE: "kernel_step b rd s k k'"

lemma kernel_ok_step: "kernel_step b rd s k k' \<Longrightarrow> kernel_ok rd k0 k \<Longrightarrow> kernel_ok rd k0 k'"
  by (auto elim!: kernel_stepE intro: kernel_ok_handler)

lemma kernel_ok_steps:
  assumes "(kernel_step b rd s)\<^sup>*\<^sup>* k k'" "kernel_ok rd k0 k"
  shows "kernel_ok rd k0 k'"
  using assms by (induction rule: rtranclp_induct) (auto intro: kernel_ok_step)

section \<open>Properties\<close>

lemma IDT_Index:
  "IDT (Index i) = (if i = 36 then Some SerialHandler else if i = 33 then Some KeyboardHandler
     else if i = 32 then Some TimerHandler else None)"
  by (simp add: IDT_def set_handlers_def index_value_def PIC_1_OFFSET_def)

lemma upt_8: "[0..<8] = [0, 1, 2, 3, 4, 5, 6, 7]"
  by (simp add: upt_rec)

text \<open>
  Claim C26. A line of the interrupt controllers is enabled exactly when the table that was loaded has
  a handler for its vector: the timer, the keyboard and the first serial port. Every exception of the
  table has a handler.
\<close>

theorem enabled_lines_have_handlers:
  "\<exists>table mask1 mask2. interrupts_initialize b d = (table, write_masks b mask1 mask2 (pics_initialize b d))
    \<and> filter (\<lambda>line. \<not> bit mask1 line) [0..<8] = [0, 1, 4]
    \<and> filter (\<lambda>line. table (Index (PIC_1_OFFSET + word_of_nat line)) \<noteq> None) [0..<8] = [0, 1, 4]
    \<and> filter (\<lambda>line. \<not> bit mask2 line) [0..<8] = []
    \<and> filter (\<lambda>line. table (Index (PIC_2_OFFSET + word_of_nat line)) \<noteq> None) [0..<8] = []
    \<and> (\<forall>e. table (Exception e) \<noteq> None)"
proof (intro exI conjI)
  show "interrupts_initialize b d = (IDT, write_masks b 0b11101100 0b11111111 (pics_initialize b d))"
    by (simp add: interrupts_initialize_def)
  show "\<forall>e. IDT (Exception e) \<noteq> None"
  proof
    fix e
    show "IDT (Exception e) \<noteq> None" by (cases e) (simp_all add: IDT_def set_handlers_def)
  qed
qed (simp_all add: IDT_Index upt_8 PIC_1_OFFSET_def PIC_2_OFFSET_def)

text \<open>A number of timer interrupts in a row.\<close>

fun timer_interrupts :: "'d board \<Rightarrow> nat \<Rightarrow> 'd kernel \<Rightarrow> 'd kernel \<times> unit result" where
  "timer_interrupts b 0 k = (k, Inr ())"
| "timer_interrupts b (Suc n) k = sbind (timer_handler b k) (\<lambda>k _. timer_interrupts b n k)"

lemma timer_handler_eq:
  "\<exists>lg. timer_handler b k = (end_interrupt b TimerLine (k\<lparr>k_timer := increment (k_timer k), k_log := lg,
      k_sched := after_tick (k_sched k)\<rparr>), Inr ()) \<and> extends_log (k_log k) lg"
proof -
  obtain lg where "tick (k_sched k) (k_log k) = (lg, Inr (after_tick (k_sched k)))"
      "extends_log (k_log k) lg"
    using tick_after_tick by blast
  then show ?thesis by (auto simp: timer_handler_def Let_def)
qed

lemma timer_interrupts_eq:
  "\<exists>lg. timer_interrupts b n k = (k\<lparr>k_timer := (increment ^^ n) (k_timer k), k_log := lg,
      k_sched := (after_tick ^^ n) (k_sched k),
      k_dev := (notify_end_of_interrupt b (index_value TimerLine) ^^ n) (k_dev k)\<rparr>, Inr ())
    \<and> extends_log (k_log k) lg"
proof (induction n arbitrary: k)
  case (Suc n)
  obtain lg1 where 1: "timer_handler b k = (end_interrupt b TimerLine
      (k\<lparr>k_timer := increment (k_timer k), k_log := lg1, k_sched := after_tick (k_sched k)\<rparr>), Inr ())"
      "extends_log (k_log k) lg1"
    using timer_handler_eq by blast
  let ?k = "end_interrupt b TimerLine
      (k\<lparr>k_timer := increment (k_timer k), k_log := lg1, k_sched := after_tick (k_sched k)\<rparr>)"
  obtain lg2 where "timer_interrupts b n ?k = (?k\<lparr>k_timer := (increment ^^ n) (k_timer ?k), k_log := lg2,
      k_sched := (after_tick ^^ n) (k_sched ?k),
      k_dev := (notify_end_of_interrupt b (index_value TimerLine) ^^ n) (k_dev ?k)\<rparr>, Inr ())"
      "extends_log lg1 lg2"
    using Suc.IH [of ?k] by auto
  then show ?case
    using 1 extends_log_trans by (auto simp: end_interrupt_def funpow_swap1)
qed (auto intro!: exI [of _ "k_log k" for k])

text \<open>
  Claim C24. After any number \<open>n\<close> of timer interrupts the handler has returned every time, the uptime
  has grown by \<open>n\<close>, the ready queue has been rotated once per \<open>quantum + 1\<close> interrupts, each interrupt
  has been acknowledged once, and neither the consoles nor the screen have changed.
\<close>

theorem timer_interrupts_advance:
  assumes "remaining (k_sched k) \<le> quantum (k_sched k)"
  shows "\<exists>k'. timer_interrupts b n k = (k', Inr ())
    \<and> get_elapsed (k_timer k') = get_elapsed (k_timer k) + word_of_nat n
    \<and> pids (k_sched k') = rotate ((unat (quantum (k_sched k)) - unat (remaining (k_sched k)) + n)
         div (unat (quantum (k_sched k)) + 1)) (pids (k_sched k))
    \<and> k_dev k' = (notify_end_of_interrupt b 32 ^^ n) (k_dev k)
    \<and> k_screen k' = k_screen k \<and> k_serial_console k' = k_serial_console k
    \<and> k_vga_console k' = k_vga_console k \<and> extends_log (k_log k) (k_log k')"
proof -
  obtain lg where lg: "timer_interrupts b n k = (k\<lparr>k_timer := (increment ^^ n) (k_timer k), k_log := lg,
      k_sched := (after_tick ^^ n) (k_sched k),
      k_dev := (notify_end_of_interrupt b (index_value TimerLine) ^^ n) (k_dev k)\<rparr>, Inr ())"
      "extends_log (k_log k) lg"
    using timer_interrupts_eq by blast
  have "pids ((after_tick ^^ n) (k_sched k))
      = rotate ((phase (k_sched k) + n) div period (k_sched k)) (pids (k_sched k))"
    using assms by (intro rr.steps_order) (simp add: slice_ok_def)
  then show ?thesis
    using lg by (simp add: phase_def period_def get_elapsed_def elapsed_increments index_value_def
        PIC_1_OFFSET_def)
qed


section \<open>A concrete kernel\<close>

text \<open>A machine that counts acknowledged interrupts, and a kernel with two processes.\<close>

definition counting_board :: "nat board" where
  "counting_board = \<lparr>machine_ports = \<lparr>port_in = (\<lambda>_ d. (0, d)), port_out = (\<lambda>_ _ d. d)\<rparr>,
     notify_end_of_interrupt = (\<lambda>_ d. Suc d), pics_initialize = (\<lambda>d. d), write_masks = (\<lambda>_ _ d. d)\<rparr>"

definition idle_kernel :: "nat kernel" where
  "idle_kernel = \<lparr>k_log = logger_new, k_timer = timer_new, k_sched = forked_scheduler,
     k_serial_console = root_shell, k_vga_console = None, k_screen = (small_screen, \<lambda>_. 0), k_dev = 0\<rparr>"

lemma timer_interrupts_advance_witness:
  "\<exists>k'. timer_interrupts counting_board 101 idle_kernel = (k', Inr ())
    \<and> get_elapsed (k_timer k') = 101 \<and> pids (k_sched k') = [2, 1]"
proof -
  have "remaining (k_sched idle_kernel) \<le> quantum (k_sched idle_kernel)"
    by (simp add: idle_kernel_def forked_scheduler_def boot_scheduler_eq)
  from timer_interrupts_advance [OF this, of counting_board 101] show ?thesis
    by (auto simp: idle_kernel_def forked_scheduler_def boot_scheduler_eq get_elapsed_def timer_new_def
        pids_def process_new_def)
qed

end
