(* ===== verification/Segments.thy ===== *)
theory Segments
  imports Kernel_Prelude
begin

text \<open>
  The segment tables, \<^verbatim>\<open>kernel/src/gdt.rs\<close>, and the preparation of user mode,
  \<^verbatim>\<open>kernel/src/userspace.rs\<close>. The descriptor table and the register writes of the \<^verbatim>\<open>x86_64\<close> crate are
  the parameter \<open>cpu\<close>; \<open>'g\<close> is a table under construction and \<open>'d\<close> the processor.
\<close>

section \<open>The descriptor table\<close>

datatype descriptor = KernelCode | KernelData | UserData | UserCode | TssSegment

datatype segment_register = CS | DS | ES | FS | GS | SS

datatype efer_flag = SYSTEM_CALL_EXTENSIONS | LONG_MODE_ENABLE | LONG_MODE_ACTIVE | NO_EXECUTE_ENABLE

record ('g, 'd) cpu =
  gdt_new :: 'g
  gdt_append :: "descriptor \<Rightarrow> 'g \<Rightarrow> 'g \<times> u16 result"
  gdt_load :: "'g \<Rightarrow> 'd \<Rightarrow> 'd"
  set_reg :: "segment_register \<Rightarrow> u16 \<Rightarrow> 'd \<Rightarrow> 'd"
  load_tss :: "u16 \<Rightarrow> 'd \<Rightarrow> 'd"
  star_write :: "u16 \<Rightarrow> u16 \<Rightarrow> u16 \<Rightarrow> u16 \<Rightarrow> 'd \<Rightarrow> 'd \<times> bool"
    \<comment> \<open>\<^verbatim>\<open>Star::write\<close>; \<open>False\<close> is \<^verbatim>\<open>Err\<close>\<close>
  efer_write :: "efer_flag set \<Rightarrow> 'd \<Rightarrow> 'd"

record selectors =
  kernel_code :: u16
  kernel_data :: u16
  user_code :: u16
  user_data :: u16
  tss :: u16

text \<open>The lazily built \<^verbatim>\<open>GDT\<close> static.\<close>

definition gdt_static :: "('g, 'd) cpu \<Rightarrow> 'g \<times> selectors result" where
  "gdt_static c =
     sbind (gdt_append c KernelCode (gdt_new c)) (\<lambda>gdt kernel_code.
     sbind (gdt_append c KernelData gdt) (\<lambda>gdt kernel_data.
     sbind (gdt_append c UserData gdt) (\<lambda>gdt user_data.
     sbind (gdt_append c UserCode gdt) (\<lambda>gdt user_code.
     sbind (gdt_append c TssSegment gdt) (\<lambda>gdt tss.
     (gdt, Inr \<lparr>kernel_code = kernel_code, kernel_data = kernel_data, user_code = user_code,
        user_data = user_data, tss = tss\<rparr>))))))"

definition get_kernel_code :: "selectors \<Rightarrow> u16" where "get_kernel_code s = kernel_code s"
definition get_kernel_data :: "selectors \<Rightarrow> u16" where "get_kernel_data s = kernel_data s"
definition get_user_code :: "selectors \<Rightarrow> u16" where "get_user_code s = user_code s"
definition get_user_data :: "selectors \<Rightarrow> u16" where "get_user_data s = user_data s"

text \<open>\<^verbatim>\<open>gdt::initialize\<close>; the selectors are kept for \<^verbatim>\<open>userspace::initialize\<close>.\<close>

definition gdt_initialize :: "('g, 'd) cpu \<Rightarrow> 'd \<Rightarrow> 'd \<times> selectors result" where
  "gdt_initialize c d =
     (case gdt_static c of
        (gdt, Inl p) \<Rightarrow> (d, Inl p)
      | (gdt, Inr s) \<Rightarrow>
          let d = gdt_load c gdt d;
              d = set_reg c CS (kernel_code s) d;
              d = set_reg c DS (kernel_data s) d;
              d = set_reg c ES (kernel_data s) d;
              d = set_reg c FS (kernel_data s) d;
              d = set_reg c GS (kernel_data s) d;
              d = set_reg c SS (kernel_data s) d;
              d = load_tss c (tss s) d
          in (d, Inr s))"

section \<open>User mode\<close>

definition userspace_initialize :: "('g, 'd) cpu \<Rightarrow> selectors \<Rightarrow> 'd \<Rightarrow> 'd \<times> unit result" where
  "userspace_initialize c s d =
     (let (d, ok) = star_write c (get_user_code s) (get_user_data s) (get_kernel_code s) (get_kernel_data s) d
      in if ok then
           (efer_write c {SYSTEM_CALL_EXTENSIONS, LONG_MODE_ENABLE, LONG_MODE_ACTIVE, NO_EXECUTE_ENABLE} d,
            Inr ())
         else (d, Inl UnwrapErr))"

section \<open>What the crate promises\<close>

text \<open>
  A new table holds only the null descriptor, and has room for eight entries; a task state segment
  takes two, the others one. \<^verbatim>\<open>append\<close> returns the selector of the first entry it used, with privilege
  level 3 for user segments. \<^verbatim>\<open>Star::write\<close> accepts selectors that fit the processor's arithmetic:
  user code right after user data, kernel data right after kernel code, and the right privileges.
\<close>

definition entries :: "descriptor \<Rightarrow> nat" where
  "entries s = (if s = TssSegment then 2 else 1)"

definition privilege :: "descriptor \<Rightarrow> nat" where
  "privilege s = (if s = UserData \<or> s = UserCode then 3 else 0)"

definition appends_in_order :: "('g, 'd) cpu \<Rightarrow> ('g \<Rightarrow> nat) \<Rightarrow> bool" where
  "appends_in_order c used \<longleftrightarrow> used (gdt_new c) = 1
     \<and> (\<forall>s g. used g + entries s \<le> 8 \<longrightarrow>
          (\<exists>g'. gdt_append c s g = (g', Inr (word_of_nat (8 * used g + privilege s)))
            \<and> used g' = used g + entries s))"

definition star_accepts :: "('g, 'd) cpu \<Rightarrow> bool" where
  "star_accepts c \<longleftrightarrow> (\<forall>cs_sysret ss_sysret cs_syscall ss_syscall d.
     unat cs_sysret = unat ss_sysret + 8 \<and> unat ss_syscall = unat cs_syscall + 8
       \<and> unat ss_sysret mod 4 = 3 \<and> unat ss_syscall mod 4 = 0 \<longrightarrow>
     snd (star_write c cs_sysret ss_sysret cs_syscall ss_syscall d))"

lemma append_step:
  assumes "appends_in_order c used" "used g + entries s \<le> 8"
  obtains g' where "gdt_append c s g = (g', Inr (word_of_nat (8 * used g + privilege s)))"
    "used g' = used g + entries s"
  using assms by (auto simp: appends_in_order_def)

lemma gdt_static_selectors:
  assumes "appends_in_order c used"
  shows "\<exists>gdt. gdt_static c = (gdt, Inr \<lparr>kernel_code = 0x08, kernel_data = 0x10, user_code = 0x23,
      user_data = 0x1B, tss = 0x28\<rparr>)"
proof -
  have "used (gdt_new c) = 1" using assms by (simp add: appends_in_order_def)
  then obtain g1 where g1: "gdt_append c KernelCode (gdt_new c) = (g1, Inr 0x08)" "used g1 = 2"
    by (auto intro: append_step [OF assms, of "gdt_new c" KernelCode] simp: entries_def privilege_def)
  obtain g2 where g2: "gdt_append c KernelData g1 = (g2, Inr 0x10)" "used g2 = 3"
    using g1 by (auto intro: append_step [OF assms, of g1 KernelData] simp: entries_def privilege_def)
  obtain g3 where g3: "gdt_append c UserData g2 = (g3, Inr 0x1B)" "used g3 = 4"
    using g2 by (auto intro: append_step [OF assms, of g2 UserData] simp: entries_def privilege_def)
  obtain g4 where g4: "gdt_append c UserCode g3 = (g4, Inr 0x23)" "used g4 = 5"
    using g3 by (auto intro: append_step [OF assms, of g3 UserCode] simp: entries_def privilege_def)
  obtain g5 where g5: "gdt_append c TssSegment g4 = (g5, Inr 0x28)" "used g5 = 7"
    using g4 by (auto intro: append_step [OF assms, of g4 TssSegment] simp: entries_def privilege_def)
  show ?thesis using g1(1) g2(1) g3(1) g4(1) g5(1) by (simp add: gdt_static_def)
qed

text \<open>
  Claim C27. The segments are appended in the order the fast system calls need: kernel data follows
  kernel code and user code follows user data, so \<^verbatim>\<open>Star::write\<close> accepts the four selectors and the
  preparation of user mode never panics; all five segments fit the table.
\<close>

theorem user_mode_prepared:
  assumes "appends_in_order c used" "star_accepts c"
  shows "\<exists>d' s d''. gdt_initialize c d = (d', Inr s)
    \<and> s = \<lparr>kernel_code = 0x08, kernel_data = 0x10, user_code = 0x23, user_data = 0x1B, tss = 0x28\<rparr>
    \<and> userspace_initialize c s d' = (d'', Inr ())"
proof -
  let ?s = "\<lparr>kernel_code = 0x08, kernel_data = 0x10, user_code = 0x23, user_data = 0x1B, tss = 0x28\<rparr>
    :: selectors"
  obtain d' where "gdt_initialize c d = (d', Inr ?s)"
    using gdt_static_selectors [OF assms(1)] by (auto simp: gdt_initialize_def Let_def)
  moreover have "snd (star_write c 0x23 0x1B 0x08 0x10 d')"
    using assms(2) by (simp add: star_accepts_def)
  then have "\<exists>d''. userspace_initialize c ?s d' = (d'', Inr ())"
    by (cases "star_write c 0x23 0x1B 0x08 0x10 d'")
      (simp add: userspace_initialize_def get_user_code_def get_user_data_def get_kernel_code_def
        get_kernel_data_def)
  ultimately show ?thesis by blast
qed

section \<open>A concrete processor\<close>

definition plain_cpu :: "(nat, 'd) cpu" where
  "plain_cpu = \<lparr>gdt_new = 1,
     gdt_append = (\<lambda>s n. if n + entries s \<le> 8 then (n + entries s, Inr (word_of_nat (8 * n + privilege s)))
       else (n, Inl ExplicitPanic)),
     gdt_load = (\<lambda>_ d. d), set_reg = (\<lambda>_ _ d. d), load_tss = (\<lambda>_ d. d),
     star_write = (\<lambda>cs_sysret ss_sysret cs_syscall ss_syscall d. (d, unat cs_sysret = unat ss_sysret + 8
       \<and> unat ss_syscall = unat cs_syscall + 8 \<and> unat ss_sysret mod 4 = 3 \<and> unat ss_syscall mod 4 = 0)),
     efer_write = (\<lambda>_ d. d)\<rparr>"

lemma plain_cpu_ok: "appends_in_order plain_cpu id" "star_accepts plain_cpu"
  by (auto simp: appends_in_order_def star_accepts_def plain_cpu_def)

lemma user_mode_prepared_witness:
  "\<exists>d' s d''. gdt_initialize plain_cpu () = (d', Inr s)
    \<and> s = \<lparr>kernel_code = 0x08, kernel_data = 0x10, user_code = 0x23, user_data = 0x1B, tss = 0x28\<rparr>
    \<and> userspace_initialize plain_cpu s d' = (d'', Inr ())"
  by (rule user_mode_prepared [OF plain_cpu_ok])

end
