(* ===== verification/Intro.thy ===== *)
theory Intro
  imports Image
begin

text \<open>
  The boot screen, \<^verbatim>\<open>kernel/src/intro.rs\<close>: three images and three lines of text, placed relative to
  the size of the screen. The strings of \<^verbatim>\<open>env!\<close> are arguments; \<^verbatim>\<open>format_args!\<close> folds them, being
  literals, into the format, so that the version line is one text.
\<close>

section \<open>The screen\<close>

text \<open>One of the three images: load it, place it, draw it.\<close>

definition intro_image ::
    "initrd \<Rightarrow> rstr \<Rightarrow> (usize \<Rightarrow> usize result) \<Rightarrow> usize \<Rightarrow> vga \<times> memory \<Rightarrow> (vga \<times> memory) \<times> unit result" where
  "intro_image rd path column row vm =
     sbind (vm, image_new rd path) (\<lambda>vm im.
     sbind (vm, column (image_get_width im)) (\<lambda>vm x.
     case image_draw (set_position im x row) (fst vm) (snd vm) of (mem, r) \<Rightarrow> ((fst vm, mem), r)))"

definition intro_pictures :: "initrd \<Rightarrow> usize \<Rightarrow> usize \<Rightarrow> vga \<times> memory \<Rightarrow> (vga \<times> memory) \<times> unit result" where
  "intro_pictures rd width height vm =
     sbind (intro_image rd (lit ''initrd/usr/share/images/logo.ppm'')
       (\<lambda>w. usize_sub (width div 2) (w div 2)) (height div 8) vm) (\<lambda>vm _.
     sbind (intro_image rd (lit ''initrd/usr/share/images/neuro.ppm'')
       (\<lambda>w. usize_sub (width div 3) (w div 2)) (height div 2) vm) (\<lambda>vm _.
     intro_image rd (lit ''initrd/usr/share/images/evil.ppm'')
       (\<lambda>w. rbind (usize_sub width (width div 3)) (\<lambda>x. usize_sub x (w div 2))) (height div 2) vm))"

definition version_line :: "rstr \<Rightarrow> rstr \<Rightarrow> rstr" where
  "version_line pkg_version commit_hash = lit ''Version '' @ pkg_version @ lit '' ('' @ commit_hash @ lit '')''"

definition copyright_line :: "rstr \<Rightarrow> rstr" where
  "copyright_line pkg_authors = lit ''Copyright (C) 2024 '' @ pkg_authors"

definition instruction_line :: rstr where
  "instruction_line = lit ''Press ENTER to continue.''"

text \<open>One of the three lines: place the cursor, and write.\<close>

definition intro_line ::
    "initrd \<Rightarrow> rstr \<Rightarrow> usize result \<Rightarrow> usize result \<Rightarrow> color \<Rightarrow> vga \<times> memory \<Rightarrow> (vga \<times> memory) \<times> unit result" where
  "intro_line rd line x y fg vm =
     sbind (vm, x) (\<lambda>vm x.
     sbind (vm, y) (\<lambda>vm y.
     write_fmt rd line (set_cursor (fst vm) x y (color_value fg) (color_value Black), snd vm)))"

definition intro_initialize ::
    "initrd \<Rightarrow> rstr \<Rightarrow> rstr \<Rightarrow> rstr \<Rightarrow> vga \<times> memory \<Rightarrow> (vga \<times> memory) \<times> unit result" where
  "intro_initialize rd pkg_version commit_hash pkg_authors vm =
     (let width = vga_get_width (fst vm);
          height = vga_get_height (fst vm);
          font_width = get_font_width (fst vm) in
      sbind (intro_pictures rd width height vm) (\<lambda>vm _.
      sbind (intro_line rd (version_line pkg_version commit_hash) (Inr font_width)
        (usize_sub height font_width) Red vm) (\<lambda>vm _.
      let copyright = copyright_line pkg_authors in
      sbind (intro_line rd copyright
        (rbind (rbind (usize_mul (length (utf8_bytes copyright)) font_width)
          (\<lambda>n. usize_add n font_width)) (\<lambda>n. usize_sub width n))
        (usize_sub height font_width) Blue vm) (\<lambda>vm _.
      let instruction = instruction_line in
      intro_line rd instruction
        (rbind (usize_mul (length (utf8_bytes instruction)) font_width)
          (\<lambda>n. usize_sub (width div 2) (n div 2)))
        (usize_sub height (height div 4)) White vm))))"

section \<open>Drawing within the screen\<close>

text \<open>An operation that only draws: it does not panic, and changes no byte outside the framebuffer.\<close>

definition draws :: "vga \<times> memory \<Rightarrow> vga \<times> memory \<Rightarrow> bool" where
  "draws vm vm' \<longleftrightarrow> (\<exists>x y fg bg. fst vm' = set_cursor (fst vm) x y fg bg)
     \<and> (\<forall>p. \<not> framebuffer_byte (fst vm) p \<longrightarrow> snd vm' p = snd vm p)"

lemma framebuffer_byte_set_cursor [simp]:
  "framebuffer_byte (set_cursor v x y fg bg) = framebuffer_byte v"
  by (simp add: fun_eq_iff framebuffer_byte_def set_cursor_def)

lemma cell_on_screen_set_cursor [simp]:
  "cell_on_screen (set_cursor v x y fg bg) = cell_on_screen v"
  by (simp add: fun_eq_iff cell_on_screen_def)

lemma set_cursor_same: "\<exists>x y fg bg. set_cursor v x y fg bg = v"
proof -
  obtain x y fg bg where "v_cursor v = \<lparr>cur_x = x, cur_y = y, cur_fg = fg, cur_bg = bg\<rparr>"
    by (cases "v_cursor v") auto
  then have "set_cursor v x y fg bg = v" by (simp add: set_cursor_def)
  then show ?thesis by blast
qed

lemma draws_refl: "draws vm vm"
  using set_cursor_same [of "fst vm"] by (metis draws_def)

lemma draws_trans: "draws a b \<Longrightarrow> draws b c \<Longrightarrow> draws a c"
  by (fastforce simp: draws_def)

lemma draws_cursor: "draws vm (v, mem) \<Longrightarrow> draws vm (set_cursor v x y fg bg, mem)"
  by (fastforce simp: draws_def)

lemma draws_fields:
  assumes "draws vm vm'"
  shows "v_width (fst vm') = v_width (fst vm)" "v_height (fst vm') = v_height (fst vm)"
    "v_font (fst vm') = v_font (fst vm)" "vga_fits (fst vm') = vga_fits (fst vm)"
    "cell_on_screen (fst vm') = cell_on_screen (fst vm)"
  using assms by (auto simp: draws_def)

text \<open>An image that exists and fits at its place; a text that fits at its place.\<close>

definition image_fits :: "initrd \<Rightarrow> rstr \<Rightarrow> (usize \<Rightarrow> usize result) \<Rightarrow> usize \<Rightarrow> vga \<Rightarrow> bool" where
  "image_fits rd path column row v \<longleftrightarrow>
     (\<exists>im x. image_new rd path = Inr im \<and> column (im_width (img_hdr im)) = Inr x
       \<and> x + im_width (img_hdr im) \<le> unat (v_width v) \<and> row + im_height (img_hdr im) \<le> unat (v_height v))"

lemma intro_image_draws:
  assumes "image_fits rd path column row (fst vm)" "vga_fits (fst vm)"
  obtains vm' where "intro_image rd path column row vm = (vm', Inr ())" "draws vm vm'"
proof -
  obtain im x where im: "image_new rd path = Inr im" "column (im_width (img_hdr im)) = Inr x"
      "x + im_width (img_hdr im) \<le> unat (v_width (fst vm))"
      "row + im_height (img_hdr im) \<le> unat (v_height (fst vm))"
    using assms(1) by (auto simp: image_fits_def)
  have "image_ok (set_position im x row)"
    using image_new_ok [OF im(1)] by (simp add: image_ok_def set_position_def)
  then obtain mem' where mem': "image_draw (set_position im x row) (fst vm) (snd vm) = (mem', Inr ())"
      "screen.painted (fst vm) (snd vm) mem' (\<lambda>px py. x \<le> px \<and> px < x + im_width (img_hdr im)
         \<and> row \<le> py \<and> py < row + im_height (img_hdr im))
        (\<lambda>px py. rgb_color (img_data (set_position im x row) ! (py - row) ! (px - x)))"
    using image_draw_painted [of "set_position im x row" "im_width (img_hdr im)" "im_height (img_hdr im)" x row]
      assms(2) im(3,4) by (auto simp: set_position_def)
  have "draws vm (fst vm, mem')"
    using painted_screen(2) [OF mem'(2)] set_cursor_same [of "fst vm"] by (auto simp: draws_def) metis
  moreover have "intro_image rd path column row vm = ((fst vm, mem'), Inr ())"
    using im(1,2) mem'(1) by (simp add: intro_image_def image_get_width_def)
  ultimately show thesis by (intro that)
qed

lemma intro_line_draws:
  assumes "font_ok (v_font (fst vm))" "\<forall>c\<in>set s. printable c" "s \<noteq> []"
    and "cell_on_screen (fst vm) x y (length s)"
  obtains mem' where "intro_line rd s (Inr x) (Inr y) fg vm
      = ((set_cursor (fst vm) (x + 8 * (length s - 1)) y (color_value fg) (color_value Black), mem'), Inr ())"
    "draws vm (set_cursor (fst vm) (x + 8 * (length s - 1)) y (color_value fg) (color_value Black), mem')"
    "\<And>px py. on_screen (fst vm) px py \<Longrightarrow> pixel_at (fst vm) mem' px py =
       (if x \<le> px \<and> px < x + 8 * length s \<and> y - 12 \<le> py \<and> py < y + 4
        then text_color (v_font (fst vm)) (color_value fg) (color_value Black) s x (y - 12) px py
        else pixel_at (fst vm) (snd vm) px py)"
proof -
  let ?fg = "color_value fg" and ?bg = "color_value Black"
  obtain mem' where mem': "write_str rd s (set_cursor (fst vm) x y ?fg ?bg, snd vm)
      = ((set_cursor (fst vm) (x + 8 * (length s - 1)) y ?fg ?bg, mem'), Inr ())"
    "screen.painted (fst vm) (snd vm) mem' (\<lambda>px py. x \<le> px \<and> px < x + 8 * length s
        \<and> y - 12 \<le> py \<and> py < y + 4) (text_color (v_font (fst vm)) ?fg ?bg s x (y - 12))"
    using write_str_text [of "set_cursor (fst vm) x y ?fg ?bg" s x y ?fg ?bg rd "snd vm"] assms
    unfolding cell_rows [OF assms(4)] by auto
  have "draws vm (set_cursor (fst vm) (x + 8 * (length s - 1)) y ?fg ?bg, mem')"
    using painted_screen(2) [OF mem'(2)] by (auto simp: draws_def)
  moreover have "intro_line rd s (Inr x) (Inr y) fg vm
      = ((set_cursor (fst vm) (x + 8 * (length s - 1)) y ?fg ?bg, mem'), Inr ())"
    using mem'(1) by (simp add: intro_line_def)
  ultimately show thesis using that painted_screen(1) [OF mem'(2)] by blast
qed

lemma intro_line_some:
  assumes "font_ok (v_font (fst vm))" "\<forall>c\<in>set s. printable c" "s \<noteq> []"
    and "cell_on_screen (fst vm) x y (length s)"
  shows "\<exists>vm'. intro_line rd s (Inr x) (Inr y) fg vm = (vm', Inr ()) \<and> draws vm vm'"
  using intro_line_draws [OF assms, of rd fg] by metis

lemma image_fits_draws:
  "draws vm vm' \<Longrightarrow> image_fits rd path column row (fst vm') = image_fits rd path column row (fst vm)"
  using draws_fields(1,2) [of vm vm'] by (simp add: image_fits_def)

section \<open>The layout\<close>

text \<open>An image that is in the RAM disk and at most \<open>w\<close> by \<open>h\<close> pixels.\<close>

definition has_image :: "initrd \<Rightarrow> rstr \<Rightarrow> usize \<Rightarrow> usize \<Rightarrow> bool" where
  "has_image rd name w h \<longleftrightarrow>
     (\<exists>im. image_new rd (lit ''initrd/usr/share/images/'' @ name) = Inr im
       \<and> im_width (img_hdr im) \<le> w \<and> im_height (img_hdr im) \<le> h)"

text \<open>
  A screen of \<open>W\<close> by \<open>H\<close> pixels on which everything fits: the logo is as wide as the screen at
  most, the two other images two thirds of it, and each line of text a line.
\<close>

definition intro_fits :: "initrd \<Rightarrow> rstr \<Rightarrow> rstr \<Rightarrow> rstr \<Rightarrow> vga \<Rightarrow> usize \<Rightarrow> usize \<Rightarrow> bool" where
  "intro_fits rd pkg_version commit_hash pkg_authors v W H \<longleftrightarrow>
     vga_fits v \<and> font_ok (v_font v) \<and> unat (v_width v) = W \<and> unat (v_height v) = H
     \<and> 192 \<le> W \<and> 20 \<le> H
     \<and> has_image rd (lit ''logo.ppm'') W (H - H div 8)
     \<and> has_image rd (lit ''neuro.ppm'') (2 * (W div 3)) (H - H div 2)
     \<and> has_image rd (lit ''evil.ppm'') (2 * (W div 3)) (H - H div 2)
     \<and> (\<forall>c\<in>set (version_line pkg_version commit_hash). printable c)
     \<and> 8 * length (version_line pkg_version commit_hash) + 8 \<le> W
     \<and> (\<forall>c\<in>set (copyright_line pkg_authors). printable c \<and> c < 128)
     \<and> 8 * length (copyright_line pkg_authors) + 8 \<le> W"

lemma has_image_fits:
  assumes "has_image rd name w h" "\<And>n. n \<le> w \<Longrightarrow> \<exists>x. column n = Inr x \<and> x + n \<le> unat (v_width v)"
    and "row + h \<le> unat (v_height v)"
  shows "image_fits rd (lit ''initrd/usr/share/images/'' @ name) column row v"
  using assms by (fastforce simp: has_image_def image_fits_def)

lemma intro_images:
  assumes "intro_fits rd ver hash authors v W H"
  shows "image_fits rd (lit ''initrd/usr/share/images/logo.ppm'') (\<lambda>w. usize_sub (W div 2) (w div 2)) (H div 8) v"
    "image_fits rd (lit ''initrd/usr/share/images/neuro.ppm'') (\<lambda>w. usize_sub (W div 3) (w div 2)) (H div 2) v"
    "image_fits rd (lit ''initrd/usr/share/images/evil.ppm'')
      (\<lambda>w. rbind (usize_sub W (W div 3)) (\<lambda>x. usize_sub x (w div 2))) (H div 2) v"
proof -
  have size: "unat (v_width v) = W" "unat (v_height v) = H" using assms by (simp_all add: intro_fits_def)
  have name: "lit ''initrd/usr/share/images/logo.ppm'' = lit ''initrd/usr/share/images/'' @ lit ''logo.ppm''"
    "lit ''initrd/usr/share/images/neuro.ppm'' = lit ''initrd/usr/share/images/'' @ lit ''neuro.ppm''"
    "lit ''initrd/usr/share/images/evil.ppm'' = lit ''initrd/usr/share/images/'' @ lit ''evil.ppm''"
    by simp_all
  have column: "\<exists>x. usize_sub (W div 2) (n div 2) = Inr x \<and> x + n \<le> unat (v_width v)" if "n \<le> W" for n
    using that size by (auto simp: usize_sub_def)
  have column3: "\<exists>x. usize_sub (W div 3) (n div 2) = Inr x \<and> x + n \<le> unat (v_width v)"
    "\<exists>x. rbind (usize_sub W (W div 3)) (\<lambda>x. usize_sub x (n div 2)) = Inr x \<and> x + n \<le> unat (v_width v)"
    if "n \<le> 2 * (W div 3)" for n
    using that size by (auto simp: usize_sub_def)
  show "image_fits rd (lit ''initrd/usr/share/images/logo.ppm'') (\<lambda>w. usize_sub (W div 2) (w div 2)) (H div 8) v"
    unfolding name
    by (rule has_image_fits [OF _ column]) (use assms size in \<open>auto simp: intro_fits_def\<close>)
  show "image_fits rd (lit ''initrd/usr/share/images/neuro.ppm'') (\<lambda>w. usize_sub (W div 3) (w div 2)) (H div 2) v"
    unfolding name
    by (rule has_image_fits [OF _ column3(1)]) (use assms size in \<open>auto simp: intro_fits_def\<close>)
  show "image_fits rd (lit ''initrd/usr/share/images/evil.ppm'')
      (\<lambda>w. rbind (usize_sub W (W div 3)) (\<lambda>x. usize_sub x (w div 2))) (H div 2) v"
    unfolding name
    by (rule has_image_fits [OF _ column3(2)]) (use assms size in \<open>auto simp: intro_fits_def\<close>)
qed

lemma intro_pictures_draw:
  assumes fits: "intro_fits rd ver hash authors v W H"
  obtains vm where "intro_pictures rd W H (v, mem) = (vm, Inr ())" "draws (v, mem) vm"
proof -
  have v: "vga_fits v" using fits by (simp add: intro_fits_def)
  note images = intro_images [OF fits]
  obtain vm1 where 1: "intro_image rd (lit ''initrd/usr/share/images/logo.ppm'')
      (\<lambda>w. usize_sub (W div 2) (w div 2)) (H div 8) (v, mem) = (vm1, Inr ())" "draws (v, mem) vm1"
    by (rule intro_image_draws [of rd _ _ _ "(v, mem)"]) (use images(1) v in simp_all)
  obtain vm2 where 2: "intro_image rd (lit ''initrd/usr/share/images/neuro.ppm'')
      (\<lambda>w. usize_sub (W div 3) (w div 2)) (H div 2) vm1 = (vm2, Inr ())" "draws vm1 vm2"
    by (rule intro_image_draws [of rd _ _ _ vm1])
      (use images(2) v draws_fields(4) [OF 1(2)] in \<open>simp_all add: image_fits_draws [OF 1(2)]\<close>)
  note 12 = draws_trans [OF 1(2) 2(2)]
  obtain vm3 where 3: "intro_image rd (lit ''initrd/usr/share/images/evil.ppm'')
      (\<lambda>w. rbind (usize_sub W (W div 3)) (\<lambda>x. usize_sub x (w div 2))) (H div 2) vm2 = (vm3, Inr ())"
      "draws vm2 vm3"
    by (rule intro_image_draws [of rd _ _ _ vm2])
      (use images(3) v draws_fields(4) [OF 12] in \<open>simp_all add: image_fits_draws [OF 12]\<close>)
  from that [of vm3] show thesis
    using 1(1) 2(1) 3(1) draws_trans [OF 12 3(2)] by (simp add: intro_pictures_def)
qed

text \<open>The places of the three lines.\<close>

lemma intro_places:
  assumes "intro_fits rd ver hash authors v W H"
  shows "cell_on_screen v 8 (H - 8) (length (version_line ver hash))"
    "cell_on_screen v (W - (8 * length (copyright_line authors) + 8)) (H - 8) (length (copyright_line authors))"
    "cell_on_screen v (W div 2 - 96) (H - H div 4) (length instruction_line)"
    "usize_sub H 8 = Inr (H - 8)" "usize_sub H (H div 4) = Inr (H - H div 4)"
    "rbind (rbind (usize_mul (length (utf8_bytes (copyright_line authors))) 8) (\<lambda>n. usize_add n 8)) (usize_sub W)
      = Inr (W - (8 * length (copyright_line authors) + 8))"
    "rbind (usize_mul (length (utf8_bytes instruction_line)) 8) (\<lambda>n. usize_sub (W div 2) (n div 2))
      = Inr (W div 2 - 96)"
proof -
  have size: "vga_fits v" "unat (v_width v) = W" "unat (v_height v) = H" "192 \<le> W" "20 \<le> H"
      "8 * length (version_line ver hash) + 8 \<le> W" "8 * length (copyright_line authors) + 8 \<le> W"
      "\<forall>c\<in>set (copyright_line authors). c < 128"
    using assms by (auto simp: intro_fits_def)
  have W: "W < 2 ^ 64" using unat_bounds(4) [of "v_width v"] size(2) by simp
  show "cell_on_screen v 8 (H - 8) (length (version_line ver hash))"
    "cell_on_screen v (W - (8 * length (copyright_line authors) + 8)) (H - 8) (length (copyright_line authors))"
    "cell_on_screen v (W div 2 - 96) (H - H div 4) (length instruction_line)"
    using size by (auto simp: cell_on_screen_def instruction_line_def)
  show "usize_sub H 8 = Inr (H - 8)" "usize_sub H (H div 4) = Inr (H - H div 4)"
    using size by (simp_all add: usize_sub_def)
  show "rbind (rbind (usize_mul (length (utf8_bytes (copyright_line authors))) 8) (\<lambda>n. usize_add n 8)) (usize_sub W)
      = Inr (W - (8 * length (copyright_line authors) + 8))"
    using size W length_utf8_bytes_ascii [OF size(8)]
    by (simp add: usize_mul_def usize_add_def usize_sub_def mult.commute)
  have "length (utf8_bytes instruction_line) = 24"
    by (subst length_utf8_bytes_ascii) (simp_all add: instruction_line_def)
  then show "rbind (usize_mul (length (utf8_bytes instruction_line)) 8) (\<lambda>n. usize_sub (W div 2) (n div 2))
      = Inr (W div 2 - 96)"
    using size by (simp add: usize_mul_def usize_sub_def)
qed

text \<open>Everything but the instruction.\<close>

lemma intro_background:
  assumes "intro_fits rd pkg_version commit_hash pkg_authors v W H"
  obtains vm3 vm4 vm5 where "intro_pictures rd W H (v, mem) = (vm3, Inr ())"
    "intro_line rd (version_line pkg_version commit_hash) (Inr 8) (Inr (H - 8)) Red vm3 = (vm4, Inr ())"
    "intro_line rd (copyright_line pkg_authors)
       (Inr (W - (8 * length (copyright_line pkg_authors) + 8))) (Inr (H - 8)) Blue vm4 = (vm5, Inr ())"
    "draws (v, mem) vm5"
proof -
  let ?version = "version_line pkg_version commit_hash" and ?copyright = "copyright_line pkg_authors"
  note places = intro_places [OF assms]
  have v: "font_ok (v_font v)"
    and chars: "\<forall>c\<in>set ?version. printable c" "\<forall>c\<in>set ?copyright. printable c"
    using assms by (auto simp: intro_fits_def)
  have lines: "?version \<noteq> []" "?copyright \<noteq> []" by (simp_all add: version_line_def copyright_line_def)
  obtain vm3 where pictures: "intro_pictures rd W H (v, mem) = (vm3, Inr ())" and d3: "draws (v, mem) vm3"
    by (rule intro_pictures_draw [OF assms])
  note f3 = draws_fields [OF d3, unfolded fst_conv]
  obtain vm4 where w4: "intro_line rd ?version (Inr 8) (Inr (H - 8)) Red vm3 = (vm4, Inr ())"
      and d34: "draws vm3 vm4"
    using intro_line_some [OF _ chars(1) lines(1), of vm3 8 "H - 8" rd Red] places(1) v
    unfolding f3 by auto
  note d4 = draws_trans [OF d3 d34]
  note f4 = draws_fields [OF d4, unfolded fst_conv]
  obtain vm5 where w5: "intro_line rd ?copyright (Inr (W - (8 * length ?copyright + 8))) (Inr (H - 8)) Blue vm4
      = (vm5, Inr ())" and d45: "draws vm4 vm5"
    using intro_line_some [OF _ chars(2) lines(2), of vm4 "W - (8 * length ?copyright + 8)" "H - 8" rd Blue]
      places(2) v unfolding f4 by auto
  note d5 = draws_trans [OF d4 d45]
  show thesis by (rule that [OF pictures w4 w5 d5])
qed

lemma intro_screen_drawn:
  assumes "intro_fits rd pkg_version commit_hash pkg_authors v W H"
  shows "\<exists>mem'. intro_initialize rd pkg_version commit_hash pkg_authors (v, mem)
      = ((set_cursor v (W div 2 + 88) (H - H div 4) (color_value White) (color_value Black), mem'), Inr ())
    \<and> (\<forall>p. \<not> framebuffer_byte v p \<longrightarrow> mem' p = mem p)
    \<and> (\<forall>px py. W div 2 - 96 \<le> px \<and> px < W div 2 + 96 \<and> H - H div 4 - 12 \<le> py \<and> py < H - H div 4 + 4 \<longrightarrow>
         pixel_at v mem' px py = glyph_color (v_font v) (color_value White) (color_value Black)
           (instruction_line ! ((px - (W div 2 - 96)) div 8)) ((px - (W div 2 - 96)) mod 8)
           (py - (H - H div 4 - 12)))"
proof -
  let ?version = "version_line pkg_version commit_hash" and ?copyright = "copyright_line pkg_authors"
  note places = intro_places [OF assms]
  have v: "vga_fits v" "font_ok (v_font v)" "unat (v_width v) = W" "unat (v_height v) = H" "192 \<le> W" "20 \<le> H"
    and chars: "\<forall>c\<in>set instruction_line. printable c"
    using assms by (auto simp: intro_fits_def instruction_line_def printable_def)
  have lines: "instruction_line \<noteq> []" "length instruction_line = 24"
    by (simp_all add: instruction_line_def)
  obtain vm3 vm4 vm5 where before: "intro_pictures rd W H (v, mem) = (vm3, Inr ())"
      "intro_line rd ?version (Inr 8) (Inr (H - 8)) Red vm3 = (vm4, Inr ())"
      "intro_line rd ?copyright (Inr (W - (8 * length ?copyright + 8))) (Inr (H - 8)) Blue vm4 = (vm5, Inr ())"
    and d5: "draws (v, mem) vm5"
    by (rule intro_background [OF assms])
  note f5 = draws_fields [OF d5, unfolded fst_conv]
  obtain x y fg bg where v5: "fst vm5 = set_cursor v x y fg bg" using d5 by (auto simp: draws_def)
  obtain m6 where w6: "intro_line rd instruction_line (Inr (W div 2 - 96)) (Inr (H - H div 4)) White vm5
      = ((set_cursor (fst vm5) (W div 2 - 96 + 8 * (length instruction_line - 1)) (H - H div 4)
          (color_value White) (color_value Black), m6), Inr ())"
    and d56: "draws vm5 (set_cursor (fst vm5) (W div 2 - 96 + 8 * (length instruction_line - 1)) (H - H div 4)
          (color_value White) (color_value Black), m6)"
    and pixels: "\<And>px py. on_screen (fst vm5) px py \<Longrightarrow> pixel_at (fst vm5) m6 px py =
       (if W div 2 - 96 \<le> px \<and> px < W div 2 - 96 + 8 * length instruction_line
          \<and> H - H div 4 - 12 \<le> py \<and> py < H - H div 4 + 4
        then text_color (v_font (fst vm5)) (color_value White) (color_value Black) instruction_line
          (W div 2 - 96) (H - H div 4 - 12) px py
        else pixel_at (fst vm5) (snd vm5) px py)"
    by (rule intro_line_draws [OF _ chars lines(1), of vm5 "W div 2 - 96" "H - H div 4" rd White])
      (use places(3) v(2) f5 in simp_all)
  have "W div 2 - 96 + 8 * (length instruction_line - 1) = W div 2 + 88"
    using v(5) lines(2) by simp
  then have run: "intro_initialize rd pkg_version commit_hash pkg_authors (v, mem)
      = ((set_cursor v (W div 2 + 88) (H - H div 4) (color_value White) (color_value Black), m6), Inr ())"
    using before w6 v v5 places(4-7)
    by (simp add: intro_initialize_def vga_get_width_def vga_get_height_def get_font_width_def Let_def
        del: rbind_Inr_iff)
  have "\<forall>p. \<not> framebuffer_byte v p \<longrightarrow> m6 p = mem p"
    using draws_trans [OF d5 d56] by (simp add: draws_def)
  moreover have "on_screen v px py"
    if "W div 2 - 96 \<le> px \<and> px < W div 2 + 96 \<and> H - H div 4 - 12 \<le> py \<and> py < H - H div 4 + 4" for px py
    using that v by (auto simp: on_screen_def)
  ultimately show ?thesis
    using run pixels lines(2) v v5 by (auto simp: text_color_def)
qed

text \<open>
  Claim C25. When everything fits, the boot screen is drawn without a panic, no byte outside the
  framebuffer changes, and the instruction stands in white on black, centred, a quarter of the screen
  above its bottom; the cursor is left on its last character, and the font is not changed.
\<close>

theorem intro_screen:
  assumes "intro_fits rd pkg_version commit_hash pkg_authors v W H"
  shows "\<exists>mem'. intro_initialize rd pkg_version commit_hash pkg_authors (v, mem)
      = ((set_cursor v (W div 2 + 88) (H - H div 4) (color_value White) (color_value Black), mem'), Inr ())
    \<and> (\<forall>p. \<not> framebuffer_byte v p \<longrightarrow> mem' p = mem p)
    \<and> (\<forall>px py. W div 2 - 96 \<le> px \<and> px < W div 2 + 96 \<and> H - H div 4 - 12 \<le> py \<and> py < H - H div 4 + 4 \<longrightarrow>
         pixel_at v mem' px py = glyph_color (v_font v) (color_value White) (color_value Black)
           (instruction_line ! ((px - (W div 2 - 96)) div 8)) ((px - (W div 2 - 96)) mod 8)
           (py - (H - H div 4 - 12)))"
  by (rule intro_screen_drawn [OF assms])

section \<open>A concrete boot screen\<close>

definition boot_disk :: initrd where
  "boot_disk = ramdisk_with (map (\<lambda>name. (lit ''initrd/usr/share/images/'' @ name @ lit ''.ppm'',
     encode_image (lit ''ppm'') 2 1 two_pixels)) [lit ''logo'', lit ''neuro'', lit ''evil''])"

lemma has_two_pixels:
  assumes "map_of (initrd_contents rd) (lit ''initrd/usr/share/images/'' @ stem @ 46 # lit ''ppm'')
      = Some (encode_image (lit ''ppm'') 2 1 two_pixels)" "2 \<le> w" "1 \<le> h"
  shows "has_image rd (stem @ 46 # lit ''ppm'') w h"
proof -
  have "get_data rd (lit ''initrd/usr/share/images/'' @ stem @ 46 # lit ''ppm'')
      = Inr (encode_image (lit ''ppm'') 2 1 two_pixels)"
    by (rule ramdisk.lookup_present [OF assms(1)])
  then have "image_new rd (lit ''initrd/usr/share/images/'' @ stem @ 46 # lit ''ppm'')
      = Inr \<lparr>img_hdr = \<lparr>im_width = 2, im_height = 1, im_x = 0, im_y = 0\<rparr>, img_data = two_pixels\<rparr>"
    unfolding image_new_def using two_pixels_new [of "lit ''initrd/usr/share/images/'' @ stem"]
    by (simp del: lit_simps)
  then show ?thesis using assms(2,3) by (simp add: has_image_def del: lit_simps)
qed

text \<open>The three names, for a RAM disk that has the same small picture under each.\<close>

lemma has_small_images:
  assumes "\<And>stem. stem \<in> {lit ''logo'', lit ''neuro'', lit ''evil''} \<Longrightarrow>
      map_of (initrd_contents rd) (lit ''initrd/usr/share/images/'' @ stem @ 46 # lit ''ppm'')
      = Some (encode_image (lit ''ppm'') 2 1 two_pixels)" "2 \<le> w" "1 \<le> h"
  shows "has_image rd (lit ''logo.ppm'') w h" "has_image rd (lit ''neuro.ppm'') w h"
    "has_image rd (lit ''evil.ppm'') w h"
  using has_two_pixels [OF assms(1), of "lit ''logo''"] has_two_pixels [OF assms(1), of "lit ''neuro''"]
    has_two_pixels [OF assms(1), of "lit ''evil''"] assms(2,3) by simp_all

lemma small_intro_fits:
  assumes "\<And>stem. stem \<in> {lit ''logo'', lit ''neuro'', lit ''evil''} \<Longrightarrow>
      map_of (initrd_contents rd) (lit ''initrd/usr/share/images/'' @ stem @ 46 # lit ''ppm'')
      = Some (encode_image (lit ''ppm'') 2 1 two_pixels)"
    and "vga_fits v" "font_ok (v_font v)" "v_width v = 320" "v_height v = 64"
  shows "intro_fits rd (lit ''0.1.0'') (lit ''c0ffee1'') (lit ''Theomund'') v 320 64"
  unfolding intro_fits_def
  by (intro conjI has_small_images assms(1))
    (auto simp: version_line_def copyright_line_def printable_def assms)

lemma intro_screen_witness:
  "\<exists>mem'. intro_initialize boot_disk (lit ''0.1.0'') (lit ''c0ffee1'') (lit ''Theomund'') (small_screen, \<lambda>_. 0)
    = ((set_cursor small_screen 248 48 (color_value White) (color_value Black), mem'), Inr ())"
proof -
  have "intro_fits boot_disk (lit ''0.1.0'') (lit ''c0ffee1'') (lit ''Theomund'') small_screen 320 64"
    by (rule small_intro_fits) (auto simp: boot_disk_def, simp_all add: small_screen_def)
  from intro_screen [OF this, of "\<lambda>_. 0"] show ?thesis by auto
qed

end
