(* ===== verification/Text_Layout.thy ===== *)
theory Text_Layout
  imports Keyboard
begin

text \<open>
  What a text looks like on the screen: a specification of the text writer of \<^verbatim>\<open>vga.rs\<close> that does not draw. The
  escape sequences give each character a font and a colour, the characters take their cells row by row, and
  the picture is what the cells show. A text made of printable characters, newlines and escape sequences is shown
  exactly like that.
\<close>

section \<open>The height of the screen does not matter to the writer\<close>

text \<open>
  Nothing that writes text reads the height of the screen. So what it does below the lower edge is what it
  does on a screen that is tall enough.
\<close>

definition taller :: "u64 \<Rightarrow> vga \<times> memory \<Rightarrow> vga \<times> memory" where
  "taller h vm = ((fst vm)\<lparr>v_height := h\<rparr>, snd vm)"

lemma taller_pair [simp]: "taller h (v, mem) = (v\<lparr>v_height := h\<rparr>, mem)"
  by (simp add: taller_def)

lemma set_cursor_taller [simp]: "set_cursor (v\<lparr>v_height := h\<rparr>) x y fg bg = (set_cursor v x y fg bg)\<lparr>v_height := h\<rparr>"
  by (simp add: set_cursor_def)

lemma write_char_taller [simp]: "write_char (v\<lparr>v_height := h\<rparr>) c mem = write_char v c mem"
  by (simp add: write_char_def draw_pixel_def cong: if_cong)

lemma sbind_taller:
  assumes "\<And>x. r = Inr x \<Longrightarrow> f' (v\<lparr>v_height := h\<rparr>, mem) x = apfst (taller h) (f (v, mem) x)"
  shows "sbind ((v\<lparr>v_height := h\<rparr>, mem), r) f' = apfst (taller h) (sbind ((v, mem), r) f)"
  using assms by (cases r) auto

lemma write_str_loop_taller:
  "write_str_loop rd cs x y fg bg n (taller h s) = apfst (taller h) (write_str_loop rd cs x y fg bg n s)"
proof (induction cs arbitrary: x y fg bg n s rule: length_induct)
  case (1 cs)
  show ?case
  proof (cases cs)
    case Nil
    then show ?thesis by (simp add: write_str_loop.simps(1))
  next
    case (Cons c ds)
    have IH: "write_str_loop rd es x y fg bg n (taller h s) = apfst (taller h) (write_str_loop rd es x y fg bg n s)"
      if "length es \<le> length ds" for es x y fg bg n s
      by (rule 1(1) [rule_format]) (use that Cons in simp)
    have drop: "length (drop 1 (dropWhile P ds)) \<le> length ds" for P
      using length_dropWhile_le [of P ds] by simp
    obtain v mem where s: "s = (v, mem)" by (cases s)
    have IH': "write_str_loop rd es x y fg bg n (w\<lparr>v_height := h\<rparr>, m)
        = apfst (taller h) (write_str_loop rd es x y fg bg n (w, m))" if "length es \<le> length ds" for es x y fg bg n w m
      using IH [OF that, of x y fg bg n "(w, m)"] by simp
    let ?es = "drop 1 (dropWhile (\<lambda>x. x \<noteq> 109) ds)"
    consider "c = 10" | "c = 13" | "c = 9" | "c = 27" | "c \<noteq> 10" "c \<noteq> 13" "c \<noteq> 9" "c \<noteq> 27" by blast
    then show ?thesis
    proof cases
      case 1
      then show ?thesis
        unfolding Cons s write_str_loop.simps(2) Let_def
        by (simp add: IH') (rule sbind_taller, simp add: IH')
    next
      case 2
      then show ?thesis unfolding Cons s write_str_loop.simps(2) Let_def by (simp add: IH')
    next
      case 3
      then show ?thesis
        unfolding Cons s write_str_loop.simps(2) Let_def
        by simp (rule sbind_taller, simp add: IH')
    next
      case 4
      have font: "sbind ((v\<lparr>v_height := h\<rparr>, mem), r) (\<lambda>s f. write_str_loop rd ?es x y fg bg n ((fst s)\<lparr>v_font := f\<rparr>, snd s))
          = apfst (taller h) (sbind ((v, mem), r) (\<lambda>s f. write_str_loop rd ?es x y fg bg n ((fst s)\<lparr>v_font := f\<rparr>, snd s)))" for r
      proof (rule sbind_taller)
        fix f
        have "v\<lparr>v_height := h, v_font := f\<rparr> = v\<lparr>v_font := f, v_height := h\<rparr>" by simp
        then show "write_str_loop rd ?es x y fg bg n ((fst (v\<lparr>v_height := h\<rparr>, mem))\<lparr>v_font := f\<rparr>, snd (v\<lparr>v_height := h\<rparr>, mem))
            = apfst (taller h) (write_str_loop rd ?es x y fg bg n ((fst (v, mem))\<lparr>v_font := f\<rparr>, snd (v, mem)))"
          by (simp only: fst_conv snd_conv IH' [OF drop])
      qed
      show ?thesis
        unfolding Cons s write_str_loop.simps(2) Let_def taller_pair font
        using 4 IH' [OF drop] by simp
    next
      case 5
      then show ?thesis
        unfolding Cons s write_str_loop.simps(2) Let_def
        by simp (rule sbind_taller,
          simp add: IH' sbind_def split: sum.split prod.split)
    qed
  qed
qed

lemma write_str_taller: "write_str rd s (taller h vm) = apfst (taller h) (write_str rd s vm)"
  by (simp add: write_str_def write_str_loop_taller [symmetric] Let_def) (simp add: taller_def)

section \<open>Characters with a font and a colour\<close>

text \<open>The characters of a text outside its escape sequences.\<close>

function unescaped :: "rstr \<Rightarrow> rstr" where
  "unescaped [] = []"
| "unescaped (c # cs) =
     (if c = 27 then unescaped (drop 1 (dropWhile (\<lambda>x. x \<noteq> 109) cs)) else c # unescaped cs)"
  by pat_completeness auto
termination
proof (relation "measure length", goal_cases)
qed (auto simp: le_imp_less_Suc length_dropWhile_le diff_le_self order.trans [OF diff_le_self])

type_synonym styled = "font \<times> u32 \<times> rchar"

text \<open>
  \<open>styled bold normal f fg s\<close>: the characters of \<open>s\<close> outside its escape sequences, each with the font and the
  colour that the sequences before it select, from \<open>f\<close> and \<open>fg\<close> on.
\<close>

function styled :: "font \<Rightarrow> font \<Rightarrow> font \<Rightarrow> u32 \<Rightarrow> rstr \<Rightarrow> styled list" where
  "styled bold normal f fg [] = []"
| "styled bold normal f fg (c # cs) =
     (if c = 27 then
        let sequence = 27 # takeWhile (\<lambda>x. x \<noteq> 109) cs @ [109]; rest = drop 1 (dropWhile (\<lambda>x. x \<noteq> 109) cs) in
        if sequence = BOLD then styled bold normal bold fg rest
        else if sequence = NORMAL then styled bold normal normal fg rest
        else styled bold normal f (sequence_color sequence fg) rest
      else (f, fg, c) # styled bold normal f fg cs)"
  by pat_completeness auto
termination
proof (relation "measure (\<lambda>(_, _, _, _, cs). length cs)", goal_cases)
qed (auto simp: le_imp_less_Suc length_dropWhile_le diff_le_self order.trans [OF diff_le_self])

lemma styled_chars: "map (\<lambda>(_, _, c). c) (styled bold normal f fg s) = unescaped s"
  by (induction bold normal f fg s rule: styled.induct) (auto simp: Let_def)

lemma length_styled: "length (styled bold normal f fg s) = length (unescaped s)"
  using styled_chars [of bold normal f fg s] by (metis length_map)

text \<open>Plain text takes the style it finds, and the sequences that the kernel uses set it.\<close>

lemma styled_plain:
  "27 \<notin> set s \<Longrightarrow> styled bold normal f fg (s @ t) = map (\<lambda>c. (f, fg, c)) s @ styled bold normal f fg t"
  by (induction s) auto

lemma styled_codes:
  "styled bold normal f fg (BOLD @ s) = styled bold normal bold fg s"
  "styled bold normal f fg (NORMAL @ s) = styled bold normal normal fg s"
  "styled bold normal f fg (BLUE @ s) = styled bold normal f (color_value Blue) s"
  "styled bold normal f fg (DEFAULT @ s) = styled bold normal f (color_value White) s"
  "styled bold normal f fg (GREEN @ s) = styled bold normal f (color_value Green) s"
  "styled bold normal f fg (ORANGE @ s) = styled bold normal f (color_value Orange) s"
  "styled bold normal f fg (PURPLE @ s) = styled bold normal f (color_value Purple) s"
  "styled bold normal f fg (RED @ s) = styled bold normal f (color_value Red) s"
  "styled bold normal f fg (YELLOW @ s) = styled bold normal f (color_value Yellow) s"
  by (simp_all add: code_consts ESC_def sequence_color_def)

section \<open>Cells and pictures\<close>

text \<open>
  The cell each character takes, given by the left edge and the baseline: \<open>n\<close> characters are in the row already.
  A newline takes none, and the next row is 16 pixels lower.
\<close>

fun place :: "nat \<Rightarrow> usize \<Rightarrow> styled list \<Rightarrow> (usize \<times> usize \<times> styled) list" where
  "place n y [] = []"
| "place n y ((f, fg, c) # gs) =
     (if c = 10 then place 0 (y + 16) gs else (8 + 8 * n, y, f, fg, c) # place (Suc n) y gs)"

text \<open>The picture that the cells make on a background picture.\<close>

fun picture :: "u32 \<Rightarrow> (usize \<times> usize \<times> styled) list \<Rightarrow> (usize \<Rightarrow> usize \<Rightarrow> u32) \<Rightarrow> usize \<Rightarrow> usize \<Rightarrow> u32" where
  "picture bg [] base = base"
| "picture bg ((x, y, f, fg, c) # cells) base =
     picture bg cells (\<lambda>px py. if x \<le> px \<and> px < x + 8 \<and> y - 12 \<le> py \<and> py < y + 4
       then glyph_color f fg bg c (px - x) (py - (y - 12)) else base px py)"

lemma picture_cong: "base px py = base' px py \<Longrightarrow> picture bg cells base px py = picture bg cells base' px py"
proof (induction bg cells base arbitrary: base' rule: picture.induct)
  case (2 bg x y f fg c cells base)
  show ?case unfolding picture.simps by (rule 2(1)) (simp only: 2(2))
qed simp

lemma place_rows: "(x, y', g) \<in> set (place n y gs) \<Longrightarrow> y \<le> y' \<and> y' \<le> y + 16 * length gs"
proof (induction n y gs rule: place.induct)
  case (2 n y f fg c gs)
  show ?case
  proof (cases "c = 10")
    case True
    then have "(x, y', g) \<in> set (place 0 (y + 16) gs)" using 2(3) by simp
    from 2(1) [OF True this] show ?thesis by simp
  next
    case False
    then have "y' = y \<or> (x, y', g) \<in> set (place (Suc n) y gs)" using 2(3) by auto
    then show ?thesis using 2(2) [OF False] by auto
  qed
qed simp

section \<open>Writing shows the picture\<close>

lemma geometry_font [simp]:
  "cell_on_screen (v\<lparr>v_font := f\<rparr>) = cell_on_screen v" "screen.painted (v\<lparr>v_font := f\<rparr>) = screen.painted v"
  "on_screen (v\<lparr>v_font := f\<rparr>) = on_screen v" "pixel_at (v\<lparr>v_font := f\<rparr>) = pixel_at v"
  by (simp_all add: fun_eq_iff cell_on_screen_def vga_fits_def screen.painted_def
      on_screen_def pixel_at_def pixel_offset_def beyond_screen_def framebuffer_byte_def)

text \<open>The outcome of writing: it returns, and the screen shows \<open>p\<close>.\<close>

definition shows_picture ::
    "vga \<Rightarrow> (usize \<Rightarrow> usize \<Rightarrow> u32) \<Rightarrow> (vga \<times> memory) \<times> unit result \<Rightarrow> bool" where
  "shows_picture v p out \<longleftrightarrow> (\<exists>v' mem'. out = ((v', mem'), Inr ()) \<and> same_screen v v'
     \<and> (\<forall>px py. on_screen v px py \<longrightarrow> pixel_at v mem' px py = p px py))"

lemma same_screen_cursor [simp]: "same_screen (set_cursor v x y fg bg) w \<longleftrightarrow> same_screen v w"
  by (simp add: same_screen_def set_cursor_def)

lemma shows_picture_from:
  assumes "same_screen v w" "shows_picture w p out" "\<And>px py. on_screen v px py \<Longrightarrow> p px py = q px py"
  shows "shows_picture v q out"
proof -
  have "on_screen w = on_screen v" "pixel_at w = pixel_at v"
    using assms(1)
    by (simp_all add: fun_eq_iff same_screen_def vga_fits_def on_screen_def pixel_at_def pixel_offset_def)
  then show ?thesis
    using assms(2,3) same_screen_trans [OF assms(1)] unfolding shows_picture_def by metis
qed

lemma write_str_loop_shows:
  assumes "font_new rd BOLD_FONT = Inr bold" "font_new rd NORMAL_FONT = Inr normal"
  shows "font_ok (v_font v) \<Longrightarrow> \<forall>c\<in>set (unescaped cs). c = 10 \<or> printable c \<Longrightarrow>
    \<forall>(x, y', g)\<in>set (place n y (styled bold normal (v_font v) fg cs)). cell_on_screen v x y' 1 \<Longrightarrow>
    y + 16 * length (unescaped cs) < 2 ^ 64 \<Longrightarrow>
    shows_picture v (picture bg (place n y (styled bold normal (v_font v) fg cs)) (pixel_at v mem))
      (write_str_loop rd cs 8 y fg bg n (v, mem))"
proof (induction cs arbitrary: y fg n v mem rule: length_induct)
  case (1 cs)
  show ?case
  proof (cases cs)
    case Nil
    then show ?thesis by (simp add: shows_picture_def write_str_loop.simps(1))
  next
    case (Cons c ds)
    let ?es = "drop 1 (dropWhile (\<lambda>x. x \<noteq> 109) ds)"
    have es: "length ?es \<le> length ds" using length_dropWhile_le [of "\<lambda>x. x \<noteq> 109" ds] by simp
    have IH: "shows_picture w (picture bg (place n y (styled bold normal (v_font w) fg es)) (pixel_at w mem))
        (write_str_loop rd es 8 y fg bg n (w, mem))"
      if "length es \<le> length ds" "font_ok (v_font w)" "\<forall>c\<in>set (unescaped es). c = 10 \<or> printable c"
        "\<forall>(x, y', g)\<in>set (place n y (styled bold normal (v_font w) fg es)). cell_on_screen w x y' 1"
        "y + 16 * length (unescaped es) < 2 ^ 64" for es y fg n w mem
      by (rule 1(1) [rule_format, OF _ that(2) that(3) [rule_format] that(4) [rule_format] that(5)]) (use that(1) Cons in simp_all)
    have "c = 27 \<or> c = 10 \<or> printable c" using 1(3) Cons by (cases "c = 27") simp_all
    then consider (newline) "c = 10" | (escape) "c = 27" | (glyph) "printable c" "c \<noteq> 10" "c \<noteq> 27" by blast
    then show ?thesis
    proof cases
      case newline
      let ?w = "set_cursor v 8 (y + 16) fg bg"
      have run: "write_str_loop rd cs 8 y fg bg n (v, mem) = write_str_loop rd ds 8 (y + 16) fg bg 0 (?w, mem)"
        using 1(2,5) Cons newline by (simp add: write_str_loop.simps(2) usize_add_def Let_def)
      have "shows_picture ?w (picture bg (place 0 (y + 16) (styled bold normal (v_font ?w) fg ds)) (pixel_at ?w mem))
          (write_str_loop rd ds 8 (y + 16) fg bg 0 (?w, mem))"
        by (rule IH) (use 1(2-5) Cons newline in simp_all)
      then show ?thesis
        unfolding run by (rule shows_picture_from [rotated]) (simp_all add: Cons newline)
    next
      case escape
      let ?seq = "27 # takeWhile (\<lambda>x. x \<noteq> 109) ds @ [109]"
      let ?w = "if ?seq = BOLD then v\<lparr>v_font := bold\<rparr> else if ?seq = NORMAL then v\<lparr>v_font := normal\<rparr> else v"
      let ?fg = "if ?seq = BOLD \<or> ?seq = NORMAL then fg else sequence_color ?seq fg"
      have run: "write_str_loop rd cs 8 y fg bg n (v, mem) = write_str_loop rd ?es 8 y ?fg bg n (?w, mem)"
        using assms unfolding Cons escape by (simp add: write_str_loop.simps(2) Let_def)
      have styled: "styled bold normal (v_font v) fg cs = styled bold normal (v_font ?w) ?fg ?es"
        unfolding Cons escape by (simp add: Let_def)
      have w: "same_screen v ?w" "font_ok (v_font ?w)" "cell_on_screen ?w = cell_on_screen v" "pixel_at ?w = pixel_at v"
        using assms 1(2) same_screen_font [OF _ same_screen_refl] by (auto simp: font_new_def intro: parse_font_ok)
      have "shows_picture ?w (picture bg (place n y (styled bold normal (v_font ?w) ?fg ?es)) (pixel_at ?w mem))
          (write_str_loop rd ?es 8 y ?fg bg n (?w, mem))"
      proof (rule IH [OF es w(2)])
        show "\<forall>c\<in>set (unescaped ?es). c = 10 \<or> printable c" using 1(3) unfolding Cons escape by simp
        show "\<forall>(x, y', g)\<in>set (place n y (styled bold normal (v_font ?w) ?fg ?es)). cell_on_screen ?w x y' 1"
          using 1(4) unfolding styled w(3) .
        show "y + 16 * length (unescaped ?es) < 2 ^ 64" using 1(5) unfolding Cons escape by simp
      qed
      then show ?thesis
        unfolding run styled by (rule shows_picture_from [OF w(1)]) (simp only: w(4))
    next
      case glyph
      let ?x = "8 + 8 * n"
      let ?w = "set_cursor v ?x y fg bg"
      let ?rest = "place (Suc n) y (styled bold normal (v_font v) fg ds)"
      have cells: "place n y (styled bold normal (v_font v) fg cs) = (?x, y, v_font v, fg, c) # ?rest"
        using glyph by (simp add: Cons)
      then have cell: "cell_on_screen v ?x y 1" using 1(4) by simp
      then obtain m1 where run: "write_str_loop rd (c # ds) 8 y fg bg n (v, mem)
          = write_str_loop rd ds 8 y fg bg (Suc n) (?w, m1)"
        and drawn: "screen.painted v mem m1
          (\<lambda>px py. ?x \<le> px \<and> px < ?x + 8 \<and> y - 12 \<le> py \<and> py < y - 12 + 16)
          (text_color (v_font v) fg bg [c] ?x (y - 12))"
        by (rule write_str_loop_glyph [OF 1(2) glyph(1)])
      have shown: "pixel_at v m1 px py = (if ?x \<le> px \<and> px < ?x + 8 \<and> y - 12 \<le> py \<and> py < y + 4
          then glyph_color (v_font v) fg bg c (px - ?x) (py - (y - 12)) else pixel_at v mem px py)"
        if "on_screen v px py" for px py
        using painted_screen(1) [OF drawn that] by (simp add: cell_rows [OF cell] text_color_first)
      have "shows_picture ?w (picture bg (place (Suc n) y (styled bold normal (v_font ?w) fg ds)) (pixel_at ?w m1))
          (write_str_loop rd ds 8 y fg bg (Suc n) (?w, m1))"
      proof (rule IH)
        show "\<forall>(x, y', g)\<in>set (place (Suc n) y (styled bold normal (v_font ?w) fg ds)). cell_on_screen ?w x y' 1"
          using 1(4) unfolding cells by simp
      qed (use 1(2,3,5) Cons glyph in simp_all)
      then show ?thesis
        unfolding Cons run cells [unfolded Cons]
        by (rule shows_picture_from [rotated]) (simp_all, rule picture_cong, simp add: shown)
    qed
  qed
qed

text \<open>
  On a screen of any height: rows below its lower edge are cut off, as long as there is memory for them. The first
  row of the text is at \<open>y\<close>, and no row may be wider than the screen.
\<close>

definition in_width :: "vga \<Rightarrow> (usize \<times> usize \<times> styled) list \<Rightarrow> bool" where
  "in_width v cells \<longleftrightarrow> (\<forall>(x, y, g)\<in>set cells. x + 8 \<le> unat (v_width v))"

lemma write_str_shows:
  assumes "font_new rd BOLD_FONT = Inr bold" "font_new rd NORMAL_FONT = Inr normal"
    and "font_ok (v_font v)" "\<forall>c\<in>set (unescaped s). c = 10 \<or> printable c"
    and "v_cursor v = \<lparr>cur_x = 8, cur_y = y, cur_fg = fg, cur_bg = bg\<rparr>" "12 \<le> y" "vga_fits v"
    and "in_width v (place 0 y (styled bold normal (v_font v) fg s))"
    and "n = length (unescaped s)" "unat (v_address v) + (y + 16 * n + 4) * unat (v_pitch v) \<le> 2 ^ 64" "y + 16 * n + 4 < 2 ^ 64"
  shows "shows_picture v (picture bg (place 0 y (styled bold normal (v_font v) fg s)) (pixel_at v mem))
    (write_str rd s (v, mem))"
proof -
  let ?cells = "place 0 y (styled bold normal (v_font v) fg s)" and ?bottom = "y + 16 * n + 4"
  define h where "h = (word_of_nat (max (unat (v_height v)) ?bottom) :: u64)"
  let ?t = "v\<lparr>v_height := h\<rparr>"
  have "max (unat (v_height v)) ?bottom < 2 ^ 64" using assms(11) unat_bounds(4) [of "v_height v"] by simp
  then have h: "unat h = max (unat (v_height v)) ?bottom" unfolding h_def unat_of_nat by simp
  have pixel: "pixel_at ?t = pixel_at v" by (simp add: fun_eq_iff pixel_at_def pixel_offset_def)
  have fits: "vga_fits ?t" using assms(7,10) h by (simp add: vga_fits_def max_def)
  have cells: "\<forall>(x, y', g)\<in>set ?cells. cell_on_screen ?t x y' 1"
  proof (clarify)
    fix x y' f c g
    assume cell: "(x, y', f, c, g) \<in> set ?cells"
    have "y \<le> y' \<and> y' \<le> y + 16 * n"
      using place_rows [OF cell] by (simp add: length_styled assms(9))
    then show "cell_on_screen ?t x y' 1"
      using cell assms(6,8) fits h by (auto simp: cell_on_screen_def in_width_def)
  qed
  have "shows_picture ?t (picture bg (place 0 y (styled bold normal (v_font ?t) fg s)) (pixel_at ?t mem))
      (write_str_loop rd s 8 y fg bg 0 (?t, mem))"
    by (rule write_str_loop_shows [OF assms(1,2)]) (use assms(3,4,9,11) cells in simp_all)
  then obtain vt mem' where run: "write_str rd s (?t, mem) = ((vt, mem'), Inr ())" "same_screen ?t vt"
      "\<And>px py. on_screen ?t px py \<Longrightarrow> pixel_at v mem' px py = picture bg ?cells (pixel_at v mem) px py"
    using assms(5) by (auto simp: shows_picture_def write_str_def pixel)
  obtain v' m' where v': "write_str rd s (v, mem) = ((v', m'), Inr ())" "m' = mem'"
    using write_str_taller [of rd s h "(v, mem)"] run(1)
    by (cases "write_str rd s (v, mem)") (auto simp: taller_def)
  have "same_screen v v'" using write_str_screen [OF same_screen_refl, of "(v, mem)" rd s] v'(1) by simp
  moreover have "on_screen ?t px py" if "on_screen v px py" for px py
    using that fits h by (simp add: on_screen_def less_max_iff_disj)
  ultimately show ?thesis using v' run(3) by (auto simp: shows_picture_def)
qed

section \<open>One write or several\<close>

text \<open>
  A text whose escape sequences end within it and that ends in a newline leaves nothing behind but the state of the
  console: what is written next could have been written at once.
\<close>

function closed :: "rstr \<Rightarrow> bool" where
  "closed [] = True"
| "closed (c # cs) = (if c = 27 then 109 \<in> set cs \<and> closed (drop 1 (dropWhile (\<lambda>x. x \<noteq> 109) cs)) else closed cs)"
  by pat_completeness auto
termination
proof (relation "measure length", goal_cases)
qed (auto simp: le_imp_less_Suc length_dropWhile_le diff_le_self order.trans [OF diff_le_self])

lemma closed_plain: "27 \<notin> set s \<Longrightarrow> closed s"
  by (induction s) auto

lemma until_109:
  assumes "109 \<in> set cs"
  shows "takeWhile (\<lambda>x. x \<noteq> 109) (cs @ ds) = takeWhile (\<lambda>x. x \<noteq> 109) cs"
    "drop (Suc 0) (dropWhile (\<lambda>x. x \<noteq> 109) cs @ ds) = drop (Suc 0) (dropWhile (\<lambda>x. x \<noteq> 109) cs) @ ds"
    "dropWhile (\<lambda>x. x \<noteq> 109) (cs @ ds) = dropWhile (\<lambda>x. x \<noteq> 109) cs @ ds"
  using assms by (induction cs) auto

lemma unescaped_plain: "27 \<notin> set s \<Longrightarrow> unescaped s = s"
  by (induction s) auto

lemma closed_append: "closed s \<Longrightarrow> closed (s @ t) = closed t"
  by (induction s rule: closed.induct) (auto simp: until_109(2) simp del: drop_append)

lemma unescaped_closed: "closed s \<Longrightarrow> unescaped (s @ t) = unescaped s @ unescaped t"
  by (induction s rule: closed.induct) (auto simp: until_109(2) simp del: drop_append)

lemma sbind_case:
  "sbind (case w of (mem, Inl p) \<Rightarrow> (f mem, Inl p) | (mem, Inr x) \<Rightarrow> g mem x) h
    = (case w of (mem, Inl p) \<Rightarrow> (f mem, Inl p) | (mem, Inr x) \<Rightarrow> sbind (g mem x) h)"
  by (cases w; cases "snd w") auto

lemma write_str_loop_line:
  "closed cs \<Longrightarrow> write_str_loop rd (cs @ 10 # ds) x y fg bg n s
    = sbind (write_str_loop rd (cs @ [10]) x y fg bg n s) (\<lambda>s _. write_str rd ds s)"
proof (induction cs arbitrary: x y fg bg n s rule: closed.induct)
  case 1
  then show ?case
    by (cases s) (auto simp: write_str_loop.simps Let_def write_str_def sbind_assoc intro!: sbind_cong)
next
  case (2 c cs)
  show ?case
  proof (cases "c = 27")
    case True
    then have cs: "109 \<in> set cs" "closed (drop 1 (dropWhile (\<lambda>x. x \<noteq> 109) cs))" using 2(3) by simp_all
    note IH = 2(1) [OF True cs(2), unfolded One_nat_def]
    show ?thesis
      using True
      by (simp add: write_str_loop.simps(2) Let_def until_109 [OF cs(1)] IH sbind_assoc
          del: drop_append)
  next
    case False
    then have "closed cs" using 2(3) by simp
    note IH = 2(2) [OF False this]
    show ?thesis
      using False
      by (simp add: write_str_loop.simps(2) Let_def IH sbind_assoc sbind_case cong: prod.case_cong sum.case_cong)
  qed
qed

lemma write_str_line:
  assumes "closed cs"
  shows "sbind (write_str rd (cs @ [10]) s) (\<lambda>s _. write_str rd ds s) = write_str rd (cs @ 10 # ds) s"
  unfolding write_str_def [of rd "cs @ [10]"] write_str_def [of rd "cs @ 10 # ds"] Let_def
    write_str_loop_line [OF assms, of rd ds] ..

lemma each_write_line:
  "\<forall>x\<in>set xs. closed (f x) \<Longrightarrow>
    each (\<lambda>x. write_str rd (f x @ [10])) xs s = write_str rd (concat (map (\<lambda>x. f x @ [10]) xs)) s"
proof (induction xs arbitrary: s)
  case Nil
  then show ?case by (simp add: write_str_def write_str_loop.simps(1))
next
  case (Cons x xs)
  let ?rest = "concat (map (\<lambda>x. f x @ [10]) xs)"
  have x: "closed (f x)" and xs: "\<forall>x\<in>set xs. closed (f x)" using Cons.prems by simp_all
  have "each (\<lambda>x. write_str rd (f x @ [10])) (x # xs) s
      = sbind (write_str rd (f x @ [10]) s) (\<lambda>s _. write_str rd ?rest s)"
    unfolding each.simps Cons.IH [OF xs] ..
  also have "\<dots> = write_str rd (f x @ 10 # ?rest) s" by (rule write_str_line [OF x])
  finally show ?case by simp
qed

end
