(* ===== verification/Panic.thy ===== *)
theory Panic
  imports Text_Layout
begin

text \<open>
  The panic handler, \<^verbatim>\<open>panic\<close> in \<^verbatim>\<open>kernel/src/main.rs\<close>. The two locks it takes are modelled by whether
  they are held where the panic happened: a \<^verbatim>\<open>spin::Mutex\<close> that its own processor holds is never
  released, so the handler then spins for ever; so does the handler of a panic in the handler, which
  holds the lock of the screen.
\<close>

section \<open>The handler\<close>

datatype ending = Halted | Deadlocked

definition PANIC_BANNER :: rstr where
  "PANIC_BANNER = BOLD @ RED @ lit ''[KERNEL PANIC]'' @ NORMAL @ [10]"

definition panic_handler ::
    "bool \<Rightarrow> bool \<Rightarrow> initrd \<Rightarrow> rstr \<Rightarrow> (vga \<times> memory) \<times> logger \<Rightarrow> ((vga \<times> memory) \<times> logger) \<times> ending" where
  "panic_handler vga_held logger_held rd panic_info s =
     (let (vm, lg) = s in
      if vga_held then (s, Deadlocked)
      else (case sbind (clear (fst vm) (snd vm)) (\<lambda>vm _. write_fmt rd (writeln PANIC_BANNER) vm) of
          (vm, Inl _) \<Rightarrow> ((vm, lg), Deadlocked)
        | (vm, Inr _) \<Rightarrow>
            if logger_held then ((vm, lg), Deadlocked)
            else
              let lg = fatal lg (lit ''The kernel has panicked.'' @ [10] @ panic_info) in
              (case each (\<lambda>log. write_fmt rd (writeln (fmt_log log))) (get_logs lg) vm of
                 (vm, Inl _) \<Rightarrow> ((vm, lg), Deadlocked)
               | (vm, Inr _) \<Rightarrow> ((vm, lg), Halted))))"

section \<open>Writing that cannot fail\<close>

unbundle bit_operations_syntax

text \<open>
  \<open>room v X Y\<close>: glyphs at cursors up to \<open>(X, Y)\<close> lie in the address space after the framebuffer's
  address. \<open>writable r X Y k v\<close>: \<open>k\<close> more characters, of whatever kind, end within \<open>(X, Y)\<close> and
  draw nothing above row \<open>r\<close>; a character moves the cursor by at most 64 columns and 16 rows.
\<close>

definition room :: "vga \<Rightarrow> usize \<Rightarrow> usize \<Rightarrow> bool" where
  "room v X Y \<longleftrightarrow> unat (v_address v) + (Y + 4) * unat (v_pitch v) + (X + 8) * 4 \<le> 2 ^ 64 \<and> Y + 16 < 2 ^ 64"

definition writable :: "usize \<Rightarrow> usize \<Rightarrow> usize \<Rightarrow> nat \<Rightarrow> vga \<Rightarrow> bool" where
  "writable r X Y k v \<longleftrightarrow> vga_fits v \<and> font_ok (v_font v) \<and> room v X Y
     \<and> r + 12 \<le> cur_y (v_cursor v) \<and> cur_x (v_cursor v) + 64 * k \<le> X \<and> 8 + 64 * k \<le> X
     \<and> cur_y (v_cursor v) + 16 * k \<le> Y"

definition kept_above :: "vga \<Rightarrow> usize \<Rightarrow> memory \<Rightarrow> memory \<Rightarrow> bool" where
  "kept_above v r mem mem' \<longleftrightarrow>
     (\<forall>px py. on_screen v px py \<and> py < r \<longrightarrow> pixel_at v mem' px py = pixel_at v mem px py)"

definition fonts_load :: "initrd \<Rightarrow> bool" where
  "fonts_load rd \<longleftrightarrow> is_ok (font_new rd NORMAL_FONT) \<and> is_ok (font_new rd BOLD_FONT)"

lemma kept_above_refl [simp]: "kept_above v r mem mem"
  by (simp add: kept_above_def)

lemma kept_above_trans: "kept_above v r a b \<Longrightarrow> kept_above v r b c \<Longrightarrow> kept_above v r a c"
  by (simp add: kept_above_def)

lemma same_screen_geometry:
  assumes "same_screen v w"
  shows "vga_fits w = vga_fits v" "on_screen w = on_screen v" "pixel_at w = pixel_at v"
    "room w = room v" "kept_above w = kept_above v"
  using assms
  by (simp_all add: fun_eq_iff same_screen_def vga_fits_def on_screen_def pixel_at_def pixel_offset_def
      room_def kept_above_def)

lemma draw_pixel_kept:
  assumes "r \<le> y" "unat (v_address v) + pixel_offset v x y + 4 \<le> 2 ^ 64"
  shows "\<exists>mem'. draw_pixel v x y c mem = (mem', Inr ()) \<and> kept_above v r mem mem'"
proof -
  let ?a = "v_address v + word_of_nat (pixel_offset v x y)"
  have a: "unat ?a = unat (v_address v) + pixel_offset v x y"
    using assms(2) by (simp add: unat_word_ariths unat_of_nat)
  have "pixel_at v (write_u32 mem ?a c) px py = pixel_at v mem px py"
    if on: "on_screen v px py" and "py < r" for px py
  proof -
    let ?b = "v_address v + word_of_nat (pixel_offset v px py)"
    have "unat ?b + 4 \<le> unat ?a"
      using pixel_offset_row [OF on, of y x] assms(1) that(2) unat_pixel_address [OF on] a by simp
    then have "read_bytes (write_u32 mem ?a c) ?b 4 = read_bytes mem ?b 4"
      using assms(2) a by (intro read_write_u32_other) auto
    then show ?thesis by (simp add: pixel_at_def)
  qed
  moreover have "draw_pixel v x y c mem = (write_u32 mem ?a c, Inr ())"
    by (rule draw_pixel_eq) (use assms(2) in simp)
  ultimately show ?thesis by (auto simp: kept_above_def)
qed

lemma glyph_bound: "a \<le> b \<Longrightarrow> i < 8 \<Longrightarrow> a + (x + i) * 4 + 4 \<le> b + (x + 8) * 4" for a b x i :: nat
  by simp

lemma write_char_kept:
  assumes f: "font_ok (v_font v)" and c: "c < 256"
    and cur: "v_cursor v = \<lparr>cur_x = x, cur_y = y, cur_fg = fg, cur_bg = bg\<rparr>"
    and y: "r + 12 \<le> y" and room: "room v x y"
  shows "\<exists>mem'. write_char v c mem = (mem', Inr ()) \<and> kept_above v r mem mem'"
proof -
  let ?glyphs = "drop (c * 16) (font_get_data (v_font v))"
  let ?color = "\<lambda>i j. if font_get_data (v_font v) ! (c * 16 + j) AND glyph_masks ! i = 0 then bg else fg"
  let ?body = "\<lambda>j i m. sbind (m, usize_add x i) (\<lambda>mem px.
        sbind (mem, rbind (usize_add y j) (\<lambda>sum. usize_sub sum 12)) (\<lambda>mem py.
        draw_pixel v px py (?color i j) mem))"
  have pixel: "\<exists>m'. ?body j i m = (m', Inr ()) \<and> kept_above v r m m'" if "i < 8" "j < 16" for i j m
  proof -
    have "(y - 12 + j) * unat (v_pitch v) \<le> (y + 4) * unat (v_pitch v)"
      using that y by (intro mult_le_mono1) simp
    then have "pixel_offset v (x + i) (y - 12 + j) + 4 \<le> (y + 4) * unat (v_pitch v) + (x + 8) * 4"
      using that unfolding pixel_offset_def by (intro glyph_bound)
    then have "unat (v_address v) + pixel_offset v (x + i) (y - 12 + j) + 4 \<le> 2 ^ 64"
      using room unfolding room_def by linarith
    moreover have "usize_add y j = Inr (y + j)" "usize_add x i = Inr (x + i)"
        "usize_sub (y + j) 12 = Inr (y - 12 + j)"
      using room that y by (auto simp: usize_Inr room_def)
    ultimately show ?thesis using draw_pixel_kept [of r "y - 12 + j" v "x + i"] y by simp
  qed
  have "write_char v c mem = each (\<lambda>j. each (?body j) [0..<8]) [0..<16] mem"
  proof -
    have "usize_mul c 16 = Inr (c * 16)" "slice_from (font_get_data (v_font v)) (c * 16) = Inr ?glyphs"
      using f c by (simp_all add: usize_mul_def slice_from_def)
    moreover have "min 16 (4096 - c * 16) = 16" "min 8 (length glyph_masks) = 8"
      using f c by (simp_all add: glyph_masks_def)
    ultimately show ?thesis
      using f by (simp add: write_char_def cur Let_def each_take_enumerate)
  qed
  moreover have "\<exists>m'. each (\<lambda>j. each (?body j) [0..<8]) [0..<16] mem = (m', Inr ()) \<and> kept_above v r mem m'"
    by (intro each_steps) (use pixel in \<open>auto intro: kept_above_trans\<close>)
  ultimately show ?thesis by simp
qed


section \<open>Texts and formats\<close>

lemma room_le:
  assumes "room v X Y" "x \<le> X" "y \<le> Y"
  shows "room v x y"
proof -
  have "a + (y + 4) * p + (x + 8) * 4 \<le> a + (Y + 4) * p + (X + 8) * 4" for a p
    using assms(2,3) by (intro add_mono mult_le_mono) simp_all
  from this [of "unat (v_address v)" "unat (v_pitch v)"] show ?thesis
    using assms(1,3) le_trans unfolding room_def by fastforce
qed

lemma writable_cursor:
  assumes "writable r X Y k v" "x + 64 * n \<le> X" "8 + 64 * n \<le> X" "r + 12 \<le> y" "y + 16 * n \<le> Y"
  shows "writable r X Y n (set_cursor v x y fg bg)"
  using assms by (simp add: writable_def room_def) (simp add: set_cursor_def)

lemma writable_font: "writable r X Y k v \<Longrightarrow> font_new rd path = Inr f \<Longrightarrow> writable r X Y k (v\<lparr>v_font := f\<rparr>)"
  by (auto simp: writable_def room_def vga_fits_def font_new_def intro: parse_font_ok)

lemma writable_le: "writable r X Y n v \<Longrightarrow> k \<le> n \<Longrightarrow> writable r X Y k v"
  by (auto simp: writable_def)

text \<open>The outcome of writing: it returns, \<open>k\<close> more characters can follow, and rows above \<open>r\<close> are kept.\<close>

definition written ::
    "usize \<Rightarrow> usize \<Rightarrow> usize \<Rightarrow> nat \<Rightarrow> vga \<times> memory \<Rightarrow> (vga \<times> memory) \<times> unit result \<Rightarrow> bool" where
  "written r X Y k vm out \<longleftrightarrow> (\<exists>v' mem'. out = ((v', mem'), Inr ()) \<and> writable r X Y k v'
     \<and> same_screen (fst vm) v' \<and> kept_above (fst vm) r (snd vm) mem')"

lemma written_kept:
  assumes "same_screen (fst vm) (fst vm')" "kept_above (fst vm) r (snd vm) (snd vm')" "written r X Y k vm' out"
  shows "written r X Y k vm out"
proof -
  obtain v m where o: "out = ((v, m), Inr ())" "writable r X Y k v" "same_screen (fst vm') v"
      "kept_above (fst vm') r (snd vm') m"
    using assms(3) by (auto simp: written_def)
  have "kept_above (fst vm) r (snd vm) m"
    using kept_above_trans [OF assms(2)] o(4) same_screen_geometry(5) [OF assms(1)] by metis
  then show ?thesis
    unfolding written_def using o(1,2) same_screen_trans [OF assms(1) o(3)] by blast
qed

lemma written_same:
  assumes "same_screen v v'" "written r X Y k (v', mem) out"
  shows "written r X Y k (v, mem) out"
  by (rule written_kept [OF _ _ assms(2)]) (simp_all add: assms(1))

text \<open>
  \<open>resumes rd r X Y k ds\<close>: the loop keeps the rows above \<open>r\<close> on any text left of the characters \<open>ds\<close>,
  from any state with room for them and \<open>k\<close> more. One lemma for each kind of character in front of
  \<open>ds\<close> then makes the induction.
\<close>

definition resumes :: "initrd \<Rightarrow> usize \<Rightarrow> usize \<Rightarrow> usize \<Rightarrow> nat \<Rightarrow> rstr \<Rightarrow> bool" where
  "resumes rd r X Y k ds \<longleftrightarrow>
     (\<forall>es x y fg bg n v mem. length es \<le> length ds \<and> set es \<subseteq> set ds \<and> writable r X Y (length ds + k) v
        \<and> cur_y (v_cursor v) = y \<and> x + 8 * n + 64 * (length ds + k) \<le> X
      \<longrightarrow> written r X Y k (v, mem) (write_str_loop rd es x y fg bg n (v, mem)))"

lemma resumesD:
  assumes "resumes rd r X Y k ds" "length es \<le> length ds" "set es \<subseteq> set ds"
    "writable r X Y (length ds + k) v" "cur_y (v_cursor v) = y" "x + 8 * n + 64 * (length ds + k) \<le> X"
  shows "written r X Y k (v, mem) (write_str_loop rd es x y fg bg n (v, mem))"
  using assms by (auto simp: resumes_def)

text \<open>A place with room for one more character of any kind.\<close>

definition before :: "usize \<Rightarrow> usize \<Rightarrow> usize \<Rightarrow> nat \<Rightarrow> usize \<Rightarrow> usize \<Rightarrow> usize \<Rightarrow> vga \<Rightarrow> bool" where
  "before r X Y m x y n v \<longleftrightarrow> writable r X Y (Suc m) v \<and> cur_y (v_cursor v) = y \<and> x + 8 * n + 64 + 64 * m \<le> X"

lemma beforeD:
  assumes "before r X Y m x y n v"
  shows "writable r X Y (Suc m) v" "cur_y (v_cursor v) = y" "x + 8 * n + 64 + 64 * m \<le> X"
    "y + 16 + 16 * m \<le> Y" "r + 12 \<le> y" "8 + 64 * m \<le> X" "font_ok (v_font v)"
    "usize_add y 16 = Inr (y + 16)" "X + 8 < 2 ^ 64" "room v X Y"
  using assms by (auto simp: before_def writable_def room_def usize_add_def)

text \<open>Moving the cursor before the rest of the text.\<close>

lemma moved_kept:
  assumes "resumes rd r X Y k ds" "before r X Y (length ds + k) x y n v"
    and "x' + 8 * n' + 64 * (length ds + k) \<le> X" "y \<le> y'" "y' \<le> y + 16"
  shows "written r X Y k (v, mem) (write_str_loop rd ds x' y' fg bg n' (set_cursor v x' y' fg bg, mem))"
proof -
  note b = beforeD [OF assms(2)]
  have "writable r X Y (length ds + k) (set_cursor v x' y' fg bg)"
    by (rule writable_cursor [OF b(1)]) (use assms(3-5) b(4-6) in simp_all)
  then have "written r X Y k (set_cursor v x' y' fg bg, mem)
      (write_str_loop rd ds x' y' fg bg n' (set_cursor v x' y' fg bg, mem))"
    by (intro resumesD [OF assms(1)]) (use assms(3) in simp_all)
  then show ?thesis by (intro written_same [of v "set_cursor v x' y' fg bg"]) simp_all
qed

lemma control_kept:
  assumes "resumes rd r X Y k ds" "before r X Y (length ds + k) x y n v" "c = 10 \<or> c = 13 \<or> c = 9"
  shows "written r X Y k (v, mem) (write_str_loop rd (c # ds) x y fg bg n (v, mem))"
proof -
  note b = beforeD [OF assms(2)] and moved = moved_kept [OF assms(1,2)]
  consider "c = 10" | "c = 13" | "c = 9" using assms(3) by blast
  then show ?thesis
  proof cases
    case 1
    show ?thesis using moved [of 8 0 "y + 16"] b(6-8) 1 by (simp add: write_str_loop.simps(2) Let_def)
  next
    case 2
    show ?thesis using moved [of 8 0 y] b(6,7) 2 by (simp add: write_str_loop.simps(2) Let_def)
  next
    case 3
    have "rbind (usize_mul 8 8) (usize_add x) = Inr (x + 64)"
      using b(3,9) by (simp add: usize_mul_def usize_add_def)
    then show ?thesis
      using moved [of "x + 64" n y] b(3,7) 3 by (simp add: write_str_loop.simps(2) Let_def del: rbind_Inr_iff)
  qed
qed

lemma escape_kept:
  assumes "fonts_load rd" "resumes rd r X Y k ds" "before r X Y (length ds + k) x y n v" "c = 27"
  shows "written r X Y k (v, mem) (write_str_loop rd (c # ds) x y fg bg n (v, mem))"
proof -
  let ?es = "drop 1 (dropWhile (\<lambda>x. x \<noteq> 109) ds)"
  note b = beforeD [OF assms(3)]
  have es: "length ?es \<le> length ds" "set ?es \<subseteq> set ds"
    using length_dropWhile_le [of "\<lambda>x. x \<noteq> 109" ds] set_dropWhileD [of _ "\<lambda>x. x \<noteq> 109" ds]
    by (auto dest: in_set_dropD)
  have same: "written r X Y k (w, mem) (write_str_loop rd ?es x y fg' bg n (w, mem))"
    if "writable r X Y (Suc (length ds + k)) w" "cur_y (v_cursor w) = y" for w fg'
    by (rule resumesD [OF assms(2) es]) (use that b(3) writable_le in auto)
  have font: "written r X Y k (v, mem) (sbind ((v, mem), font_new rd path) (\<lambda>s f.
      write_str_loop rd ?es x y fg bg n ((fst s)\<lparr>v_font := f\<rparr>, snd s)))"
    if ok: "is_ok (font_new rd path)" for path
  proof -
    obtain g where g: "font_new rd path = Inr g" using ok by (auto simp: is_ok_iff)
    have "written r X Y k (v\<lparr>v_font := g\<rparr>, mem)
        (write_str_loop rd ?es x y fg bg n (v\<lparr>v_font := g\<rparr>, mem))"
      by (rule same) (use b(1,2) writable_font [OF _ g] in simp_all)
    moreover have "same_screen v (v\<lparr>v_font := g\<rparr>)" by (rule same_screen_font [OF g]) simp
    ultimately show ?thesis using g written_same by simp
  qed
  show ?thesis
    unfolding write_str_loop.simps(2) Let_def
    using assms(1,4) font same [OF b(1,2)] by (auto simp: fonts_load_def)
qed

lemma printable_kept:
  assumes "resumes rd r X Y k ds" "before r X Y (length ds + k) x y n v" "printable c"
  shows "written r X Y k (v, mem) (write_str_loop rd (c # ds) x y fg bg n (v, mem))"
proof -
  let ?x = "x + 8 * n"
  let ?v = "set_cursor v ?x y fg bg"
  note b = beforeD [OF assms(2)]
  have "room v ?x y" by (rule room_le [OF b(10)]) (use b(3,4) in simp_all)
  then have "room ?v ?x y" using same_screen_geometry(4) [of v ?v] by simp
  then obtain m1 where m1: "write_char ?v c mem = (m1, Inr ())" "kept_above ?v r mem m1"
    using write_char_kept [of ?v c ?x y fg bg r mem] b(5,7) assms(3) by (auto simp: printable_def)
  have "writable r X Y (length ds + k) ?v"
    by (rule writable_cursor [OF b(1)]) (use b(3-6) in simp_all)
  then have "written r X Y k (?v, m1) (write_str_loop rd ds x y fg bg (Suc n) (?v, m1))"
    by (intro resumesD [OF assms(1)]) (use b(3) in simp_all)
  moreover have "same_screen v ?v" by simp
  ultimately have "written r X Y k (v, mem) (write_str_loop rd ds x y fg bg (Suc n) (?v, m1))"
    using written_kept [of "(v, mem)" "(?v, m1)" r X Y k] m1(2) same_screen_geometry(5) [of v ?v] by simp
  then show ?thesis
    using b(3,7,9) m1(1) by (simp add: write_str_loop_printable [OF assms(3)] usize_mul_def usize_add_def Let_def)
qed

lemma write_str_loop_kept:
  assumes "fonts_load rd"
  shows "\<forall>c\<in>set cs. c < 256 \<Longrightarrow> writable r X Y (length cs + k) v \<Longrightarrow> cur_y (v_cursor v) = y \<Longrightarrow>
    x + 8 * n + 64 * (length cs + k) \<le> X \<Longrightarrow>
    written r X Y k (v, mem) (write_str_loop rd cs x y fg bg n (v, mem))"
proof (induction cs arbitrary: x fg bg n v mem y rule: length_induct)
  case (1 cs)
  show ?case
  proof (cases cs)
    case Nil
    then show ?thesis using 1 by (simp add: write_str_loop.simps(1) written_def)
  next
    case (Cons c ds)
    have rest: "resumes rd r X Y k ds"
      unfolding resumes_def
    proof (intro allI impI, elim conjE)
      fix es x y fg bg n v mem
      assume es: "length es \<le> length ds" "set es \<subseteq> set ds" "writable r X Y (length ds + k) v"
        "cur_y (v_cursor v) = y" "x + 8 * n + 64 * (length ds + k) \<le> X"
      show "written r X Y k (v, mem) (write_str_loop rd es x y fg bg n (v, mem))"
      proof (rule 1(1) [rule_format])
        show "writable r X Y (length es + k) v" using es(1) by (intro writable_le [OF es(3)]) simp
        show "x + 8 * n + 64 * (length es + k) \<le> X" using es(1,5) by simp
      qed (use 1(2) Cons es in auto)
    qed
    have b: "before r X Y (length ds + k) x y n v" using 1(3-5) Cons by (simp add: before_def)
    consider (control) "c = 10 \<or> c = 13 \<or> c = 9" | (escape) "c = 27" | (glyph) "printable c"
      using 1(2) Cons by (auto simp: printable_def)
    then show ?thesis
      unfolding Cons
      by cases (rule control_kept [OF rest b] escape_kept [OF assms rest b] printable_kept [OF rest b]; assumption)+
  qed
qed

lemma write_str_kept:
  assumes "fonts_load rd" "\<forall>c\<in>set s. c < 256" "writable r X Y (length s + k) (fst vm)"
  shows "written r X Y k vm (write_str rd s vm)"
proof -
  have "written r X Y k (fst vm, snd vm) (write_str_loop rd s (cur_x (v_cursor (fst vm)))
      (cur_y (v_cursor (fst vm))) fg bg 0 (fst vm, snd vm))" for fg bg
    by (rule write_str_loop_kept [OF assms refl]) (use assms(3) in \<open>simp add: writable_def\<close>)
  then show ?thesis by (simp add: write_str_def Let_def)
qed

lemma each_write_kept:
  assumes "fonts_load rd"
  shows "\<forall>x\<in>set xs. \<forall>c\<in>set (f x). c < 256 \<Longrightarrow> writable r X Y (length (concat (map f xs)) + k) (fst vm) \<Longrightarrow>
    written r X Y k vm (each (\<lambda>x. write_str rd (f x)) xs vm)"
proof (induction xs arbitrary: vm)
  case Nil
  then show ?case by (cases vm) (simp add: written_def)
next
  case (Cons x xs)
  let ?k = "length (concat (map f xs)) + k"
  have "written r X Y ?k vm (write_str rd (f x) vm)"
    using Cons.prems by (intro write_str_kept [OF assms]) (simp_all add: add.assoc)
  then obtain v m where first: "write_str rd (f x) vm = ((v, m), Inr ())" "writable r X Y ?k v"
      "same_screen (fst vm) v" "kept_above (fst vm) r (snd vm) m"
    by (auto simp: written_def)
  have "written r X Y k (v, m) (each (\<lambda>x. write_str rd (f x)) xs (v, m))"
    using Cons.prems first(2) by (intro Cons.IH) simp_all
  then show ?case using first written_kept [of vm "(v, m)"] by simp
qed

section \<open>The banner\<close>

lemma write_str_loop_fonts:
  "font_new rd BOLD_FONT = Inr f \<Longrightarrow> write_str_loop rd (BOLD @ cs) x y fg bg n (v, mem)
    = write_str_loop rd cs x y fg bg n (v\<lparr>v_font := f\<rparr>, mem)"
  "font_new rd NORMAL_FONT = Inr f \<Longrightarrow> write_str_loop rd (NORMAL @ cs) x y fg bg n (v, mem)
    = write_str_loop rd cs x y fg bg n (v\<lparr>v_font := f\<rparr>, mem)"
  by (simp_all add: write_str_loop.simps(2) code_consts ESC_def Let_def)

lemma set_cursor_font: "(set_cursor w x y fg bg)\<lparr>v_font := f\<rparr> = set_cursor (w\<lparr>v_font := f\<rparr>) x y fg bg"
  by (simp add: set_cursor_def)

lemma panic_banner:
  assumes fonts: "font_new rd BOLD_FONT = Inr bf" "font_new rd NORMAL_FONT = Inr nf"
    and cell: "cell_on_screen v 8 24 14"
  shows "\<exists>mem'. write_fmt rd (writeln PANIC_BANNER) (set_cursor v 8 24 fg bg, mem)
      = ((set_cursor (v\<lparr>v_font := nf\<rparr>) 8 56 (color_value Red) bg, mem'), Inr ())
    \<and> screen.painted v mem mem' (\<lambda>px py. 8 \<le> px \<and> px < 120 \<and> 12 \<le> py \<and> py < 28)
        (text_color bf (color_value Red) bg (lit ''[KERNEL PANIC]'') 8 12)"
proof -
  let ?text = "lit ''[KERNEL PANIC]''" and ?red = "color_value Red"
  let ?v = "set_cursor (v\<lparr>v_font := bf\<rparr>) 8 24 fg bg"
  have ok: "font_ok bf" "font_ok nf" using fonts by (auto simp: font_new_def intro: parse_font_ok)
  have len: "length ?text = 14" and chars: "\<forall>c\<in>set ?text. printable c" by (simp_all add: printable_def)
  have "cell_on_screen ?v (8 + 8 * 0) 24 (length ?text)" unfolding len using cell by simp
  moreover have "?text \<noteq> []" by simp
  ultimately obtain m where m: "write_str_loop rd (?text @ NORMAL @ [10, 10]) 8 24 ?red bg 0 (?v, mem)
      = write_str_loop rd (NORMAL @ [10, 10]) 8 24 ?red bg 14 (set_cursor ?v 112 24 ?red bg, m)"
      "screen.painted v mem m (\<lambda>px py. 8 \<le> px \<and> px < 120 \<and> 12 \<le> py \<and> py < 28) (text_color bf ?red bg ?text 8 12)"
    using write_str_loop_text [of ?v ?text 8 0 24 rd "NORMAL @ [10, 10]" ?red bg mem] ok(1) chars
    unfolding len by auto
  have "write_str_loop rd [10, 10] 8 24 ?red bg 14 (set_cursor (v\<lparr>v_font := nf\<rparr>) 112 24 ?red bg, m)
      = ((set_cursor (v\<lparr>v_font := nf\<rparr>) 8 56 ?red bg, m), Inr ())"
    using ok(2) by (simp add: write_str_loop.simps usize_add_def Let_def)
  then have "write_str_loop rd (NORMAL @ [10, 10]) 8 24 ?red bg 14 (set_cursor ?v 112 24 ?red bg, m)
      = ((set_cursor (v\<lparr>v_font := nf\<rparr>) 8 56 ?red bg, m), Inr ())"
    by (simp add: write_str_loop_fonts(2) [OF fonts(2)] set_cursor_font)
  moreover have "write_fmt rd (writeln PANIC_BANNER) (set_cursor v 8 24 fg bg, mem)
      = write_str_loop rd (?text @ NORMAL @ [10, 10]) 8 24 ?red bg 0 (?v, mem)"
  proof -
    have "writeln PANIC_BANNER = BOLD @ RED @ ?text @ NORMAL @ [10, 10]"
      by (simp add: writeln_def PANIC_BANNER_def del: lit_simps)
    moreover have "v_cursor (set_cursor v 8 24 fg bg) = \<lparr>cur_x = 8, cur_y = 24, cur_fg = fg, cur_bg = bg\<rparr>"
      by (simp add: set_cursor_def)
    ultimately show ?thesis
      by (simp add: write_str_def write_str_loop_fonts(1) [OF fonts(1)] write_str_loop_color(5) set_cursor_font
          del: lit_simps)
  qed
  ultimately show ?thesis using m by auto
qed


section \<open>The screen after a panic\<close>

lemma panic_logs_kept:
  assumes "fonts_load rd" "\<forall>g\<in>set gs. \<forall>c\<in>set (log_message g). c < 256"
    and "writable r X Y (length (concat (map (\<lambda>g. writeln (fmt_log g)) gs))) (fst vm)"
  shows "written r X Y 0 vm (each (\<lambda>g. write_fmt rd (writeln (fmt_log g))) gs vm)"
proof -
  have "\<forall>c\<in>set (level_label l). c < 256" for l
    by (cases l) (simp_all add: level_label_def code_consts ESC_def)
  then have "\<forall>g\<in>set gs. \<forall>c\<in>set (writeln (fmt_log g)). c < 256"
    using assms(2) by (auto simp: fmt_log_def writeln_def)
  then show ?thesis
    using each_write_kept [OF assms(1), of gs "\<lambda>g. writeln (fmt_log g)" r X Y 0 vm] assms(3) by simp
qed

text \<open>A panic outside the console and the log: what the screen shows, and what the log gains.\<close>

lemma panic_shown:
  assumes "font_new rd BOLD_FONT = Inr bf" "font_new rd NORMAL_FONT = Inr nf"
    and "cell_on_screen v 8 24 14"
    and "logs lg' = logs lg @ [\<lparr>log_level = Fatal, log_message = lit ''The kernel has panicked.'' @ [10] @ msg\<rparr>]"
    and "\<forall>g\<in>set (logs lg'). \<forall>c\<in>set (log_message g). c < 256"
    and "n = length (concat (map (\<lambda>g. writeln (fmt_log g)) (logs lg')))" "room v (8 + 64 * n) (56 + 16 * n)"
  shows "\<exists>v' mem' m1 m2. panic_handler False False rd msg ((v, mem), lg) = (((v', mem'), lg'), Halted)
    \<and> screen.painted v m1 m2 (\<lambda>px py. 8 \<le> px \<and> px < 120 \<and> 12 \<le> py \<and> py < 28)
        (text_color bf (color_value Red) (color_value Black) (lit ''[KERNEL PANIC]'') 8 12)
    \<and> kept_above v 44 m2 mem'"
proof -
  let ?w = "color_value White" and ?b = "color_value Black" and ?red = "color_value Red"
  let ?v = "set_cursor (v\<lparr>v_font := nf\<rparr>) 8 56 ?red ?b"
  have ok: "font_ok nf" "fonts_load rd"
    using assms(1,2) by (auto simp: font_new_def fonts_load_def intro: parse_font_ok)
  have fits: "vga_fits v" using assms(3) by (simp add: cell_on_screen_def)
  obtain m1 where m1: "clear v mem = ((set_cursor v 8 24 ?w ?b, m1), Inr ())"
    using clear_painted [OF fits, of mem] by blast
  obtain m2 where m2: "write_fmt rd (writeln PANIC_BANNER) (set_cursor v 8 24 ?w ?b, m1) = ((?v, m2), Inr ())"
    "screen.painted v m1 m2 (\<lambda>px py. 8 \<le> px \<and> px < 120 \<and> 12 \<le> py \<and> py < 28)
        (text_color bf ?red ?b (lit ''[KERNEL PANIC]'') 8 12)"
    using panic_banner [OF assms(1-3), of ?w ?b m1] by blast
  have "writable 44 (8 + 64 * n) (56 + 16 * n) n ?v"
    using fits ok(1) assms(7) by (simp add: writable_def) (simp add: set_cursor_def vga_fits_def room_def)
  then have "written 44 (8 + 64 * n) (56 + 16 * n) 0 (?v, m2)
      (each (\<lambda>g. write_fmt rd (writeln (fmt_log g))) (logs lg') (?v, m2))"
    using assms(5,6) by (intro panic_logs_kept ok(2)) simp_all
  then obtain v3 m3 where m3: "each (\<lambda>g. write_fmt rd (writeln (fmt_log g))) (logs lg') (?v, m2) = ((v3, m3), Inr ())"
    "kept_above ?v 44 m2 m3"
    by (auto simp: written_def)
  have kept: "kept_above v 44 m2 m3"
    using m3(2) same_screen_geometry(5) [OF same_screen_font [OF assms(2) same_screen_refl], of v]
      same_screen_geometry(5) [of "v\<lparr>v_font := nf\<rparr>" ?v] by simp
  have lg': "fatal lg (lit ''The kernel has panicked.'' @ [10] @ msg) = lg'"
    using assms(4) by (cases lg; cases lg') (simp add: fatal_def logger_log_def)
  have "panic_handler False False rd msg ((v, mem), lg) = (((v3, m3), lg'), Halted)"
    using m1 m2(1) m3(1) by (simp add: panic_handler_def Let_def lg' [simplified] get_logs_def)
  then show ?thesis using m2(2) kept by blast
qed

text \<open>The pixels of the banner.\<close>

lemma banner_pixels:
  assumes "cell_on_screen v 8 24 14" "kept_above v 44 m2 mem'"
    and "screen.painted v m1 m2 (\<lambda>px py. 8 \<le> px \<and> px < 120 \<and> 12 \<le> py \<and> py < 28)
        (text_color bf fg bg s 8 12)"
    and "8 \<le> px" "px < 120" "12 \<le> py" "py < 28"
  shows "pixel_at v mem' px py = glyph_color bf fg bg (s ! ((px - 8) div 8)) ((px - 8) mod 8) (py - 12)"
proof -
  have "on_screen v px py"
    using assms(1,4-7) by (auto simp: on_screen_def cell_on_screen_def)
  then show ?thesis
    using painted_screen(1) [OF assms(3)] assms(2,4-7) by (auto simp: kept_above_def text_color_def)
qed

text \<open>
  What the panic screen says, as characters with a font and a colour: the banner in bold and red, an empty line, and every
  record of the log in a line of its own.
\<close>

definition record_styled :: "font \<Rightarrow> log \<Rightarrow> styled list" where
  "record_styled f g =
     map (\<lambda>c. (f, color_value (level_color (log_level g)), c)) (level_name (log_level g))
     @ map (\<lambda>c. (f, color_value White, c)) (32 # log_message g @ [10])"

definition panic_styled :: "font \<Rightarrow> font \<Rightarrow> logger \<Rightarrow> styled list" where
  "panic_styled bf nf lg =
     map (\<lambda>c. (bf, color_value Red, c)) (lit ''[KERNEL PANIC]'')
     @ replicate 2 (nf, color_value Red, 10)
     @ concat (map (record_styled nf) (logs lg))"

definition panic_text :: "logger \<Rightarrow> rstr" where
  "panic_text lg = PANIC_BANNER @ 10 # concat (map (\<lambda>g. fmt_log g @ [10]) (logs lg))"

lemma level_label_styled:
  "styled bf nf f fg (level_label l @ t)
    = map (\<lambda>c. (f, color_value (level_color l), c)) (level_name l) @ styled bf nf f (color_value White) t"
  "closed (level_label l)"
proof -
  have plain: "27 \<notin> set (level_name l)" by (cases l) (simp_all add: level_name_def)
  show "styled bf nf f fg (level_label l @ t)
    = map (\<lambda>c. (f, color_value (level_color l), c)) (level_name l) @ styled bf nf f (color_value White) t"
    using styled_plain [OF plain, of bf nf f "color_value (level_color l)" "DEFAULT @ t"]
    by (cases l) (simp_all add: level_label_def level_name_def level_color_def styled_codes)
  show "closed (level_label l)" by (cases l) (simp_all add: level_label_def code_consts ESC_def)
qed

lemma record_styled:
  assumes "27 \<notin> set (log_message g)"
  shows "styled bf nf f fg (fmt_log g @ 10 # t) = record_styled f g @ styled bf nf f (color_value White) t"
    "closed (fmt_log g)"
  using assms styled_plain [of "32 # log_message g @ [10]" bf nf f "color_value White" t]
  by (simp_all add: fmt_log_def record_styled_def level_label_styled closed_append closed_plain)

lemma records_styled:
  "\<forall>g\<in>set gs. 27 \<notin> set (log_message g) \<Longrightarrow>
    styled bf nf f fg (concat (map (\<lambda>g. fmt_log g @ [10]) gs)) = concat (map (record_styled f) gs)"
  by (induction gs arbitrary: fg) (simp_all add: record_styled)

lemma panic_text_styled:
  assumes "\<forall>g\<in>set (logs lg). 27 \<notin> set (log_message g)"
  shows "styled bf nf f fg (panic_text lg) = panic_styled bf nf lg" "closed PANIC_BANNER"
proof -
  have "styled bf nf f fg (panic_text lg)
      = styled bf nf f fg (BOLD @ RED @ lit ''[KERNEL PANIC]'' @ NORMAL @ [10, 10] @ concat (map (\<lambda>g. fmt_log g @ [10]) (logs lg)))"
    by (simp add: panic_text_def PANIC_BANNER_def)
  also have "\<dots> = panic_styled bf nf lg"
    using assms by (simp add: styled_codes styled_plain records_styled panic_styled_def numeral_2_eq_2)
  finally show "styled bf nf f fg (panic_text lg) = panic_styled bf nf lg" .
  show "closed PANIC_BANNER" by (simp add: PANIC_BANNER_def code_consts ESC_def)
qed

lemma panic_writes:
  assumes "\<forall>g\<in>set (logs lg). 27 \<notin> set (log_message g)"
  shows "sbind (write_fmt rd (writeln PANIC_BANNER) vm)
      (\<lambda>vm _. each (\<lambda>log. write_fmt rd (writeln (fmt_log log))) (get_logs lg) vm) = write_str rd (panic_text lg) vm"
  using each_write_line [of "logs lg" fmt_log rd] write_str_line [OF panic_text_styled(2) [OF assms], of rd vm] assms
  by (simp add: writeln_def get_logs_def panic_text_def record_styled(2) del: append_assoc)

text \<open>
  Claim C16. When the panic happened outside the console and the log, and the log is plain text that is not wider than the
  screen, the handler leaves the screen showing this and nothing else: the banner in bold and red in the
  first line, and from the third line on the whole log, each record with its level in its colour and the message in
  white, ending with the panic's own record. Then it halts. Of a log that is longer than the screen the first
  lines are seen.
\<close>

theorem panic_screen:
  assumes "font_new rd BOLD_FONT = Inr bf" "font_new rd NORMAL_FONT = Inr nf" "font_ok (v_font v)" "vga_fits v"
    and "logs lg' = logs lg @ [\<lparr>log_level = Fatal, log_message = lit ''The kernel has panicked.'' @ [10] @ msg\<rparr>]"
    and "\<forall>g\<in>set (logs lg'). \<forall>c\<in>set (log_message g). c = 10 \<or> printable c"
    and "cells = place 0 24 (panic_styled bf nf lg')" "in_width v cells"
    and "room v 0 (24 + 16 * length (panic_styled bf nf lg'))"
  shows "\<exists>v' mem'. panic_handler False False rd msg ((v, mem), lg) = (((v', mem'), lg'), Halted)
    \<and> same_screen v v'
    \<and> (\<forall>px py. on_screen v px py \<longrightarrow>
         pixel_at v mem' px py = picture (color_value Black) cells (\<lambda>_ _. color_value Black) px py)"
proof -
  let ?w = "color_value White" and ?b = "color_value Black" and ?n = "length (panic_styled bf nf lg')"
  let ?v = "set_cursor v 8 24 ?w ?b"
  have plain: "\<forall>g\<in>set (logs lg'). 27 \<notin> set (log_message g)" using assms(6) by (fastforce simp: printable_def)
  note styled = panic_text_styled(1) [OF plain]
  obtain m1 where m1: "clear v mem = ((?v, m1), Inr ())"
      "\<And>px py. on_screen v px py \<Longrightarrow> pixel_at v m1 px py = ?b"
    using clear_painted [OF assms(4), of mem] by blast
  have chars: "unescaped (panic_text lg') = map (\<lambda>(_, _, c). c) (panic_styled bf nf lg')"
    by (simp only: styled_chars [symmetric, of _ bf nf "v_font v" ?w] styled)
  have visible: "\<forall>c\<in>set (unescaped (panic_text lg')). c = 10 \<or> printable c"
    using assms(6) level_name_printable unfolding chars
    by (auto simp: panic_styled_def record_styled_def printable_def)
  have "shows_picture ?v (picture ?b (place 0 24 (styled bf nf (v_font ?v) ?w (panic_text lg'))) (pixel_at ?v m1))
      (write_str rd (panic_text lg') (?v, m1))"
  proof (rule write_str_shows [OF assms(1,2) _ visible])
    show "in_width ?v (place 0 24 (styled bf nf (v_font ?v) ?w (panic_text lg')))"
      using assms(7,8) by (simp add: styled in_width_def)
    show "?n = length (unescaped (panic_text lg'))" unfolding chars by simp
    show "unat (v_address ?v) + (24 + 16 * ?n + 4) * unat (v_pitch ?v) \<le> 2 ^ 64" "24 + 16 * ?n + 4 < 2 ^ 64"
      using assms(9) by (simp_all add: room_def) (simp add: set_cursor_def)
  qed (use assms(3,4) in simp_all)
  then obtain v' mem' where shown: "write_str rd (panic_text lg') (?v, m1) = ((v', mem'), Inr ())" "same_screen v v'"
      "\<And>px py. on_screen v px py \<Longrightarrow> pixel_at v mem' px py = picture ?b cells (pixel_at v m1) px py"
    unfolding shows_picture_def by (auto simp: styled assms(7))
  have lg': "fatal lg (lit ''The kernel has panicked.'' @ [10] @ msg) = lg'"
    using assms(5) by (cases lg; cases lg') (simp add: fatal_def logger_log_def)
  obtain vm where vm: "write_fmt rd (writeln PANIC_BANNER) (?v, m1) = (vm, Inr ())"
      "each (\<lambda>log. write_fmt rd (writeln (fmt_log log))) (get_logs lg') vm = ((v', mem'), Inr ())"
    using shown(1) unfolding panic_writes [OF plain, symmetric] by (auto simp: sbind_Inr_iff)
  have "panic_handler False False rd msg ((v, mem), lg) = (((v', mem'), lg'), Halted)"
    using m1(1) vm by (simp add: panic_handler_def Let_def lg' [simplified] del: write_fmt_str)
  moreover have "pixel_at v mem' px py = picture ?b cells (\<lambda>_ _. ?b) px py" if "on_screen v px py" for px py
    unfolding shown(3) [OF that] by (rule picture_cong) (rule m1(2) [OF that])
  ultimately show ?thesis using shown(2) by blast
qed

section \<open>A panic that is not shown\<close>

lemma write_char_no_glyph: "font_ok (v_font v) \<Longrightarrow> 256 < c \<Longrightarrow> write_char v c mem \<noteq> (mem', Inr ())"
  by (auto simp: write_char_def usize_mul_def slice_from_def font_ok_def split: if_splits)

lemma unescaped_append: "set (unescaped s) \<subseteq> set (unescaped (s @ t))"
proof (induction s rule: unescaped.induct)
  case (2 c cs)
  show ?case
  proof (cases "c = 27 \<and> 109 \<in> set cs")
    case True
    then have "drop 1 (dropWhile (\<lambda>x. x \<noteq> 109) (cs @ t)) = drop 1 (dropWhile (\<lambda>x. x \<noteq> 109) cs) @ t"
      by (induction cs) auto
    then show ?thesis using True 2 by simp
  next
    case False
    show ?thesis
    proof (cases "c = 27")
      case True
      then have "dropWhile (\<lambda>x. x \<noteq> 109) cs = []" using False by auto
      then have "unescaped (c # cs) = []" using True by (simp only: unescaped.simps drop_Nil simp_thms if_True)
      then show ?thesis by simp
    qed (use 2 in auto)
  qed
qed simp

lemma unescaped_record: "unescaped (fmt_log g @ [10]) = level_name (log_level g) @ 32 # unescaped (log_message g @ [10])"
  by (cases "log_level g") (simp_all add: fmt_log_def level_label_def level_name_def code_consts ESC_def)

lemma write_str_loop_no_glyph:
  assumes "256 < c"
  shows "font_ok (v_font (fst s)) \<Longrightarrow> c \<in> set (unescaped cs) \<Longrightarrow>
    snd (write_str_loop rd cs x y fg bg n s) \<noteq> Inr ()"
proof (induction cs arbitrary: x y fg bg n s rule: unescaped.induct)
  case (2 d ds)
  note font = font_ok_geometry(1) [OF 2(3)]
  have cursor: "font_ok (v_font (set_cursor (fst s) x y fg bg))" for x y fg bg using 2(3) by simp
  have loaded: "font_ok f" if "font_new rd path = Inr f" for path f
    using that by (auto simp: font_new_def intro: parse_font_ok)
  have bind: "snd (sbind m f) \<noteq> Inr ()" if "\<And>s x. m = (s, Inr x) \<Longrightarrow> fst s = fst s0 \<Longrightarrow> snd (f s x) \<noteq> Inr ()" "fst (fst m) = fst s0"
    for m :: "(vga \<times> memory) \<times> 'b result" and f :: "vga \<times> memory \<Rightarrow> 'b \<Rightarrow> (vga \<times> memory) \<times> unit result" and s0
    using that by (cases m; cases "snd m") auto
  show ?case
  proof (cases "d = 27")
    case True
    then have IH: "snd (write_str_loop rd (drop 1 (dropWhile (\<lambda>x. x \<noteq> 109) ds)) x y fg bg n s) \<noteq> Inr ()"
      if "font_ok (v_font (fst s))" for x y fg bg n s
      using 2 that by simp
    show ?thesis
      unfolding write_str_loop.simps(2) Let_def using True IH 2(3) loaded
      by (auto simp: sbind_def split: sum.splits)
  next
    case False
    then have IH: "c \<in> set (unescaped ds) \<Longrightarrow> font_ok (v_font (fst s)) \<Longrightarrow>
        snd (write_str_loop rd ds x y fg bg n s) \<noteq> Inr ()" for x y fg bg n s
      using 2(2) by simp
    show ?thesis
    proof (cases "c \<in> set (unescaped ds)")
      case True
      show ?thesis
        unfolding write_str_loop.simps(2) Let_def using False IH [OF True] cursor
        by (auto simp: sbind_def split: sum.splits prod.splits)
    next
      case other: False
      then have "d = c" using 2(4) False by simp
      then show ?thesis
        using assms write_char_no_glyph [OF cursor, of c]
        by (auto simp: write_str_loop.simps(2) Let_def sbind_def split: sum.splits prod.splits)
    qed
  qed
qed simp

lemma each_write_no_glyph:
  assumes "256 < c"
  shows "font_ok (v_font (fst vm)) \<Longrightarrow> z \<in> set xs \<Longrightarrow> c \<in> set (unescaped (f z)) \<Longrightarrow>
    snd (each (\<lambda>x. write_str rd (f x)) xs vm) \<noteq> Inr ()"
proof (induction xs arbitrary: vm)
  case (Cons x xs)
  have font: "font_ok (v_font (fst (fst (write_str rd (f x) vm))))"
    using write_str_screen [OF same_screen_refl, of vm rd "f x"] Cons.prems(1) by (simp add: same_screen_def)
  have "snd (write_str rd (f z) vm) \<noteq> Inr ()"
    using write_str_loop_no_glyph [OF assms Cons.prems(1,3)] by (simp add: write_str_def Let_def)
  then show ?case
    using Cons.IH [OF font] Cons.prems(2,3)
    by (cases "z = x"; cases "write_str rd (f x) vm"; cases "snd (write_str rd (f x) vm)") auto
qed simp

text \<open>
  Claim C17. The log keeps any text, but the screen's font has no glyph above U+0100: as soon as one record
  of the log, or the message of the panic itself, holds such a character (outside an escape sequence), the
  panic screen cannot be written, and the panic this causes inside the handler never gets the screen's
  lock. The handler then spins for ever instead of halting.
\<close>

theorem panic_without_glyph_deadlocks:
  assumes "font_ok (v_font v)" "256 < c" "c \<in> set (unescaped t)"
    and "t = lit ''The kernel has panicked.'' @ [10] @ msg \<or> t \<in> log_message ` set (logs lg)"
  shows "snd (panic_handler vga_held logger_held rd msg ((v, mem), lg)) = Deadlocked"
proof -
  define full where "full = fatal lg (lit ''The kernel has panicked.'' @ [10] @ msg)"
  have "\<exists>g\<in>set (get_logs full). log_message g = t"
    using assms(4) by (auto simp: full_def fatal_def get_logs_def)
  then obtain g where g: "g \<in> set (get_logs full)" "c \<in> set (unescaped (writeln (fmt_log g)))"
    using assms(3) unescaped_append by (fastforce simp: writeln_def unescaped_record)
  have no_log: "snd (each (\<lambda>log. write_fmt rd (writeln (fmt_log log))) (get_logs full) vm) \<noteq> Inr ()"
    if "font_ok (v_font (fst vm))" for vm
    using each_write_no_glyph [where f = "\<lambda>g. writeln (fmt_log g)", OF assms(2) that g] by simp
  let ?start = "sbind (clear v mem) (\<lambda>vm _. write_fmt rd (writeln PANIC_BANNER) vm)"
  have "same_screen v (fst (fst ?start))"
    unfolding write_fmt_str by (intro sbind_screen clear_screen_same write_str_screen) simp_all
  then have "font_ok (v_font (fst (fst ?start)))" using assms(1) by (simp add: same_screen_def)
  with no_log [of "fst ?start"] show ?thesis
    by (auto simp: panic_handler_def Let_def full_def [symmetric]
        simp del: lit_simps append_Cons append_Nil append_assoc write_fmt_str split: prod.splits sum.splits)
qed

section \<open>Concrete panics\<close>

definition plain_psf :: "u8 \<Rightarrow> u8 list" where
  "plain_psf b = [0x36, 0x04, 2, 16] @ replicate 4096 b"

definition plain_font :: "u8 \<Rightarrow> font" where
  "plain_font b = \<lparr>font_hdr = \<lparr>fh_magic = 0x0436, fh_font_mode = 2, fh_glyph_size = 16\<rparr>,
     font_data = replicate 4096 b\<rparr>"

definition font_disk :: initrd where
  "font_disk = ramdisk_with [(NORMAL_FONT, plain_psf 0x18), (BOLD_FONT, plain_psf 0x3C)]"

lemma parse_plain_font: "parse_font (plain_psf b) = Inr (plain_font b)"
  unfolding parse_font_Inr_iff plain_psf_def plain_font_def by simp

lemma load_plain_font:
  "map_of (initrd_contents rd) path = Some (plain_psf b) \<Longrightarrow> font_new rd path = Inr (plain_font b)"
  by (simp add: font_new_def ramdisk.lookup_present parse_plain_font)

lemma font_disk_fonts:
  "font_new font_disk NORMAL_FONT = Inr (plain_font 0x18)"
  "font_new font_disk BOLD_FONT = Inr (plain_font 0x3C)"
  by (rule load_plain_font, simp add: font_disk_def NORMAL_FONT_def BOLD_FONT_def)+

lemma panic_screen_witness:
  "\<exists>v mem. panic_handler False False font_disk (lit ''boom'') ((small_screen, \<lambda>_. 7), logger_new)
      = (((v, mem), \<lparr>logs = [\<lparr>log_level = Fatal, log_message = lit ''The kernel has panicked.'' @ 10 # lit ''boom''\<rparr>]\<rparr>),
         Halted)
    \<and> pixel_at small_screen mem 10 12
      = glyph_color (plain_font 0x3C) (color_value Red) (color_value Black) 91 2 0"
proof -
  define lg where "lg = \<lparr>logs = [\<lparr>log_level = Fatal, log_message = lit ''The kernel has panicked.'' @ [10] @ lit ''boom''\<rparr>]\<rparr>"
  define cells where "cells = place 0 24 (panic_styled (plain_font 0x3C) (plain_font 0x18) lg)"
  have log: "logs lg = logs logger_new @ [\<lparr>log_level = Fatal, log_message = lit ''The kernel has panicked.'' @ [10] @ lit ''boom''\<rparr>]"
    by (simp add: lg_def logger_new_def)
  have latin: "\<forall>g\<in>set (logs lg). \<forall>c\<in>set (log_message g). c = 10 \<or> printable c"
    by (simp add: lg_def printable_def)
  have width: "in_width small_screen cells"
    by (simp add: cells_def in_width_def panic_styled_def record_styled_def lg_def level_name_def numeral_2_eq_2)
      (simp add: small_screen_def)
  have n: "length (panic_styled (plain_font 0x3C) (plain_font 0x18) lg) = 54"
    by (simp add: panic_styled_def record_styled_def lg_def level_name_def)
  have "room small_screen 0 (24 + 16 * 54)" by (simp add: room_def small_screen_def)
  then have room: "room small_screen 0 (24 + 16 * length (panic_styled (plain_font 0x3C) (plain_font 0x18) lg))"
    unfolding n .
  have corner: "on_screen small_screen 10 12" by (simp add: on_screen_def) (simp add: small_screen_def)
  have "picture (color_value Black) cells (\<lambda>_ _. color_value Black) 10 12
      = glyph_color (plain_font 0x3C) (color_value Red) (color_value Black) 91 2 0"
    by (simp add: cells_def panic_styled_def record_styled_def lg_def level_name_def numeral_2_eq_2)
      (simp add: eval_nat_numeral)
  with panic_screen [OF font_disk_fonts(2,1) _ _ log latin cells_def width room, of "\<lambda>_. 7"] corner
  show ?thesis by (auto simp: lg_def)
qed

text \<open>A file of the RAM disk that was named in Cyrillic.\<close>

lemma panic_without_glyph_deadlocks_witness:
  "snd (panic_handler False False font_disk (lit ''boom'')
    ((small_screen, \<lambda>_. 7), trace logger_new (lit ''Loaded '' @ [0x444]))) = Deadlocked"
  by (rule panic_without_glyph_deadlocks [where t = "lit ''Loaded '' @ [0x444]" and c = 1092])
    (simp_all add: trace_def logger_log_def logger_new_def)

end
