(* ===== verification/Boot_Image.thy ===== *)
theory Boot_Image
  imports Ustar Shell Memory Segments Intro Panic Interrupts
begin

unbundle bit_operations_syntax

text \<open>
  A complete concrete machine on which the kernel boots: a RAM disk with fonts, pictures and the files
  of \<^verbatim>\<open>/etc\<close>, laid out in memory as an archive, a screen, a serial port and a processor. It serves as
  the input of the witnesses of \<^verbatim>\<open>Sessions\<close> and \<^verbatim>\<open>Kernel\<close>.
\<close>

section \<open>The RAM disk\<close>

definition boot_contents :: "(rstr \<times> u8 list) list" where
  "boot_contents =
    [(NORMAL_FONT, plain_psf 0x18), (BOLD_FONT, plain_psf 0x3C),
     (lit ''initrd/usr/share/images/logo.ppm'', encode_image (lit ''ppm'') 2 1 two_pixels),
     (lit ''initrd/usr/share/images/neuro.ppm'', encode_image (lit ''ppm'') 2 1 two_pixels),
     (lit ''initrd/usr/share/images/evil.ppm'', encode_image (lit ''ppm'') 2 1 two_pixels),
     (lit ''initrd/etc/hostname'', utf8_bytes (lit ''localhost'' @ [10])),
     (lit ''initrd/etc/passwd'', utf8_bytes (etc_passwd (lit ''root'') (lit ''x'') 0 0 (lit ''Super User'')
        (lit ''/root'') (lit ''/bin/sh'' @ [10]))),
     (lit ''initrd/etc/group'', utf8_bytes (lit ''root'' @ 58 # lit ''x:0:'' @ [10])),
     (lit ''initrd/etc/motd'', utf8_bytes (lit ''Welcome.'' @ [10]))]"

definition boot_file :: "rstr \<times> u8 list \<Rightarrow> tar_file" where
  "boot_file pd = \<lparr>f_header = (f_header hostname_file)\<lparr>h_name := fst pd, h_size := word_of_nat (length (snd pd))\<rparr>,
     f_data = snd pd\<rparr>"

definition boot_rd :: initrd where
  "boot_rd = \<lparr>files = map boot_file boot_contents\<rparr>"

definition boot_memory :: memory where
  "boot_memory = mem_of 0x200000 (encode_archive (files boot_rd))"

lemma contents_boot_rd: "initrd_contents boot_rd = boot_contents"
  by (simp add: initrd_contents_def boot_rd_def boot_file_def comp_def)

lemma radix_digits_length: "2 \<le> r \<Longrightarrow> n < r ^ Suc w \<Longrightarrow> length (radix_digits r n) \<le> Suc w"
proof (induction w arbitrary: n)
  case 0
  then show ?case by (simp add: radix_digits.simps [of r n])
next
  case (Suc w)
  have "n div r < r ^ Suc w" using Suc.prems by (simp add: div_less_iff_less_mult mult.commute)
  then show ?case using Suc by (simp add: radix_digits.simps [of r n])
qed

lemma boot_file_fits:
  assumes "text_fits 100 (fst pd)" "fst pd \<noteq> []" "hd (fst pd) \<noteq> 0" "length (snd pd) \<le> 4100"
  shows "file_fits (boot_file pd)"
proof -
  have size: "unat (word_of_nat (length (snd pd)) :: u32) = length (snd pd)"
    using assms(4) by (simp add: unat_of_nat)
  have "text_fits 12 (number_text 8 12 (length (snd pd)))"
    by (rule text_fits_number_text) (use assms(4) radix_digits_length [of 8 "length (snd pd)" 11] in simp_all)
  then show ?thesis
    using numbers_fit hostname_texts_fit assms(1-3) size
    by (simp add: boot_file_def hostname_file_def file_fits_def header_fits_def header_fields_def
        del: lit_simps)
qed

lemma boot_file_ok: "is_ok (fmt_file (boot_file pd))"
  using hostname_file_ok by (simp add: fmt_file_is_ok boot_file_def)

lemma boot_lengths: "list_all (\<lambda>pd. length (snd pd) \<le> 4100) boot_contents"
proof -
  have "length (encode_image (lit ''ppm'') 2 1 two_pixels) = 17"
    using length_utf8_bytes_ascii [OF netpbm_header_ascii, of "lit ''ppm''" 2 1]
    by (simp add: encode_image_def netpbm_header_def netpbm_size_def netpbm_magic_def fmt_dec_def
        radix_digits.simps two_pixels_def row_bytes_def)
  then show ?thesis
    by (simp add: boot_contents_def plain_psf_def length_utf8_bytes_ascii etc_passwd_def fmt_dec_def
        radix_digits.simps digit_char_def)
qed

lemma boot_names: "list_all (\<lambda>pd. text_fits 100 (fst pd) \<and> fst pd \<noteq> [] \<and> hd (fst pd) \<noteq> 0) boot_contents"
  by (simp add: boot_contents_def text_fits_def length_utf8_bytes_ascii NORMAL_FONT_def BOLD_FONT_def)

lemma boot_files_fit: "f \<in> set (files boot_rd) \<Longrightarrow> file_fits f"
  using boot_lengths boot_names by (auto simp: boot_rd_def list_all_iff intro!: boot_file_fits)

lemma length_concat_le:
  "\<forall>x\<in>set xs. length (f x) \<le> n \<Longrightarrow> length (concat (map f xs)) \<le> length xs * n"
  by (induction xs) auto

lemma boot_archive_at: "archive_at boot_memory 0x200000 (files boot_rd)"
proof -
  have "length (encode_file f) \<le> 5123" if "f \<in> set (files boot_rd)" for f
  proof -
    have "length (f_data f) \<le> 4100"
      using that boot_lengths by (auto simp: boot_rd_def boot_file_def list_all_iff)
    moreover have "(512 - length (f_data f) mod 512) mod 512 \<le> 511"
      using mod_less_divisor [of 512 "512 - length (f_data f) mod 512"] by linarith
    ultimately show ?thesis
      unfolding length_encode_file [OF boot_files_fit [OF that]] by linarith
  qed
  then have "length (concat (map encode_file (files boot_rd))) \<le> length (files boot_rd) * 5123"
    by (intro length_concat_le) blast
  moreover have "length (files boot_rd) = 9" by (simp add: boot_rd_def boot_contents_def)
  ultimately have "length (encode_archive (files boot_rd)) \<le> 50000"
    by (simp add: encode_archive_def EOF_BLOCK_def BLOCK_SIZE_def)
  then show ?thesis
    using boot_files_fit by (simp add: archive_at_def boot_memory_def mem_holds_mem_of)
qed

lemma boot_rd_loads:
  "\<exists>lg'. initrd_new boot_memory (Some [0x200000]) lg = Some (lg', Inr boot_rd)"
proof -
  have "\<forall>f\<in>set (files boot_rd). is_ok (fmt_file f)" by (auto simp: boot_rd_def boot_file_ok)
  from load_all_ok [OF this, of "[]" lg "[]"] initrd_new_archive_at [OF boot_archive_at, of "[]" lg]
  show ?thesis by auto
qed

section \<open>What the kernel reads from it\<close>

lemma boot_font: "font_new boot_rd NORMAL_FONT = Inr (plain_font 0x18)"
  by (rule load_plain_font) (simp add: contents_boot_rd boot_contents_def)

lemma boot_shell: "shell_new boot_rd = Inr root_shell"
  unfolding root_shell_def
proof (rule shell_new_etc)
  show "map_of (initrd_contents boot_rd) (lit ''initrd/etc/hostname'')
      = Some (utf8_bytes (lit ''localhost'' @ [10]))"
    by (simp add: contents_boot_rd boot_contents_def NORMAL_FONT_def BOLD_FONT_def)
  show "map_of (initrd_contents boot_rd) (lit ''initrd/etc/passwd'')
      = Some (utf8_bytes (etc_passwd (lit ''root'') (lit ''x'') 0 0 (lit ''Super User'')
          (lit ''/root'') (lit ''/bin/sh'' @ [10])))"
    by (simp add: contents_boot_rd boot_contents_def NORMAL_FONT_def BOLD_FONT_def)
  show "map_of (initrd_contents boot_rd) (lit ''initrd/etc/group'')
      = Some (utf8_bytes (lit ''root'' @ 58 # lit ''x:0:'' @ [10]))"
    by (simp add: contents_boot_rd boot_contents_def NORMAL_FONT_def BOLD_FONT_def)
qed (simp_all add: is_whitespace_def)

lemma boot_motd: "file_text boot_rd (lit ''initrd/etc/motd'') = Inr (lit ''Welcome.'' @ [10])"
  by (rule file_text_contents)
    (simp_all add: contents_boot_rd boot_contents_def NORMAL_FONT_def BOLD_FONT_def)

definition boot_framebuffer :: framebuffer where
  "boot_framebuffer = \<lparr>fb_addr = 0x1000, fb_height = 64, fb_pitch = 1280, fb_width = 320\<rparr>"

lemma boot_screen:
  obtains v where "vga_static boot_rd (Some [boot_framebuffer]) = Inr v"
    "intro_fits boot_rd (lit ''0.1.0'') (lit ''c0ffee1'') (lit ''Theomund'') v 320 64"
proof -
  let ?v = "\<lparr>v_address = 0x1000, v_cursor = \<lparr>cur_x = 0, cur_y = 0, cur_fg = color_value White,
      cur_bg = color_value Black\<rparr>, v_font = plain_font 0x18, v_height = 64, v_pitch = 1280, v_width = 320\<rparr>"
  have "vga_static boot_rd (Some [boot_framebuffer]) = Inr ?v"
    by (simp add: vga_static_def boot_font vga_new_def boot_framebuffer_def)
  moreover have "intro_fits boot_rd (lit ''0.1.0'') (lit ''c0ffee1'') (lit ''Theomund'') ?v 320 64"
    by (rule small_intro_fits)
      (auto simp: contents_boot_rd boot_contents_def NORMAL_FONT_def BOLD_FONT_def vga_fits_def
        plain_font_def font_ok_def)
  ultimately show thesis by (rule that)
qed

section \<open>The devices\<close>

text \<open>
  A serial port: the bytes that went out, the bytes that wait to be read, the divisor latch, and the
  loopback that the driver's self-test uses.
\<close>

record uart16550 =
  u_line :: "u8 list"
  u_waiting :: "u8 list"
  u_latch :: bool
  u_loop :: bool
  u_last :: u8

definition boot_ports :: "uart16550 ports" where
  "boot_ports = \<lparr>
     port_in = (\<lambda>p d.
       if p = 0x3FD then (if u_waiting d = [] then 0x20 else 0x21, d)
       else if p \<noteq> 0x3F8 then (0, d)
       else if u_loop d then (u_last d, d)
       else case u_waiting d of [] \<Rightarrow> (0, d) | b # bs \<Rightarrow> (b, d\<lparr>u_waiting := bs\<rparr>)),
     port_out = (\<lambda>p v d.
       if p = 0x3FB then d\<lparr>u_latch := (v AND 0x80 \<noteq> 0)\<rparr>
       else if p = 0x3FC then d\<lparr>u_loop := (v AND 0x10 \<noteq> 0)\<rparr>
       else if p \<noteq> 0x3F8 \<or> u_latch d then d
       else if u_loop d then d\<lparr>u_last := v\<rparr>
       else d\<lparr>u_line := u_line d @ [v]\<rparr>)\<rparr>"

definition boot_board :: "uart16550 board" where
  "boot_board = \<lparr>machine_ports = boot_ports, notify_end_of_interrupt = (\<lambda>_ d. d),
     pics_initialize = (\<lambda>d. d), write_masks = (\<lambda>_ _ d. d)\<rparr>"

definition operating :: "uart16550 \<Rightarrow> bool" where
  "operating d \<longleftrightarrow> \<not> u_latch d \<and> \<not> u_loop d"

definition boot_uart :: uart16550 where
  "boot_uart = \<lparr>u_line = [], u_waiting = [], u_latch = False, u_loop = False, u_last = 0\<rparr>"

lemma boot_ports_uart: "uart boot_ports 0x3F8 operating u_line u_waiting"
proof -
  have empty: "transmitter_empty boot_ports 0x3F8 d" for d
    by (simp add: transmitter_empty_def boot_ports_def)
  then have "\<exists>n. transmitter_empty boot_ports 0x3F8 ((poll boot_ports 0x3F8 ^^ n) d)" for d by blast
  then show ?thesis
    by (simp add: uart_def empty) (simp add: poll_def boot_ports_def operating_def)
qed

text \<open>The driver's initialisation leaves the port operating, and sends nothing.\<close>

lemma boot_serial_static:
  "\<exists>d'. serial_static boot_ports d = (d', Inr (serial_new COM1)) \<and> operating d' \<and> u_line d' = u_line d
    \<and> u_waiting d' = u_waiting d"
  by (simp add: serial_static_def serial_initialize_def serial_new_def port_number_def outb_def inb_def
      checked_add_def boot_ports_def assert_eq_def operating_def)

end
