(* ===== verification/Sessions.thy ===== *)
theory Sessions
  imports Boot_Image
begin

text \<open>
  The running kernel under its interrupts, where the components meet: a line typed at the serial port
  while the timer ticks (\<^verbatim>\<open>interrupts.rs\<close>, \<^verbatim>\<open>serial.rs\<close>, \<^verbatim>\<open>shell.rs\<close>, \<^verbatim>\<open>timer.rs\<close> and \<^verbatim>\<open>scheduler.rs\<close>
  together), and the enter key of the keyboard (\<^verbatim>\<open>keyboard.rs\<close>, \<^verbatim>\<open>shell.rs\<close> and \<^verbatim>\<open>vga.rs\<close>).
\<close>

section \<open>Typing while the timer ticks\<close>

text \<open>The two interrupts that arrive, in any order, and the handlers they run.\<close>

datatype arrival = TimerTick | SerialByte

fun run_arrivals ::
    "'d board \<Rightarrow> initrd \<Rightarrow> serial \<Rightarrow> arrival list \<Rightarrow> 'd kernel \<Rightarrow> ('d kernel \<times> unit result) option" where
  "run_arrivals b rd s [] k = Some (k, Inr ())"
| "run_arrivals b rd s (a # as) k =
     obind (case a of TimerTick \<Rightarrow> Some (timer_handler b k) | SerialByte \<Rightarrow> serial_handler b rd s k) (\<lambda>k _.
     run_arrivals b rd s as k)"

text \<open>Acknowledging an interrupt does not disturb the serial line.\<close>

definition quiet_board :: "'d board \<Rightarrow> ('d \<Rightarrow> bool) \<Rightarrow> ('d \<Rightarrow> u8 list) \<Rightarrow> ('d \<Rightarrow> u8 list) \<Rightarrow> bool" where
  "quiet_board b ready sent inbox \<longleftrightarrow>
     (\<forall>i d. ready d \<longrightarrow> (let d' = notify_end_of_interrupt b i d in
        ready d' \<and> sent d' = sent d \<and> inbox d' = inbox d))"

lemma quiet_boardD:
  assumes "quiet_board b ready sent inbox" "ready d"
  shows "ready (notify_end_of_interrupt b i d)" "sent (notify_end_of_interrupt b i d) = sent d"
    "inbox (notify_end_of_interrupt b i d) = inbox d"
  using assms by (simp_all add: quiet_board_def Let_def)

text \<open>What one byte does, from what the shell does with it.\<close>

lemma serial_handler_says:
  assumes "quiet_board b ready sent inbox"
    and "says ready sent inbox (console_part k)
      (interpret_byte rd (k_timer k) (k_log k) (machine_ports b) s (console_part k)) out rest st' ()"
  shows "\<exists>d'. serial_handler b rd s k = Some (k\<lparr>k_serial_console := st_shell st', k_sched := st_sched st',
      k_dev := d'\<rparr>, Inr ())
    \<and> ready d' \<and> inbox d' = rest \<and> sent d' = sent (k_dev k) @ out"
proof -
  obtain d where d: "interpret_byte rd (k_timer k) (k_log k) (machine_ports b) s (console_part k)
      = Some (st'\<lparr>st_dev := d\<rparr>, Inr ())" "ready d" "inbox d = rest" "sent d = sent (k_dev k) @ out"
    using assms(2) by (auto simp: says_def console_part_def)
  show ?thesis
  proof (intro exI conjI)
    show "serial_handler b rd s k = Some (k\<lparr>k_serial_console := st_shell st', k_sched := st_sched st',
        k_dev := notify_end_of_interrupt b (index_value COM1Line) d\<rparr>, Inr ())"
      using d(1) by (simp add: serial_handler_def with_console_def end_interrupt_def)
  qed (use quiet_boardD [OF assms(1) d(2)] d(3,4) in simp_all)
qed

lemma serial_handler_key:
  assumes "quiet_board b ready sent inbox" "line_ok (machine_ports b) s ready sent inbox"
    and "ready (k_dev k)" "inbox (k_dev k) = c # cs" "c \<noteq> 13"
  shows "\<exists>d'. serial_handler b rd s k = Some (k\<lparr>k_serial_console := (k_serial_console k)
        \<lparr>buffer := edit_line (buffer (k_serial_console k)) [c]\<rparr>, k_dev := d'\<rparr>, Inr ())
    \<and> ready d' \<and> inbox d' = cs
    \<and> sent d' = sent (k_dev k) @ echo_bytes (buffer (k_serial_console k)) [c]"
proof -
  have "k\<lparr>k_serial_console := sh, k_sched := k_sched k, k_dev := d\<rparr> = k\<lparr>k_serial_console := sh, k_dev := d\<rparr>"
    for sh d by (cases k) simp
  moreover have "ready (st_dev (console_part k))" "inbox (st_dev (console_part k)) = c # cs"
    using assms(3,4) by (simp_all add: console_part_def)
  from interpret_key [OF assms(2) this assms(5), of rd "k_timer k" "k_log k"] serial_handler_says [OF assms(1)]
  have "\<exists>d'. serial_handler b rd s k = Some (k\<lparr>k_serial_console := (k_serial_console k)
        \<lparr>buffer := edit_line (buffer (k_serial_console k)) [c]\<rparr>, k_sched := k_sched k, k_dev := d'\<rparr>, Inr ())
    \<and> ready d' \<and> inbox d' = cs
    \<and> sent d' = sent (k_dev k) @ echo_bytes (buffer (k_serial_console k)) [c]"
    by (fastforce simp: console_part_def)
  ultimately show ?thesis by simp
qed

lemma serial_handler_enter:
  assumes "quiet_board b ready sent inbox" "line_ok (machine_ports b) s ready sent inbox"
    and "ready (k_dev k)" "inbox (k_dev k) = 13 # rest"
    and "command_reply rd (k_timer k) (k_log k) (k_serial_console k) (buffer (k_serial_console k)) (k_sched k)
      = Inr (sched, reply)"
  shows "\<exists>d'. serial_handler b rd s k = Some (k\<lparr>k_serial_console := (k_serial_console k)\<lparr>buffer := []\<rparr>,
        k_sched := sched, k_dev := d'\<rparr>, Inr ())
    \<and> ready d' \<and> inbox d' = rest
    \<and> sent d' = sent (k_dev k) @ crlf_bytes (writeln NORMAL @ reply @ prompt (k_serial_console k))"
proof -
  have "says ready sent inbox (console_part k)
      (interpret_byte rd (k_timer k) (k_log k) (machine_ports b) s (console_part k))
      (crlf_bytes (writeln NORMAL @ reply @ prompt (k_serial_console k))) rest
      ((console_part k)\<lparr>st_shell := (k_serial_console k)\<lparr>buffer := []\<rparr>, st_sched := sched\<rparr>) ()"
    using interpret_enter [OF assms(2), of "console_part k" rest rd "k_timer k" "k_log k" sched reply] assms(3-5)
    by (simp add: console_part_def)
  from serial_handler_says [OF assms(1) this] show ?thesis by simp
qed

text \<open>
  \<open>typed\<close>: the kernel after the bytes \<open>keys\<close> and \<open>m\<close> ticks. The two kinds of interrupt change different
  parts of it.
\<close>

definition typed ::
    "('d \<Rightarrow> bool) \<Rightarrow> ('d \<Rightarrow> u8 list) \<Rightarrow> ('d \<Rightarrow> u8 list) \<Rightarrow> u8 list \<Rightarrow> u8 list \<Rightarrow> nat \<Rightarrow> 'd kernel \<Rightarrow> 'd kernel \<Rightarrow> bool" where
  "typed ready sent inbox keys rest m k k' \<longleftrightarrow>
     k_timer k' = (increment ^^ m) (k_timer k) \<and> k_sched k' = (after_tick ^^ m) (k_sched k)
     \<and> k_serial_console k' = (k_serial_console k)\<lparr>buffer := edit_line (buffer (k_serial_console k)) keys\<rparr>
     \<and> ready (k_dev k') \<and> inbox (k_dev k') = rest
     \<and> sent (k_dev k') = sent (k_dev k) @ echo_bytes (buffer (k_serial_console k)) keys
     \<and> k_screen k' = k_screen k \<and> k_vga_console k' = k_vga_console k \<and> extends_log (k_log k) (k_log k')"

lemma typed_tick:
  assumes "quiet_board b ready sent inbox" "ready (k_dev k)"
  obtains k' where "timer_handler b k = (k', Inr ())"
    "typed ready sent inbox [] (inbox (k_dev k)) 1 k k'"
proof -
  obtain lg where lg: "timer_handler b k = (end_interrupt b TimerLine (k\<lparr>k_timer := increment (k_timer k),
      k_log := lg, k_sched := after_tick (k_sched k)\<rparr>), Inr ())" "extends_log (k_log k) lg"
    using timer_handler_eq by blast
  show thesis
    by (rule that [OF lg(1)]) (use lg(2) quiet_boardD [OF assms] in \<open>simp add: typed_def\<close>)
qed

lemma typed_key:
  assumes "quiet_board b ready sent inbox" "line_ok (machine_ports b) s ready sent inbox"
    and "ready (k_dev k)" "inbox (k_dev k) = c # cs" "c \<noteq> 13"
  obtains k' where "serial_handler b rd s k = Some (k', Inr ())" "typed ready sent inbox [c] cs 0 k k'"
proof -
  obtain d' where d': "serial_handler b rd s k = Some (k\<lparr>k_serial_console := (k_serial_console k)
        \<lparr>buffer := edit_line (buffer (k_serial_console k)) [c]\<rparr>, k_dev := d'\<rparr>, Inr ())"
    "ready d'" "inbox d' = cs" "sent d' = sent (k_dev k) @ echo_bytes (buffer (k_serial_console k)) [c]"
    using serial_handler_key [OF assms] by blast
  show thesis
    by (rule that [OF d'(1)]) (use d'(2-4) in \<open>simp add: typed_def del: edit_line.simps echo_bytes.simps\<close>)
qed

lemma edit_line_append: "edit_line buf (xs @ ys) = edit_line (edit_line buf xs) ys"
  by (induction xs arbitrary: buf) simp_all

lemma echo_bytes_append: "echo_bytes buf (xs @ ys) = echo_bytes buf xs @ echo_bytes (edit_line buf xs) ys"
  by (induction xs arbitrary: buf) simp_all

lemma typed_trans:
  assumes "typed ready sent inbox xs rest m k k1" "typed ready sent inbox ys rest' n k1 k2"
  shows "typed ready sent inbox (xs @ ys) rest' (n + m) k k2"
  using assms extends_log_trans
  by (auto simp: typed_def funpow_add edit_line_append echo_bytes_append)

lemma run_arrivals_typed:
  assumes "quiet_board b ready sent inbox" "line_ok (machine_ports b) s ready sent inbox"
  shows "13 \<notin> set keys \<Longrightarrow> count_list as SerialByte = length keys \<Longrightarrow> ready (k_dev k) \<Longrightarrow>
    inbox (k_dev k) = keys @ rest \<Longrightarrow>
    \<exists>k'. run_arrivals b rd s as k = Some (k', Inr ())
      \<and> typed ready sent inbox keys rest (count_list as TimerTick) k k'"
proof (induction as arbitrary: keys k)
  case Nil
  then show ?case by (simp add: typed_def)
next
  case (Cons a as)
  show ?case
  proof (cases a)
    case TimerTick
    obtain k1 where k1: "timer_handler b k = (k1, Inr ())" "typed ready sent inbox [] (keys @ rest) 1 k k1"
      using typed_tick [OF assms(1) Cons.prems(3)] Cons.prems(4) by metis
    obtain k2 where "run_arrivals b rd s as k1 = Some (k2, Inr ())"
        "typed ready sent inbox keys rest (count_list as TimerTick) k1 k2"
      using Cons.IH [of keys k1] Cons.prems(1,2) k1(2) TimerTick by (auto simp: typed_def)
    then show ?thesis using typed_trans [OF k1(2)] k1(1) TimerTick by simp
  next
    case SerialByte
    then obtain c cs where keys: "keys = c # cs" using Cons.prems(2) by (cases keys) auto
    obtain k1 where k1: "serial_handler b rd s k = Some (k1, Inr ())"
        "typed ready sent inbox [c] (cs @ rest) 0 k k1"
      using typed_key [OF assms Cons.prems(3), of c "cs @ rest" rd] Cons.prems(1,4) keys by auto
    obtain k2 where "run_arrivals b rd s as k1 = Some (k2, Inr ())"
        "typed ready sent inbox cs rest (count_list as TimerTick) k1 k2"
      using Cons.IH [of cs k1] Cons.prems(1,2) k1(2) SerialByte keys
      by (auto simp: typed_def simp del: edit_line.simps echo_bytes.simps)
    then show ?thesis using typed_trans [OF k1(2)] k1(1) SerialByte keys by fastforce
  qed
qed

lemma typing_runs:
  assumes "uart (machine_ports b) (s_address s) ready sent inbox" "s_address s \<le> 0xFFFA"
    and "quiet_board b ready sent inbox" "ready (k_dev k)" "inbox (k_dev k) = keys @ 13 # rest"
    and "13 \<notin> set keys" "buffer (k_serial_console k) = []"
    and "count_list as SerialByte = length keys" "count_list as TimerTick = m"
  shows "\<exists>k1. run_arrivals b rd s as k = Some (k1, Inr ())
    \<and> k_timer k1 = (increment ^^ m) (k_timer k) \<and> k_sched k1 = (after_tick ^^ m) (k_sched k)
    \<and> extends_log (k_log k) (k_log k1) \<and> k_screen k1 = k_screen k \<and> k_vga_console k1 = k_vga_console k
    \<and> sent (k_dev k1) = sent (k_dev k) @ echo_bytes [] keys
    \<and> (\<forall>sched reply. command_reply rd (k_timer k1) (k_log k1) (k_serial_console k) (edit_line [] keys) (k_sched k1)
          = Inr (sched, reply) \<longrightarrow>
        (\<exists>d. run_arrivals b rd s [SerialByte] k1
            = Some (k1\<lparr>k_serial_console := k_serial_console k, k_sched := sched, k_dev := d\<rparr>, Inr ())
          \<and> ready d \<and> inbox d = rest
          \<and> sent d = sent (k_dev k1) @ crlf_bytes (writeln NORMAL @ reply @ prompt (k_serial_console k))))"
proof -
  have line: "line_ok (machine_ports b) s ready sent inbox" using assms(1,2) by (simp add: line_ok_def)
  obtain k1 where k1: "run_arrivals b rd s as k = Some (k1, Inr ())"
      "typed ready sent inbox keys (13 # rest) m k k1"
    using run_arrivals_typed [OF assms(3) line assms(6,8,4,5)] assms(9) by blast
  have shell: "k_serial_console k1 = (k_serial_console k)\<lparr>buffer := edit_line [] keys\<rparr>"
    using k1(2) assms(7) by (simp add: typed_def)
  have same: "(k_serial_console k)\<lparr>buffer := []\<rparr> = k_serial_console k" using assms(7) by simp
  have "\<exists>d. serial_handler b rd s k1
        = Some (k1\<lparr>k_serial_console := k_serial_console k, k_sched := sched, k_dev := d\<rparr>, Inr ())
      \<and> ready d \<and> inbox d = rest
      \<and> sent d = sent (k_dev k1) @ crlf_bytes (writeln NORMAL @ reply @ prompt (k_serial_console k))"
    if "command_reply rd (k_timer k1) (k_log k1) (k_serial_console k) (edit_line [] keys) (k_sched k1)
      = Inr (sched, reply)" for sched reply
    using serial_handler_enter [OF assms(3) line, of k1 rest rd sched reply] k1(2) that same
    by (simp add: typed_def shell command_reply_buffer)
  then have enter: "\<exists>d. run_arrivals b rd s [SerialByte] k1
        = Some (k1\<lparr>k_serial_console := k_serial_console k, k_sched := sched, k_dev := d\<rparr>, Inr ())
      \<and> ready d \<and> inbox d = rest
      \<and> sent d = sent (k_dev k1) @ crlf_bytes (writeln NORMAL @ reply @ prompt (k_serial_console k))"
    if "command_reply rd (k_timer k1) (k_log k1) (k_serial_console k) (edit_line [] keys) (k_sched k1)
      = Inr (sched, reply)" for sched reply
    using that by fastforce
  show ?thesis
    by (rule exI [of _ k1]) (use k1 enter assms(7) in \<open>simp add: typed_def\<close>)
qed

text \<open>
  A line is typed while the timer runs: whatever number of timer interrupts falls between the
  bytes, every handler returns, the line is edited and echoed as if it had been typed alone, and the
  timer and the scheduler have advanced by exactly those ticks. The carriage return then runs
  the command on the state of that moment, sends the reply and the prompt, and leaves everything else
  as the ticks made it.
\<close>

theorem typing_while_ticking:
  assumes "uart (machine_ports b) (s_address s) ready sent inbox" "s_address s \<le> 0xFFFA"
    and "quiet_board b ready sent inbox" "ready (k_dev k)" "inbox (k_dev k) = keys @ 13 # rest"
    and "13 \<notin> set keys" "buffer (k_serial_console k) = []"
    and "count_list as SerialByte = length keys" "count_list as TimerTick = m"
  shows "\<exists>k1. run_arrivals b rd s as k = Some (k1, Inr ())
    \<and> k_timer k1 = (increment ^^ m) (k_timer k) \<and> k_sched k1 = (after_tick ^^ m) (k_sched k)
    \<and> extends_log (k_log k) (k_log k1) \<and> k_screen k1 = k_screen k \<and> k_vga_console k1 = k_vga_console k
    \<and> sent (k_dev k1) = sent (k_dev k) @ echo_bytes [] keys
    \<and> (\<forall>sched reply. command_reply rd (k_timer k1) (k_log k1) (k_serial_console k) (edit_line [] keys) (k_sched k1)
          = Inr (sched, reply) \<longrightarrow>
        (\<exists>d. run_arrivals b rd s [SerialByte] k1
            = Some (k1\<lparr>k_serial_console := k_serial_console k, k_sched := sched, k_dev := d\<rparr>, Inr ())
          \<and> ready d \<and> inbox d = rest
          \<and> sent d = sent (k_dev k1) @ crlf_bytes (writeln NORMAL @ reply @ prompt (k_serial_console k))))"
  by (rule typing_runs [OF assms])

text \<open>\<^verbatim>\<open>time\<close>, typed while three ticks pass, replies 3.\<close>

definition uart_board :: "test_uart board" where
  "uart_board = \<lparr>machine_ports = test_ports, notify_end_of_interrupt = (\<lambda>_ d. d), pics_initialize = (\<lambda>d. d),
     write_masks = (\<lambda>_ _ d. d)\<rparr>"

definition typing_kernel :: "u8 list \<Rightarrow> test_uart kernel" where
  "typing_kernel keys = \<lparr>k_log = logger_new, k_timer = timer_new, k_sched = forked_scheduler,
     k_serial_console = root_shell, k_vga_console = None, k_screen = (small_screen, \<lambda>_. 0),
     k_dev = \<lparr>line_out = [], line_in = keys, busy = 0\<rparr>\<rparr>"

lemma typing_while_ticking_witness:
  "\<exists>k1 k2. run_arrivals uart_board etc_disk (serial_new COM1)
      [SerialByte, TimerTick, SerialByte, SerialByte, TimerTick, TimerTick, SerialByte]
      (typing_kernel [116, 105, 109, 101, 13]) = Some (k1, Inr ())
    \<and> run_arrivals uart_board etc_disk (serial_new COM1) [SerialByte] k1 = Some (k2, Inr ())
    \<and> line_out (k_dev k2) = [116, 105, 109, 101] @ crlf_bytes (writeln NORMAL @ writeln (lit ''3'') @ prompt root_shell)"
proof -
  let ?keys = "[116, 105, 109, 101] :: u8 list"
  let ?k = "typing_kernel [116, 105, 109, 101, 13]"
  have line: "uart (machine_ports uart_board) (s_address (serial_new COM1)) (\<lambda>_. True) line_out line_in"
      "s_address (serial_new COM1) \<le> 0xFFFA" "quiet_board uart_board (\<lambda>_. True) line_out line_in"
    using test_uart_ok by (simp_all add: uart_board_def com1 quiet_board_def)
  have fields: "line_in (k_dev ?k) = ?keys @ 13 # []" "13 \<notin> set ?keys" "buffer (k_serial_console ?k) = []"
      "k_serial_console ?k = root_shell" "k_timer ?k = timer_new" "line_out (k_dev ?k) = []"
    by (simp_all add: typing_kernel_def root_shell_def)
  let ?as = "[SerialByte, TimerTick, SerialByte, SerialByte, TimerTick, TimerTick, SerialByte]"
  have counts: "count_list ?as SerialByte = length ?keys" "count_list ?as TimerTick = 3" by simp_all
  from typing_while_ticking [OF line TrueI fields(1,2,3) counts, of etc_disk, unfolded fields(4-6) append_Nil]
  obtain k1 where k1: "run_arrivals uart_board etc_disk (serial_new COM1) ?as ?k = Some (k1, Inr ())"
    "k_timer k1 = (increment ^^ 3) timer_new" "line_out (k_dev k1) = echo_bytes [] ?keys"
    "\<forall>sched reply. command_reply etc_disk (k_timer k1) (k_log k1) root_shell (edit_line [] ?keys) (k_sched k1)
        = Inr (sched, reply) \<longrightarrow>
      (\<exists>d. run_arrivals uart_board etc_disk (serial_new COM1) [SerialByte] k1
          = Some (k1\<lparr>k_serial_console := root_shell, k_sched := sched, k_dev := d\<rparr>, Inr ())
        \<and> True \<and> line_in d = []
        \<and> line_out d = line_out (k_dev k1) @ crlf_bytes (writeln NORMAL @ reply @ prompt root_shell))"
    by blast
  have "get_elapsed (k_timer k1) = 3"
    using elapsed_increments [of 3 timer_new] k1(2) by (simp add: get_elapsed_def timer_new_def)
  then have "command_reply etc_disk (k_timer k1) (k_log k1) root_shell (edit_line [] ?keys) (k_sched k1)
      = Inr (k_sched k1, writeln (lit ''3''))"
    by (simp add: command_reply_def command_word_def is_whitespace_def fmt_dec_def radix_digits.simps digit_char_def)
  with k1(4) obtain d where "run_arrivals uart_board etc_disk (serial_new COM1) [SerialByte] k1
      = Some (k1\<lparr>k_serial_console := root_shell, k_sched := k_sched k1, k_dev := d\<rparr>, Inr ())"
    "line_out d = line_out (k_dev k1) @ crlf_bytes (writeln NORMAL @ writeln (lit ''3'') @ prompt root_shell)"
    by blast
  moreover have "echo_bytes [] ?keys = ?keys" by simp
  ultimately show ?thesis
    using k1(1,3) by (intro exI [of _ k1] exI conjI) (assumption | simp del: run_arrivals.simps)+
qed

section \<open>The enter key\<close>

lemma vga_console_cleared:
  assumes "font_ok (v_font v)" "vga_fits v" "shell_new rd = Inr sh"
  obtains m where "vga_console rd (v, mem) = ((set_cursor v 8 24 (color_value White) (color_value Black), m), Inr sh)"
    "\<And>px py. on_screen v px py \<Longrightarrow> pixel_at v m px py = color_value Black"
proof -
  obtain m where m: "clear v mem = ((set_cursor v 8 24 (color_value White) (color_value Black), m), Inr ())"
      "\<forall>px py. on_screen v px py \<longrightarrow> pixel_at v m px py = color_value Black"
    using clear_painted [OF assms(2), of mem] by blast
  then have "vga_console rd (v, mem) = ((set_cursor v 8 24 (color_value White) (color_value Black), m), Inr sh)"
    using assms(1,3) by (simp add: vga_console_def get_font_width_def get_font_height_def usize_add_def Let_def)
  then show thesis using m(2) by (intro that) auto
qed

text \<open>The greeting as characters with a font and a colour: the message in white, and the prompt on a line of its own.\<close>

definition greeting_styled :: "font \<Rightarrow> font \<Rightarrow> font \<Rightarrow> rstr \<Rightarrow> shell \<Rightarrow> styled list" where
  "greeting_styled bf nf f motd sh =
     map (\<lambda>c. (f, color_value White, c)) (motd @ [10]) @ styled bf nf f (color_value White) (prompt sh)"

text \<open>The prompt is in bold, with its user and host in green and the directory in blue.\<close>

lemma shell_prompt_styled:
  assumes "27 \<notin> set user" "27 \<notin> set host"
  shows "styled bf nf f fg (shell_prompt user host) =
    map (\<lambda>c. (bf, color_value White, c)) (lit ''['')
    @ map (\<lambda>c. (bf, color_value Green, c)) (user @ lit ''@'' @ host @ lit '' '')
    @ map (\<lambda>c. (bf, color_value Blue, c)) (lit ''~'')
    @ map (\<lambda>c. (bf, color_value White, c)) (lit '']# '')"
  using assms by (simp add: shell_prompt_def styled_codes styled_plain)

lemma display_shows:
  assumes "file_text rd (lit ''initrd/etc/motd'') = Inr motd" "\<forall>c\<in>set motd. c = 10 \<or> printable c"
    and "\<forall>c\<in>set (unescaped (prompt sh)). c = 10 \<or> printable c"
    and "font_new rd BOLD_FONT = Inr bf" "font_new rd NORMAL_FONT = Inr nf" "font_ok (v_font v)" "vga_fits v"
    and "cells = place 0 24 (greeting_styled bf nf (v_font v) motd sh)" "in_width v cells"
    and "room v 0 (24 + 16 * length (greeting_styled bf nf (v_font v) motd sh))"
  obtains v' m' where "display (\<lambda>s vm. Some (write_fmt rd s vm)) rd sh
      (set_cursor v 8 24 (color_value White) (color_value Black), m) = Some ((v', m'), Inr ())" "same_screen v v'"
    "\<forall>px py. on_screen v px py \<longrightarrow> pixel_at v m' px py = picture (color_value Black) cells (pixel_at v m) px py"
proof -
  let ?w = "color_value White" and ?b = "color_value Black" and ?text = "motd @ 10 # prompt sh"
  let ?v = "set_cursor v 8 24 ?w ?b" and ?styled = "greeting_styled bf nf (v_font v) motd sh"
  have plain: "27 \<notin> set motd" using assms(2) by (fastforce simp: printable_def)
  have styled: "styled bf nf (v_font v) ?w ?text = ?styled"
    using styled_plain [of "motd @ [10]" bf nf "v_font v" ?w "prompt sh"] plain by (simp add: greeting_styled_def)
  have chars: "unescaped ?text = motd @ 10 # unescaped (prompt sh)"
    using unescaped_closed [OF closed_plain, of "motd @ [10]"] plain unescaped_plain [of "motd @ [10]"] by simp
  have visible: "\<forall>c\<in>set (unescaped ?text). c = 10 \<or> printable c" using assms(2,3) unfolding chars by auto
  have "shows_picture ?v (picture ?b (place 0 24 (styled bf nf (v_font ?v) ?w ?text)) (pixel_at ?v m))
      (write_str rd ?text (?v, m))"
  proof (rule write_str_shows [OF assms(4,5) _ visible])
    show "in_width ?v (place 0 24 (styled bf nf (v_font ?v) ?w ?text))"
      using assms(8,9) by (simp add: styled in_width_def)
    show "length ?styled = length (unescaped ?text)" unfolding styled [symmetric] by (rule length_styled)
    show "unat (v_address ?v) + (24 + 16 * length ?styled + 4) * unat (v_pitch ?v) \<le> 2 ^ 64"
        "24 + 16 * length ?styled + 4 < 2 ^ 64"
      using assms(10) by (simp_all add: room_def) (simp add: set_cursor_def)
  qed (use assms(6,7) in simp_all)
  then obtain v' m' where shown: "write_str rd ?text (?v, m) = ((v', m'), Inr ())" "same_screen v v'"
      "\<forall>px py. on_screen v px py \<longrightarrow> pixel_at v m' px py = picture ?b cells (pixel_at v m) px py"
    unfolding shows_picture_def by (auto simp: styled assms(8))
  have "sbind (write_str rd (motd @ [10]) (?v, m)) (\<lambda>s _. write_str rd (prompt sh) s) = ((v', m'), Inr ())"
    by (rule trans [OF write_str_line [OF closed_plain [OF plain]] shown(1)])
  then obtain vm where "write_str rd (motd @ [10]) (?v, m) = (vm, Inr ())" "write_str rd (prompt sh) vm = ((v', m'), Inr ())"
    by (auto simp: sbind_Inr_iff)
  then have "display (\<lambda>s vm. Some (write_fmt rd s vm)) rd sh (?v, m) = Some ((v', m'), Inr ())"
    using assms(1) by (simp add: display_def writeln_def)
  with shown(2,3) show thesis by (intro that)
qed


text \<open>A keyboard whose enter key is held, on the RAM disk of \<^verbatim>\<open>Boot_Image\<close>.\<close>

definition enter_board :: "unit board" where
  "enter_board = \<lparr>machine_ports = \<lparr>port_in = (\<lambda>_ d. (0x1C, d)), port_out = (\<lambda>_ _ d. d)\<rparr>,
     notify_end_of_interrupt = (\<lambda>_ d. d), pics_initialize = (\<lambda>d. d), write_masks = (\<lambda>_ _ d. d)\<rparr>"

definition dark_kernel :: "unit kernel" where
  "dark_kernel = \<lparr>k_log = logger_new, k_timer = timer_new, k_sched = forked_scheduler,
     k_serial_console = root_shell, k_vga_console = None, k_screen = (small_screen, \<lambda>_. 0), k_dev = ()\<rparr>"

lemma root_prompt: "length (prompt root_shell) = 68" "\<forall>c\<in>set (prompt root_shell). c < 256"
  by (simp_all add: root_shell_def shell_prompt_def code_consts ESC_def)

lemma boot_fonts: "font_new boot_rd BOLD_FONT = Inr (plain_font 60)" "font_new boot_rd NORMAL_FONT = Inr (plain_font 24)"
  by (rule load_plain_font, simp add: contents_boot_rd boot_contents_def NORMAL_FONT_def BOLD_FONT_def)+

lemma root_prompt_shown: "length (unescaped (prompt root_shell)) = 20"
    "\<forall>c\<in>set (unescaped (prompt root_shell)). printable c"
  by (simp_all add: root_shell_def shell_prompt_def code_consts ESC_def printable_def)


end
