(* ===== verification/Kernel.thy ===== *)
theory Kernel
  imports Sessions
begin

text \<open>
  The kernel as a whole: \<^verbatim>\<open>kmain\<close> in \<^verbatim>\<open>kernel/src/main.rs\<close> runs the initialisers in order (the one
  of \<^verbatim>\<open>kernel/src/smp.rs\<close> is here), with the lazily built statics created at their first use, and then
  waits for interrupts. A panic of any of them ends the boot; \<open>None\<close> means that it does not end.
\<close>

section \<open>Booting\<close>

text \<open>What the boot loader, the build and the processor provide.\<close>

record ('t, 'g, 'd) machine =
  bt_cpu :: "('g, 'd) cpu"
  bt_paging :: "'t paging"
  bt_board :: "'d board"
  bt_hhdm :: "u64 option"
  bt_memory_map :: "mem_entry list option"
  bt_cpus :: "nat option"
    \<comment> \<open>the length of the processor list\<close>
  bt_modules :: "u64 list option"
  bt_framebuffers :: "framebuffer list option"
  bt_version :: rstr
  bt_commit :: rstr
  bt_authors :: rstr

definition smp_initialize :: "nat option \<Rightarrow> logger \<Rightarrow> logger \<times> unit result" where
  "smp_initialize cpus lg =
     sbind (lg, unwrap_option cpus) (\<lambda>lg count.
     (debug lg (lit ''Detected that the processor has '' @ fmt_dec count @ lit '' core(s).''), Inr ()))"

definition outcome :: "'s \<times> 'a result \<Rightarrow> ('s \<times> 'a) result" where
  "outcome r = rbind (snd r) (\<lambda>x. Inr (fst r, x))"

definition ebind :: "'a result option \<Rightarrow> ('a \<Rightarrow> 'b result option) \<Rightarrow> 'b result option" where
  "ebind m f =
     (case m of None \<Rightarrow> None | Some (Inl p) \<Rightarrow> Some (Inl p) | Some (Inr x) \<Rightarrow> f x)"

definition shell_initialize ::
    "'d ports \<Rightarrow> initrd \<Rightarrow> 'd \<Rightarrow> ('d \<times> serial \<times> shell) result option" where
  "shell_initialize ports rd d =
     ebind (Some (shell_new rd)) (\<lambda>console.
     ebind (Some (outcome (serial_static ports d))) (\<lambda>(d, serial).
     ebind (map_option outcome (display (serial_write_fmt ports serial) rd console d)) (\<lambda>(d, _).
     Some (Inr (d, serial, console)))))"

text \<open>
  \<^verbatim>\<open>tick\<close> of \<^verbatim>\<open>main.rs\<close> up to its loop: the log it leaves. The loop halts the processor until the next
  interrupt; what the interrupts then do is the step relation \<open>kernel_step\<close>.
\<close>

definition idle :: "logger \<Rightarrow> logger" where
  "idle lg = info lg (lit ''The operating system has been successfully initialized.'')"

definition kmain ::
    "('t, 'g, 'd) machine \<Rightarrow> memory \<Rightarrow> 'd \<Rightarrow> (initrd \<times> serial \<times> 'd kernel) result option" where
  "kmain m mem d =
     ebind (Some (outcome (gdt_initialize (bt_cpu m) d))) (\<lambda>(d, selectors).
     ebind (Some (outcome (memory_initialize (bt_paging m) (bt_hhdm m) (bt_memory_map m)))) (\<lambda>_.
     let (table, d) = interrupts_initialize (bt_board m) d in
     ebind (Some (outcome (smp_initialize (bt_cpus m) logger_new))) (\<lambda>(lg, _).
     ebind (map_option outcome (initrd_new mem (bt_modules m) lg)) (\<lambda>(lg, rd).
     let (lg, sched) = scheduler_initialize (initrd_initialize rd lg) in
     ebind (Some (vga_static rd (bt_framebuffers m))) (\<lambda>vga.
     ebind (Some (outcome (intro_initialize rd (bt_version m) (bt_commit m) (bt_authors m) (vga, mem))))
       (\<lambda>(screen, _).
     ebind (shell_initialize (machine_ports (bt_board m)) rd d) (\<lambda>(d, serial, console).
     ebind (Some (outcome (userspace_initialize (bt_cpu m) selectors d))) (\<lambda>(d, _).
     let lg = idle lg in
     Some (Inr (rd, serial, \<lparr>k_log = lg, k_timer = timer_new, k_sched = sched, k_serial_console = console,
       k_vga_console = None, k_screen = screen, k_dev = d\<rparr>))))))))))"

section \<open>What is true after booting\<close>

lemma ebind_simps [simp]:
  "ebind None f = None" "ebind (Some (Inl p)) f = Some (Inl p)" "ebind (Some (Inr x)) f = f x"
  by (simp_all add: ebind_def)

lemma ebind_Inr: "ebind m f = Some (Inr y) \<longleftrightarrow> (\<exists>x. m = Some (Inr x) \<and> f x = Some (Inr y))"
  by (auto simp: ebind_def split: option.splits sum.splits)

lemma outcome_simps [simp]: "outcome (s, Inl p) = Inl p" "outcome (s, Inr x) = Inr (s, x)"
  by (simp_all add: outcome_def)

lemma outcome_Inr: "outcome r = Inr (s, x) \<longleftrightarrow> r = (s, Inr x)"
  by (cases r) (auto simp: outcome_def)

lemma kmain_start:
  assumes "kmain m mem d = Some (Inr (rd, serial, k))"
  shows "kernel_ok rd k k" "k_timer k = timer_new"
proof -
  have "\<exists>lg. k_sched k = snd (scheduler_initialize lg) \<and> k_vga_console k = None \<and> k_timer k = timer_new"
    using assms by (auto simp: kmain_def ebind_Inr Let_def split_beta)
  then obtain lg where k: "k_sched k = snd (scheduler_initialize lg)" "k_vga_console k = None"
      "k_timer k = timer_new" by blast
  have "sched_inv (k_sched k)"
    using sched_inv_boot [of lg "fst (scheduler_initialize lg)"] k(1) by simp
  then show "kernel_ok rd k k" "k_timer k = timer_new" using k by (simp_all add: kernel_ok_def)
qed

text \<open>
  Claim C3. In every state that interrupts and devices can bring the kernel to after a successful
  boot, the scheduler is well formed (identifiers 1 to the number of processes, the process at the
  front running, at most a quantum left), the log has kept every record since boot, the screen has kept
  its geometry, and both consoles still have the identity they read at boot.
\<close>

theorem running_kernel_invariant:
  assumes "kmain m mem d = Some (Inr (rd, serial, k0))"
    and "(kernel_step (bt_board m) rd serial)\<^sup>*\<^sup>* k0 k"
  shows "set (map unat (pids (k_sched k))) = {1..length (queue (k_sched k))} \<and> distinct (pids (k_sched k))
    \<and> p_state (hd (queue (k_sched k))) = Running \<and> remaining (k_sched k) \<le> 100
    \<and> (\<exists>new. logs (k_log k) = logs (k_log k0) @ new)
    \<and> (let v = fst (k_screen k); v0 = fst (k_screen k0) in
         (v_address v, v_width v, v_height v, v_pitch v) = (v_address v0, v_width v0, v_height v0, v_pitch v0))
    \<and> (k_serial_console k)\<lparr>buffer := []\<rparr> = (k_serial_console k0)\<lparr>buffer := []\<rparr>
    \<and> (\<forall>sh. k_vga_console k = Some sh \<longrightarrow> shell_new rd = Inr sh)"
proof -
  have ok: "kernel_ok rd k0 k" by (rule kernel_ok_steps [OF assms(2) kmain_start(1) [OF assms(1)]])
  then have "pids_numbered (k_sched k)" by (simp add: kernel_ok_def sched_inv_def)
  from pids_numbered_distinct [OF this] show ?thesis
    using ok by (auto simp: kernel_ok_def sched_inv_def extends_log_def same_screen_def same_shell_def
        distinct_map Let_def)
qed


section \<open>Booting succeeds\<close>

text \<open>
  What booting needs, component by component: a processor whose tables accept the segments, memory for
  the heap, a RAM disk whose entries can be rendered, a screen and pictures that fit, the files of
  \<^verbatim>\<open>/etc\<close>, and a serial port that passes its self-test. \<open>quiet_cpu\<close>: writing the registers of the system
  calls does not disturb the serial line.
\<close>

definition memory_ready ::
    "'t paging \<Rightarrow> u64 option \<Rightarrow> mem_entry list option \<Rightarrow> ('t \<Rightarrow> u64 \<rightharpoonup> u64) \<Rightarrow> ('t \<Rightarrow> u64 set) \<Rightarrow> ('t \<Rightarrow> u64 \<Rightarrow> bool) \<Rightarrow> bool" where
  "memory_ready api hhdm regions tr tables free \<longleftrightarrow>
     frames_align api \<and> pages_align api \<and> maps_pages api tr tables free
     \<and> (\<exists>es t. regions = Some es \<and> memory_map_ok es \<and> 4096 \<le> length (usable_pages es)
          \<and> virtual_new api hhdm = Inr t \<and> (\<forall>p\<in>set heap_pages. free t p)
          \<and> tables t \<inter> {f. usable_frame es f} = {})"

definition serial_ready ::
    "'d ports \<Rightarrow> ('d \<Rightarrow> bool) \<Rightarrow> ('d \<Rightarrow> u8 list) \<Rightarrow> ('d \<Rightarrow> u8 list) \<Rightarrow> bool" where
  "serial_ready ports ready sent inbox \<longleftrightarrow> uart ports 0x3F8 ready sent inbox
     \<and> (\<forall>d. \<exists>d'. serial_static ports d = (d', Inr (serial_new COM1)) \<and> ready d')"

definition quiet_cpu ::
    "('g, 'd) cpu \<Rightarrow> ('d \<Rightarrow> bool) \<Rightarrow> ('d \<Rightarrow> u8 list) \<Rightarrow> ('d \<Rightarrow> u8 list) \<Rightarrow> bool" where
  "quiet_cpu c ready sent inbox \<longleftrightarrow> (\<forall>d w x y z flags. ready d \<longrightarrow>
     (let d1 = fst (star_write c w x y z d); d2 = efer_write c flags d in
        ready d1 \<and> sent d1 = sent d \<and> inbox d1 = inbox d \<and> ready d2 \<and> sent d2 = sent d \<and> inbox d2 = inbox d))"

lemma cpu_boots:
  assumes "appends_in_order c used" "star_accepts c"
  obtains d' s where "gdt_initialize c d = (d', Inr s)"
    "\<And>d1. snd (userspace_initialize c s d1) = Inr ()"
    "\<And>ready sent inbox d1. quiet_cpu c ready sent inbox \<Longrightarrow> ready d1 \<Longrightarrow>
      (let d2 = fst (userspace_initialize c s d1) in ready d2 \<and> sent d2 = sent d1 \<and> inbox d2 = inbox d1)"
proof -
  let ?s = "\<lparr>kernel_code = 0x08, kernel_data = 0x10, user_code = 0x23, user_data = 0x1B, tss = 0x28\<rparr>"
  obtain d' where d': "gdt_initialize c d = (d', Inr ?s)"
    using gdt_static_selectors [OF assms(1)] by (auto simp: gdt_initialize_def Let_def)
  have star: "snd (star_write c 0x23 0x1B 0x08 0x10 d1)" for d1
    using assms(2) by (simp add: star_accepts_def)
  have user: "userspace_initialize c ?s d1 = (efer_write c {SYSTEM_CALL_EXTENSIONS, LONG_MODE_ENABLE,
      LONG_MODE_ACTIVE, NO_EXECUTE_ENABLE} (fst (star_write c 0x23 0x1B 0x08 0x10 d1)), Inr ())" for d1
    using star [of d1] by (simp add: userspace_initialize_def get_user_code_def get_user_data_def
        get_kernel_code_def get_kernel_data_def split_beta Let_def)
  show thesis
  proof (rule that [OF d'])
    show "let d2 = fst (userspace_initialize c ?s d1) in ready d2 \<and> sent d2 = sent d1 \<and> inbox d2 = inbox d1"
      if "quiet_cpu c ready sent inbox" "ready d1" for ready sent inbox d1
      using that by (simp add: user quiet_cpu_def Let_def)
  qed (simp add: user)
qed

lemma memory_boots:
  assumes "memory_ready api hhdm regions tr tables free"
  obtains s where "memory_initialize api hhdm regions = (s, Inr (HEAP_START, HEAP_SIZE))"
  using assms memory_initialize_maps [of api tr tables free] unfolding memory_ready_def by blast

lemma shell_boots:
  assumes "serial_ready ports ready sent inbox" "shell_new rd = Inr sh"
    and "file_text rd (lit ''initrd/etc/motd'') = Inr motd"
  obtains d1 d2 where "serial_static ports d = (d1, Inr (serial_new COM1))"
    "shell_initialize ports rd d = Some (Inr (d2, serial_new COM1, sh))"
    "ready d2" "sent d2 = sent d1 @ crlf_bytes (motd @ [10] @ prompt sh)" "inbox d2 = inbox d1"
proof -
  let ?s = "serial_new COM1"
  obtain d1 where d1: "serial_static ports d = (d1, Inr ?s)" "ready d1"
    using assms(1) by (auto simp: serial_ready_def)
  have line: "uart ports (s_address ?s) ready sent inbox" "s_address ?s \<le> 0xFFFA"
    using assms(1) by (simp_all add: serial_ready_def com1)
  note writes = serial_write_str_sends_bytes [OF line]
  have prompt: "sends ready sent inbox d' (serial_write_str ports ?s (prompt sh) d') (crlf_bytes (prompt sh)) (inbox d1) ()"
    if "ready d'" "inbox d' = inbox d1" for d'
    using writes [OF that(1)] that(2) by metis
  have "sends ready sent inbox d1 (display (serial_write_str ports ?s) rd sh d1)
      (crlf_bytes (writeln motd) @ crlf_bytes (prompt sh)) (inbox d1) ()"
    unfolding display_def assms(3) obind_simps
    by (rule sends_bind [OF writes [OF d1(2)]]) (rule prompt)
  then obtain d2 where "display (serial_write_str ports ?s) rd sh d1 = Some (d2, Inr ())" "ready d2"
      "sent d2 = sent d1 @ crlf_bytes (motd @ [10] @ prompt sh)" "inbox d2 = inbox d1"
    by (auto simp: sends_def writeln_def)
  then show thesis using d1(1) assms(2) by (intro that [of d1 d2]) (simp_all add: shell_initialize_def)
qed

lemma disk_boots:
  assumes "archive_at mem a fs" "\<forall>f\<in>set fs. is_ok (fmt_file f)"
  obtains lg' where "initrd_new mem (Some (a # ms)) lg = Some (lg', Inr \<lparr>files = fs\<rparr>)"
    "logs lg' = logs lg @ map trace_entry fs"
  using load_all_ok [OF assms(2), of "[]" lg "[]"] initrd_new_archive_at [OF assms(1), of ms lg] by auto

text \<open>What the log holds at the end.\<close>

definition boot_log :: "nat \<Rightarrow> tar_file list \<Rightarrow> log list" where
  "boot_log cores fs =
     \<lparr>log_level = level.Debug, log_message = lit ''Detected that the processor has '' @ fmt_dec cores @ lit '' core(s).''\<rparr>
     # map trace_entry fs
     @ [\<lparr>log_level = level.Debug, log_message = lit ''Loaded '' @ fmt_dec (length fs) @ lit '' files from the initial ramdisk.''\<rparr>,
        \<lparr>log_level = level.Debug, log_message = lit ''Created process scheduler with a quantum of 100 ticks.''\<rparr>,
        \<lparr>log_level = Info, log_message = lit ''The operating system has been successfully initialized.''\<rparr>]"

lemma kmain_runs:
  assumes cpu: "appends_in_order (bt_cpu m) used" "star_accepts (bt_cpu m)" "quiet_cpu (bt_cpu m) ready sent inbox"
    and memory: "memory_ready (bt_paging m) (bt_hhdm m) (bt_memory_map m) tr tables free"
    and smp: "bt_cpus m = Some cores"
    and disk: "bt_modules m = Some (a # ms)" "archive_at mem a fs" "\<forall>f\<in>set fs. is_ok (fmt_file f)"
    and screen: "vga_static \<lparr>files = fs\<rparr> (bt_framebuffers m) = Inr v"
      "intro_fits \<lparr>files = fs\<rparr> (bt_version m) (bt_commit m) (bt_authors m) v W H"
    and shell: "shell_new \<lparr>files = fs\<rparr> = Inr sh" "file_text \<lparr>files = fs\<rparr> (lit ''initrd/etc/motd'') = Inr motd"
    and serial: "serial_ready (machine_ports (bt_board m)) ready sent inbox"
  shows "\<exists>k d0 d1. kmain m mem d = Some (Inr (\<lparr>files = fs\<rparr>, serial_new COM1, k))
    \<and> logs (k_log k) = boot_log cores fs
    \<and> k_sched k = \<lparr>queue = [process_new 1 (lit ''kernel'') Running], quantum = 100, remaining = 100\<rparr>
    \<and> k_timer k = timer_new \<and> k_serial_console k = sh \<and> k_vga_console k = None
    \<and> (\<forall>p. \<not> framebuffer_byte v p \<longrightarrow> snd (k_screen k) p = mem p)
    \<and> serial_static (machine_ports (bt_board m)) d0 = (d1, Inr (serial_new COM1))
    \<and> ready (k_dev k) \<and> sent (k_dev k) = sent d1 @ crlf_bytes (motd @ [10] @ prompt sh)
    \<and> inbox (k_dev k) = inbox d1"
proof -
  let ?rd = "\<lparr>files = fs\<rparr>"
  obtain dg s where g: "gdt_initialize (bt_cpu m) d = (dg, Inr s)"
    "\<And>d1. snd (userspace_initialize (bt_cpu m) s d1) = Inr ()"
    "\<And>ready sent inbox d1. quiet_cpu (bt_cpu m) ready sent inbox \<Longrightarrow> ready d1 \<Longrightarrow>
      (let d2 = fst (userspace_initialize (bt_cpu m) s d1) in ready d2 \<and> sent d2 = sent d1 \<and> inbox d2 = inbox d1)"
    by (rule cpu_boots [OF cpu(1,2), of d], rule that, assumption+)
  obtain pm where pm: "memory_initialize (bt_paging m) (bt_hhdm m) (bt_memory_map m) = (pm, Inr (HEAP_START, HEAP_SIZE))"
    by (rule memory_boots [OF memory])
  obtain table di where i: "interrupts_initialize (bt_board m) dg = (table, di)" by fastforce
  let ?lg0 = "debug logger_new (lit ''Detected that the processor has '' @ fmt_dec cores @ lit '' core(s).'')"
  obtain lg1 where lg1: "initrd_new mem (Some (a # ms)) ?lg0 = Some (lg1, Inr ?rd)"
      "logs lg1 = logs ?lg0 @ map trace_entry fs"
    by (rule disk_boots [OF disk(2,3)])
  obtain m1 where m1: "intro_initialize ?rd (bt_version m) (bt_commit m) (bt_authors m) (v, mem)
      = ((set_cursor v (W div 2 + 88) (H - H div 4) (color_value White) (color_value Black), m1), Inr ())"
      "\<forall>p. \<not> framebuffer_byte v p \<longrightarrow> m1 p = mem p"
    using intro_screen_drawn [OF screen(2), of mem] by blast
  obtain ds d2 where ds: "serial_static (machine_ports (bt_board m)) di = (ds, Inr (serial_new COM1))"
    "shell_initialize (machine_ports (bt_board m)) ?rd di = Some (Inr (d2, serial_new COM1, sh))"
    "ready d2" "sent d2 = sent ds @ crlf_bytes (motd @ [10] @ prompt sh)" "inbox d2 = inbox ds"
    by (rule shell_boots [OF serial shell])
  obtain d3 where d3: "userspace_initialize (bt_cpu m) s d2 = (d3, Inr ())" "ready d3" "sent d3 = sent d2"
      "inbox d3 = inbox d2"
    using g(2) [of d2] g(3) [OF cpu(3) ds(3)] by (cases "userspace_initialize (bt_cpu m) s d2") (simp add: Let_def)
  show ?thesis
  proof (intro exI conjI)
    show "kmain m mem d = Some (Inr (?rd, serial_new COM1,
      \<lparr>k_log = info (fst (scheduler_initialize (initrd_initialize ?rd lg1)))
          (lit ''The operating system has been successfully initialized.''),
       k_timer = timer_new, k_sched = snd (scheduler_initialize (initrd_initialize ?rd lg1)),
       k_serial_console = sh, k_vga_console = None,
       k_screen = (set_cursor v (W div 2 + 88) (H - H div 4) (color_value White) (color_value Black), m1),
       k_dev = d3\<rparr>))"
      by (simp add: kmain_def idle_def g(1) pm i smp smp_initialize_def disk(1) lg1(1) screen(1) m1(1) ds(2) d3(1)
          split_beta Let_def del: lit_simps)
    show "serial_static (machine_ports (bt_board m)) di = (ds, Inr (serial_new COM1))" by (rule ds(1))
  qed (use m1(2) d3 ds lg1(2) in \<open>simp_all add: boot_log_def scheduler_initialize_def scheduler_new_def
      scheduler_add_def initrd_initialize_def get_files_def logger_macro_defs logger_log_def logger_new_def
      fmt_dec_def radix_digits.simps digit_char_def\<close>)
qed

text \<open>
  Claim C4. Booting: when every component finds what it needs, \<^verbatim>\<open>kmain\<close> gets through all of its initialisers
  without a panic and reaches the idle loop. The RAM disk holds the files of the archive; the log holds
  exactly one record for the processors, one for each file, one for their number, one for the scheduler
  and the final one; the scheduler holds the kernel's process alone; the message of the day and the prompt are the only
  text that went out on the serial line, which is ready for input; and no memory outside the
  framebuffer has been written by the drawing.
\<close>

theorem kmain_boots:
  assumes "appends_in_order (bt_cpu m) used" "star_accepts (bt_cpu m)" "quiet_cpu (bt_cpu m) ready sent inbox"
    and "memory_ready (bt_paging m) (bt_hhdm m) (bt_memory_map m) tr tables free"
    and "bt_cpus m = Some cores"
    and "bt_modules m = Some (a # ms)" "archive_at mem a fs" "\<forall>f\<in>set fs. is_ok (fmt_file f)"
    and "vga_static \<lparr>files = fs\<rparr> (bt_framebuffers m) = Inr v"
    and "intro_fits \<lparr>files = fs\<rparr> (bt_version m) (bt_commit m) (bt_authors m) v W H"
    and "shell_new \<lparr>files = fs\<rparr> = Inr sh" "file_text \<lparr>files = fs\<rparr> (lit ''initrd/etc/motd'') = Inr motd"
    and "serial_ready (machine_ports (bt_board m)) ready sent inbox"
  shows "\<exists>k d0 d1. kmain m mem d = Some (Inr (\<lparr>files = fs\<rparr>, serial_new COM1, k))
    \<and> logs (k_log k) = boot_log cores fs
    \<and> k_sched k = \<lparr>queue = [process_new 1 (lit ''kernel'') Running], quantum = 100, remaining = 100\<rparr>
    \<and> k_timer k = timer_new \<and> k_serial_console k = sh \<and> k_vga_console k = None
    \<and> (\<forall>p. \<not> framebuffer_byte v p \<longrightarrow> snd (k_screen k) p = mem p)
    \<and> serial_static (machine_ports (bt_board m)) d0 = (d1, Inr (serial_new COM1))
    \<and> ready (k_dev k) \<and> sent (k_dev k) = sent d1 @ crlf_bytes (motd @ [10] @ prompt sh)
    \<and> inbox (k_dev k) = inbox d1"
  by (rule kmain_runs [OF assms])

section \<open>A kernel that boots\<close>

text \<open>The consoles after booting: the serial one is configured, and nothing has been typed.\<close>

lemma shell_new_buffer: "shell_new rd = Inr sh \<Longrightarrow> buffer sh = []"
  by (auto simp: shell_new_def Let_def split_beta simp del: lit_simps)

lemma kmain_console:
  assumes "kmain m mem d = Some (Inr (rd, s, k))"
  shows "s = serial_new COM1" "buffer (k_serial_console k) = []"
proof -
  obtain d0 d1 d2 sh where "serial_static (machine_ports (bt_board m)) d0 = (d1, Inr s)"
      "shell_new rd = Inr sh" "k_serial_console k = sh"
    using assms by (auto simp: kmain_def shell_initialize_def ebind_Inr outcome_Inr Let_def split_beta)
  then show "s = serial_new COM1" "buffer (k_serial_console k) = []"
    using shell_new_buffer by (auto simp: serial_static_def Let_def sbind_Inr_iff)
qed

text \<open>
  Claim C9. From boot to an answer: whenever the kernel has booted, and somebody then types a line
  whose command is \<^verbatim>\<open>time\<close> (with whatever corrections by backspace) while the timer ticks \<open>n\<close> times, in any
  interleaving, every handler returns, the line is echoed, and the reply is \<open>n\<close> modulo 2 to the 32, followed by the prompt.
\<close>

theorem time_after_boot:
  assumes "kmain m mem d = Some (Inr (rd, s, k))"
    and "uart (machine_ports (bt_board m)) 0x3F8 ready sent inbox" "quiet_board (bt_board m) ready sent inbox"
    and "ready d'" "inbox d' = keys @ 13 # rest" "13 \<notin> set keys"
    and "command_word (edit_line [] keys) = lit ''time''"
    and "count_list as SerialByte = length keys" "count_list as TimerTick = n"
  shows "\<exists>k1 k2. run_arrivals (bt_board m) rd s as (k\<lparr>k_dev := d'\<rparr>) = Some (k1, Inr ())
    \<and> run_arrivals (bt_board m) rd s [SerialByte] k1 = Some (k2, Inr ())
    \<and> k_serial_console k2 = k_serial_console k \<and> inbox (k_dev k2) = rest
    \<and> sent (k_dev k2) = sent d' @ echo_bytes [] keys
        @ crlf_bytes (writeln NORMAL @ writeln (fmt_dec (n mod 2 ^ 32)) @ prompt (k_serial_console k))"
proof -
  let ?b = "bt_board m" and ?k = "k\<lparr>k_dev := d'\<rparr>"
  have s: "uart (machine_ports ?b) (s_address s) ready sent inbox" "s_address s \<le> 0xFFFA"
    using assms(2) kmain_console(1) [OF assms(1)] by (simp_all add: com1)
  have k: "ready (k_dev ?k)" "inbox (k_dev ?k) = keys @ 13 # rest" "buffer (k_serial_console ?k) = []"
    using assms(4,5) kmain_console(2) [OF assms(1)] by simp_all
  obtain k1 where k1: "run_arrivals ?b rd s as ?k = Some (k1, Inr ())" "k_timer k1 = (increment ^^ n) (k_timer ?k)"
      "sent (k_dev k1) = sent (k_dev ?k) @ echo_bytes [] keys"
      "\<And>sched reply. command_reply rd (k_timer k1) (k_log k1) (k_serial_console ?k) (edit_line [] keys) (k_sched k1)
          = Inr (sched, reply) \<Longrightarrow>
        (\<exists>d. run_arrivals ?b rd s [SerialByte] k1
            = Some (k1\<lparr>k_serial_console := k_serial_console ?k, k_sched := sched, k_dev := d\<rparr>, Inr ())
          \<and> ready d \<and> inbox d = rest
          \<and> sent d = sent (k_dev k1) @ crlf_bytes (writeln NORMAL @ reply @ prompt (k_serial_console ?k)))"
    using typing_runs [OF s assms(3) k(1,2) assms(6) k(3) assms(8,9)] by blast
  have "k_timer k1 = (increment ^^ n) timer_new" using k1(2) kmain_start(2) [OF assms(1)] by simp
  then have "command_reply rd (k_timer k1) (k_log k1) (k_serial_console ?k) (edit_line [] keys) (k_sched k1)
      = Inr (k_sched k1, writeln (fmt_dec (n mod 2 ^ 32)))"
    using assms(7) by (simp add: command_reply_def get_elapsed_ticks)
  from k1(4) [OF this] k1(1,3) show ?thesis by fastforce
qed

definition boot_machine :: "((u64 \<rightharpoonup> u64) \<times> u64 set, nat, uart16550) machine" where
  "boot_machine = \<lparr>bt_cpu = plain_cpu, bt_paging = flat_api, bt_board = boot_board,
     bt_hhdm = Some 0, bt_memory_map = Some flat_map, bt_cpus = Some 4, bt_modules = Some [0x200000],
     bt_framebuffers = Some [boot_framebuffer], bt_version = lit ''0.1.0'', bt_commit = lit ''c0ffee1'',
     bt_authors = lit ''Theomund''\<rparr>"

lemma boot_machine_memory:
  "memory_ready (bt_paging boot_machine) (bt_hhdm boot_machine) (bt_memory_map boot_machine) fst snd
     (\<lambda>t p. fst t p = None)"
proof -
  have "virtual_new flat_api (Some 0) = Inr (Map.empty, {0x1000})"
    by (simp add: virtual_new_def flat_api_def flat_base_def)
  moreover have "4096 \<le> length (usable_pages flat_map)" by (simp add: flat_map_def entry_pages_def)
  moreover have "snd (Map.empty, {0x1000}) \<inter> {f. usable_frame flat_map f} = {}" by (simp add: flat_usable)
  ultimately show ?thesis
    using flat_frames_align flat_pages_align flat_maps_pages flat_map_ok
    by (auto simp: memory_ready_def boot_machine_def)
qed

lemma boot_machine_ready:
  "appends_in_order (bt_cpu boot_machine) id" "star_accepts (bt_cpu boot_machine)"
  "quiet_cpu (bt_cpu boot_machine) operating u_line u_waiting"
  "bt_cpus boot_machine = Some 4" "bt_modules boot_machine = Some [0x200000]"
  "serial_ready (machine_ports (bt_board boot_machine)) operating u_line u_waiting"
  using plain_cpu_ok boot_ports_uart boot_serial_static
  by (fastforce simp: boot_machine_def quiet_cpu_def plain_cpu_def serial_ready_def boot_board_def)+

lemma boot_files_ok: "\<forall>f\<in>set (files boot_rd). is_ok (fmt_file f)"
  by (auto simp: boot_rd_def boot_file_ok)

lemma boot_rd_files: "\<lparr>files = files boot_rd\<rparr> = boot_rd"
  by simp

lemma boot_machine_screen:
  obtains v where "vga_static boot_rd (bt_framebuffers boot_machine) = Inr v"
    "intro_fits boot_rd (bt_version boot_machine) (bt_commit boot_machine) (bt_authors boot_machine) v 320 64"
  using boot_screen by (auto simp: boot_machine_def)

lemma kmain_boots_witness:
  "\<exists>k. kmain boot_machine boot_memory boot_uart = Some (Inr (boot_rd, serial_new COM1, k))
    \<and> logs (k_log k) = boot_log 4 (files boot_rd)"
proof -
  obtain v where v: "vga_static boot_rd (bt_framebuffers boot_machine) = Inr v"
    "intro_fits boot_rd (bt_version boot_machine) (bt_commit boot_machine) (bt_authors boot_machine) v 320 64"
    by (rule boot_machine_screen)
  from kmain_boots [of boot_machine id operating u_line u_waiting fst snd "\<lambda>t p. fst t p = None" 4 "0x200000" "[]"
      boot_memory "files boot_rd" v 320 64 root_shell "lit ''Welcome.'' @ [10]" boot_uart, unfolded boot_rd_files,
      OF boot_machine_ready(1-3) boot_machine_memory boot_machine_ready(4,5) boot_archive_at boot_files_ok v
      boot_shell boot_motd boot_machine_ready(6)]
  show ?thesis by blast
qed

lemma boot_machine_runs: "\<exists>k. kmain boot_machine boot_memory boot_uart = Some (Inr (boot_rd, serial_new COM1, k))"
proof -
  obtain v where v: "vga_static boot_rd (bt_framebuffers boot_machine) = Inr v"
    "intro_fits boot_rd (bt_version boot_machine) (bt_commit boot_machine) (bt_authors boot_machine) v 320 64"
    by (rule boot_machine_screen)
  from kmain_runs [of boot_machine id operating u_line u_waiting fst snd "\<lambda>t p. fst t p = None" 4 "0x200000" "[]"
      boot_memory "files boot_rd" v 320 64 root_shell "lit ''Welcome.'' @ [10]" boot_uart, unfolded boot_rd_files,
      OF boot_machine_ready(1-3) boot_machine_memory boot_machine_ready(4,5) boot_archive_at boot_files_ok v
      boot_shell boot_motd boot_machine_ready(6)]
  show ?thesis by blast
qed

text \<open>\<^verbatim>\<open>time\<close>, typed after the boot while two ticks pass, replies 2.\<close>

lemma time_after_boot_witness:
  "\<exists>k d k1 k2. kmain boot_machine boot_memory boot_uart = Some (Inr (boot_rd, serial_new COM1, k))
    \<and> operating d \<and> u_waiting d = [116, 105, 109, 101, 13]
    \<and> run_arrivals boot_board boot_rd (serial_new COM1)
        [SerialByte, TimerTick, SerialByte, SerialByte, TimerTick, SerialByte] (k\<lparr>k_dev := d\<rparr>) = Some (k1, Inr ())
    \<and> run_arrivals boot_board boot_rd (serial_new COM1) [SerialByte] k1 = Some (k2, Inr ())
    \<and> u_line (k_dev k2) = u_line d @ [116, 105, 109, 101]
        @ crlf_bytes (writeln NORMAL @ writeln (lit ''2'') @ prompt (k_serial_console k))"
proof -
  let ?keys = "[116, 105, 109, 101] :: u8 list"
  let ?as = "[SerialByte, TimerTick, SerialByte, SerialByte, TimerTick, SerialByte]"
  let ?d = "boot_uart\<lparr>u_waiting := ?keys @ 13 # []\<rparr>"
  obtain k where k: "kmain boot_machine boot_memory boot_uart = Some (Inr (boot_rd, serial_new COM1, k))"
    using boot_machine_runs by blast
  have line: "uart (machine_ports (bt_board boot_machine)) 0x3F8 operating u_line u_waiting"
      "quiet_board (bt_board boot_machine) operating u_line u_waiting"
    using boot_ports_uart by (simp_all add: boot_machine_def boot_board_def quiet_board_def)
  have typed: "operating ?d" "u_waiting ?d = ?keys @ 13 # []" "13 \<notin> set ?keys"
      "command_word (edit_line [] ?keys) = lit ''time''"
      "count_list ?as SerialByte = length ?keys" "count_list ?as TimerTick = 2"
    by (simp_all add: operating_def boot_uart_def command_word_def is_whitespace_def)
  have "fmt_dec (2 mod 2 ^ 32) = lit ''2''" by (simp add: fmt_dec_def radix_digits.simps digit_char_def)
  moreover have "echo_bytes [] ?keys = ?keys" "bt_board boot_machine = boot_board" by (simp_all add: boot_machine_def)
  ultimately show ?thesis
    using time_after_boot [OF k line typed] k typed(1,2) by (metis append_Cons append_Nil)
qed

text \<open>One timer interrupt after the boot.\<close>

lemma running_kernel_invariant_witness:
  "\<exists>k0 k. kmain boot_machine boot_memory boot_uart = Some (Inr (boot_rd, serial_new COM1, k0))
    \<and> timer_handler boot_board k0 = (k, Inr ()) \<and> distinct (pids (k_sched k))"
proof -
  obtain k0 where k0: "kmain boot_machine boot_memory boot_uart = Some (Inr (boot_rd, serial_new COM1, k0))"
    using boot_machine_runs by blast
  obtain k where k: "timer_handler boot_board k0 = (k, Inr ())" using timer_handler_eq by blast
  have "run_handler boot_board boot_rd (serial_new COM1) [] 0 TimerHandler k0 = Some (k, Inr Returns)"
    using k by (simp add: run_handler_def returning_def)
  moreover have "IDT (Index 32) = Some TimerHandler" by (simp add: IDT_Index)
  ultimately have "kernel_step boot_board boot_rd (serial_new COM1) k0 k"
    by (rule kernel_step.interrupt [rotated])
  moreover have "bt_board boot_machine = boot_board" by (simp add: boot_machine_def)
  ultimately show ?thesis
    using running_kernel_invariant [OF k0, of k] k0 k by (metis r_into_rtranclp)
qed

end
