(* ===== verification/Console.thy ===== *)
theory Console
  imports Sessions
begin

text \<open>
  The serial console of the running kernel as a state machine of its own: what ticks of the timer and
  typed bytes do, with the device, the handlers and the screen abstracted away. The kernel's
  handlers (\<^verbatim>\<open>interrupts.rs\<close>, \<^verbatim>\<open>serial.rs\<close>, \<^verbatim>\<open>shell.rs\<close>, \<^verbatim>\<open>timer.rs\<close>, \<^verbatim>\<open>scheduler.rs\<close>) implement it
  exactly, panics included.
\<close>

section \<open>The abstract console\<close>

record console =
  c_timer :: timer
  c_log :: logger
  c_sched :: scheduler
  c_line :: "rchar list"
  c_sent :: "u8 list"

datatype input = Tick | Typed u8

definition say :: "rstr \<Rightarrow> console \<Rightarrow> console" where
  "say t c = c\<lparr>c_sent := c_sent c @ crlf_bytes t\<rparr>"

text \<open>One input, on a console whose shell has the configuration \<open>sh\<close>.\<close>

definition console_step :: "initrd \<Rightarrow> shell \<Rightarrow> input \<Rightarrow> console \<Rightarrow> console \<times> unit result" where
  "console_step rd sh i c =
     (case i of
        Tick \<Rightarrow>
          (case tick (c_sched c) (c_log c) of
             (lg, Inl p) \<Rightarrow> (c\<lparr>c_timer := increment (c_timer c), c_log := lg\<rparr>, Inl p)
           | (lg, Inr sched) \<Rightarrow> (c\<lparr>c_timer := increment (c_timer c), c_log := lg, c_sched := sched\<rparr>, Inr ()))
      | Typed key \<Rightarrow>
          if key = 13 then
            (case command_reply rd (c_timer c) (c_log c) sh (c_line c) (c_sched c) of
               Inl p \<Rightarrow> (say (writeln NORMAL) c, Inl p)
             | Inr (sched, reply) \<Rightarrow>
                 (say (writeln NORMAL @ reply @ prompt sh) (c\<lparr>c_line := [], c_sched := sched\<rparr>), Inr ()))
          else
            (c\<lparr>c_line := edit_line (c_line c) [key], c_sent := c_sent c @ echo_bytes (c_line c) [key]\<rparr>, Inr ()))"

text \<open>The console that a state of the kernel shows, and the interrupt that delivers an input.\<close>

definition view :: "('d \<Rightarrow> u8 list) \<Rightarrow> 'd kernel \<Rightarrow> console" where
  "view sent k = \<lparr>c_timer = k_timer k, c_log = k_log k, c_sched = k_sched k,
     c_line = buffer (k_serial_console k), c_sent = sent (k_dev k)\<rparr>"

definition arrival_of :: "input \<Rightarrow> arrival" where
  "arrival_of i = (case i of Tick \<Rightarrow> TimerTick | Typed _ \<Rightarrow> SerialByte)"

fun typed_bytes :: "input list \<Rightarrow> u8 list" where
  "typed_bytes [] = []"
| "typed_bytes (Tick # is) = typed_bytes is"
| "typed_bytes (Typed key # is) = key # typed_bytes is"

section \<open>One interrupt\<close>

text \<open>What the console leaves alone.\<close>

definition beside_console :: "'d kernel \<Rightarrow> 'd kernel \<Rightarrow> bool" where
  "beside_console k k' \<longleftrightarrow> k_screen k' = k_screen k \<and> k_vga_console k' = k_vga_console k
     \<and> same_shell (k_serial_console k) (k_serial_console k')"

lemma beside_console_refl [simp]: "beside_console k k"
  by (simp add: beside_console_def same_shell_def)

lemma beside_console_trans: "beside_console a b \<Longrightarrow> beside_console b c \<Longrightarrow> beside_console a c"
  by (simp add: beside_console_def same_shell_def)

text \<open>Two shells that differ in what was typed only reply the same, with the same prompt.\<close>

lemma same_shell_reply:
  assumes "same_shell sh sh'"
  shows "command_reply rd tm lg sh' = command_reply rd tm lg sh" "prompt sh' = prompt sh"
proof -
  have eq: "sh'\<lparr>buffer := []\<rparr> = sh\<lparr>buffer := []\<rparr>" using assms by (simp add: same_shell_def)
  have "command_reply rd tm lg (sh'\<lparr>buffer := []\<rparr>) = command_reply rd tm lg (sh\<lparr>buffer := []\<rparr>)"
    by (simp only: eq)
  then show "command_reply rd tm lg sh' = command_reply rd tm lg sh"
    by (intro ext) (metis command_reply_buffer)
  have "prompt (sh'\<lparr>buffer := []\<rparr>) = prompt (sh\<lparr>buffer := []\<rparr>)" by (simp only: eq)
  then show "prompt sh' = prompt sh" by simp
qed

text \<open>The carriage return when the command panics: only the reset sequence has gone out.\<close>

lemma interpret_enter_panics:
  assumes "line_ok io s ready sent inbox" "ready (st_dev st)" "inbox (st_dev st) = 13 # rest"
    and "command_reply rd tm lg (st_shell st) (buffer (st_shell st)) (st_sched st) = Inl p"
  obtains d' where "interpret_byte rd tm lg io s st = Some (st\<lparr>st_dev := d'\<rparr>, Inl p)"
    "sent d' = sent (st_dev st) @ crlf_bytes (writeln NORMAL)"
proof -
  let ?line = "buffer (st_shell st)"
  obtain d where d: "lift_dev (serial_read io s) st = Some (st\<lparr>st_dev := d\<rparr>, Inr 13)" "ready d"
      "sent d = sent (st_dev st)"
    using says_read [OF assms(1-3)] by (auto simp: says_def)
  then obtain d' where d': "put io s (writeln NORMAL) (st\<lparr>st_dev := d\<rparr>) = Some (st\<lparr>st_dev := d'\<rparr>, Inr ())"
      "sent d' = sent (st_dev st) @ crlf_bytes (writeln NORMAL)"
    using says_put [OF assms(1), of "st\<lparr>st_dev := d\<rparr>" "writeln NORMAL"] by (auto simp: says_def)
  have "run_command rd tm lg io s (command_word ?line) (split_once_whitespace ?line) (st\<lparr>st_dev := d'\<rparr>)
      = Some (st\<lparr>st_dev := d'\<rparr>, Inl p)"
    by (rule run_command_panics) (simp add: assms(4))
  then have "interpret_byte rd tm lg io s st = Some (st\<lparr>st_dev := d'\<rparr>, Inl p)"
    using d(1) d'(1)
    by (simp add: interpret_byte_def interpret_character_def interpret_line_def Let_def split_line(1))
  with d'(2) show thesis by (intro that)
qed

lemma serial_handler_enter_panics:
  assumes "line_ok (machine_ports b) s ready sent inbox" "ready (k_dev k)" "inbox (k_dev k) = 13 # rest"
    and "command_reply rd (k_timer k) (k_log k) (k_serial_console k) (buffer (k_serial_console k)) (k_sched k) = Inl p"
  obtains d' where "serial_handler b rd s k = Some (k\<lparr>k_dev := d'\<rparr>, Inl p)"
    "sent d' = sent (k_dev k) @ crlf_bytes (writeln NORMAL)"
proof -
  obtain d' where "interpret_byte rd (k_timer k) (k_log k) (machine_ports b) s (console_part k)
      = Some ((console_part k)\<lparr>st_dev := d'\<rparr>, Inl p)" "sent d' = sent (k_dev k) @ crlf_bytes (writeln NORMAL)"
    by (rule interpret_enter_panics [OF assms(1), of "console_part k" rest rd "k_timer k" "k_log k" p])
      (use assms(2-4) in \<open>simp_all add: console_part_def\<close>)
  moreover have "with_console k ((console_part k)\<lparr>st_dev := d'\<rparr>) = k\<lparr>k_dev := d'\<rparr>"
    by (cases k) (simp add: with_console_def console_part_def)
  ultimately show thesis by (intro that) (simp_all add: serial_handler_def)
qed

text \<open>Each interrupt does to the kernel what its input does to the console.\<close>

definition simulates ::
    "('d \<Rightarrow> bool) \<Rightarrow> ('d \<Rightarrow> u8 list) \<Rightarrow> ('d \<Rightarrow> u8 list) \<Rightarrow> u8 list \<Rightarrow> 'd kernel
      \<Rightarrow> ('d kernel \<times> unit result) option \<Rightarrow> console \<times> unit result \<Rightarrow> bool" where
  "simulates ready sent inbox rest k out c \<longleftrightarrow>
     (\<exists>k'. out = Some (k', snd c) \<and> view sent k' = fst c \<and> beside_console k k'
        \<and> (snd c = Inr () \<longrightarrow> ready (k_dev k') \<and> inbox (k_dev k') = rest))"

lemma simulates_step:
  assumes "quiet_board b ready sent inbox" "line_ok (machine_ports b) s ready sent inbox"
    and "ready (k_dev k)" "inbox (k_dev k) = typed_bytes [i] @ rest" "same_shell sh (k_serial_console k)"
  shows "simulates ready sent inbox rest k
    (case arrival_of i of TimerTick \<Rightarrow> Some (timer_handler b k) | SerialByte \<Rightarrow> serial_handler b rd s k)
    (console_step rd sh i (view sent k))"
proof (cases i)
  case Tick
  obtain lg where "tick (k_sched k) (k_log k) = (lg, Inr (after_tick (k_sched k)))"
    using tick_after_tick by blast
  then show ?thesis
    using Tick quiet_boardD [OF assms(1,3)] assms(4)
    by (simp add: simulates_def arrival_of_def timer_handler_def console_step_def view_def end_interrupt_def
        beside_console_def same_shell_def Let_def)
next
  case (Typed key)
  note shell = same_shell_reply [OF assms(5)]
  show ?thesis
  proof (cases "key = 13")
    case False
    obtain d' where "serial_handler b rd s k = Some (k\<lparr>k_serial_console := (k_serial_console k)
          \<lparr>buffer := edit_line (buffer (k_serial_console k)) [key]\<rparr>, k_dev := d'\<rparr>, Inr ())"
        "ready d'" "inbox d' = rest" "sent d' = sent (k_dev k) @ echo_bytes (buffer (k_serial_console k)) [key]"
      using serial_handler_key [OF assms(1-3), of key rest rd] assms(4) Typed False by auto
    then show ?thesis
      using Typed False
      by (simp add: simulates_def arrival_of_def console_step_def view_def beside_console_def same_shell_def
          del: edit_line.simps echo_bytes.simps)
  next
    case True
    have bytes: "inbox (k_dev k) = 13 # rest" using assms(4) Typed True by simp
    let ?reply = "command_reply rd (k_timer k) (k_log k) (k_serial_console k)
      (buffer (k_serial_console k)) (k_sched k)"
    show ?thesis
    proof (cases ?reply)
      case (Inl p)
      obtain d' where "serial_handler b rd s k = Some (k\<lparr>k_dev := d'\<rparr>, Inl p)"
          "sent d' = sent (k_dev k) @ crlf_bytes (writeln NORMAL)"
        by (rule serial_handler_enter_panics [OF assms(2,3) bytes Inl])
      then show ?thesis
        using Typed True Inl shell
        by (simp add: simulates_def arrival_of_def console_step_def view_def say_def beside_console_def same_shell_def)
    next
      case (Inr answer)
      obtain sched reply where answer: "answer = (sched, reply)" by (cases answer)
      obtain d' where "serial_handler b rd s k = Some (k\<lparr>k_serial_console := (k_serial_console k)\<lparr>buffer := []\<rparr>,
            k_sched := sched, k_dev := d'\<rparr>, Inr ())" "ready d'" "inbox d' = rest"
          "sent d' = sent (k_dev k) @ crlf_bytes (writeln NORMAL @ reply @ prompt (k_serial_console k))"
        using serial_handler_enter [OF assms(1-3) bytes] Inr answer by blast
      then show ?thesis
        using Typed True Inr answer shell
        by (simp add: simulates_def arrival_of_def console_step_def view_def say_def beside_console_def same_shell_def)
    qed
  qed
qed

lemma simulates_bind:
  assumes "simulates ready sent inbox rest k out c"
    and "\<And>k'. beside_console k k' \<Longrightarrow> ready (k_dev k') \<Longrightarrow> inbox (k_dev k') = rest \<Longrightarrow> view sent k' = fst c \<Longrightarrow>
      simulates ready sent inbox rest' k' (f k' ()) (g (fst c) ())"
  shows "simulates ready sent inbox rest' k (obind out f) (sbind c g)"
proof -
  obtain k' where k': "out = Some (k', snd c)" "view sent k' = fst c" "beside_console k k'"
      "snd c = Inr () \<longrightarrow> ready (k_dev k') \<and> inbox (k_dev k') = rest"
    using assms(1) by (auto simp: simulates_def)
  show ?thesis
  proof (cases "snd c")
    case (Inl p)
    then show ?thesis using k' by (cases c) (simp add: simulates_def)
  next
    case (Inr x)
    then have "simulates ready sent inbox rest' k' (f k' ()) (g (fst c) ())" using k' by (intro assms(2)) simp_all
    then show ?thesis
      using k' Inr beside_console_trans [OF k'(3)] by (cases c) (auto simp: simulates_def)
  qed
qed

section \<open>All interrupts\<close>

lemma typed_bytes_Cons: "typed_bytes (i # is) = typed_bytes [i] @ typed_bytes is"
  by (cases i) simp_all

lemma runs_simulate:
  assumes "quiet_board b ready sent inbox" "line_ok (machine_ports b) s ready sent inbox"
  shows "ready (k_dev k) \<Longrightarrow> inbox (k_dev k) = typed_bytes is @ rest \<Longrightarrow> same_shell sh (k_serial_console k) \<Longrightarrow>
    simulates ready sent inbox rest k (run_arrivals b rd s (map arrival_of is) k)
      (each (console_step rd sh) is (view sent k))"
proof (induction "is" arbitrary: k)
  case Nil
  then show ?case by (simp add: simulates_def)
next
  case (Cons i "is")
  have "inbox (k_dev k) = typed_bytes [i] @ typed_bytes is @ rest"
    using Cons.prems(2) typed_bytes_Cons [of i "is"] by simp
  note first = simulates_step [OF assms Cons.prems(1) this Cons.prems(3), of rd]
  have later: "simulates ready sent inbox rest k' (run_arrivals b rd s (map arrival_of is) k')
      (each (console_step rd sh) is (fst (console_step rd sh i (view sent k))))"
    if "beside_console k k'" "ready (k_dev k')" "inbox (k_dev k') = typed_bytes is @ rest"
      "view sent k' = fst (console_step rd sh i (view sent k))" for k'
    using Cons.IH [OF that(2,3)] Cons.prems(3) that(1,4) by (simp add: beside_console_def same_shell_def)
  show ?case
    unfolding list.map run_arrivals.simps each.simps
    by (rule simulates_bind [OF first]) (rule later)
qed

text \<open>
  Claim C8. The serial console of the kernel is the abstract console. Whatever bytes are typed, over any
  number of lines, and whatever timer interrupts fall between them, the handlers end as the abstract
  steps do: when these go through, every handler returns, and when one of them panics, so does
  its handler, with the same panic. The timer, the log, the scheduler, the line being edited and everything that
  was sent are the abstract ones in either case, and the screen, its console and the shell's
  configuration are as before.
\<close>

theorem console_refines:
  assumes "uart (machine_ports b) (s_address s) ready sent inbox" "s_address s \<le> 0xFFFA"
    and "quiet_board b ready sent inbox" "ready (k_dev k)" "inbox (k_dev k) = typed_bytes is @ rest"
  shows "\<exists>k'. run_arrivals b rd s (map arrival_of is) k
        = Some (k', snd (each (console_step rd (k_serial_console k)) is (view sent k)))
    \<and> view sent k' = fst (each (console_step rd (k_serial_console k)) is (view sent k))
    \<and> beside_console k k'"
proof -
  have line: "line_ok (machine_ports b) s ready sent inbox" using assms(1,2) by (simp add: line_ok_def)
  have "same_shell (k_serial_console k) (k_serial_console k)" by (simp add: same_shell_def)
  from runs_simulate [OF assms(3) line assms(4,5) this, of rd] show ?thesis by (auto simp: simulates_def)
qed

text \<open>Two lines with a tick between them: the time, and the path of a file that does not exist.\<close>

lemma console_refines_witness:
  "\<exists>k. run_arrivals uart_board etc_disk (serial_new COM1)
      [SerialByte, SerialByte, TimerTick, SerialByte, SerialByte, SerialByte, SerialByte, SerialByte]
      (typing_kernel [116, 105, 109, 101, 13, 120, 13]) = Some (k, Inr ())
    \<and> elapsed (k_timer k) = 1
    \<and> line_out (k_dev k) = [116, 105, 109, 101]
        @ crlf_bytes (writeln NORMAL @ writeln (lit ''1'') @ prompt root_shell)
        @ [120] @ crlf_bytes (writeln NORMAL @ writeln (RED @ lit ''ERROR: Command not found.'') @ prompt root_shell)"
proof -
  let ?is = "[Typed 116, Typed 105, Tick, Typed 109, Typed 101, Typed 13, Typed 120, Typed 13]"
  let ?k = "typing_kernel [116, 105, 109, 101, 13, 120, 13]"
  let ?run = "each (console_step etc_disk root_shell) ?is (view line_out ?k)"
  have line: "uart (machine_ports uart_board) (s_address (serial_new COM1)) (\<lambda>_. True) line_out line_in"
      "s_address (serial_new COM1) \<le> 0xFFFA" "quiet_board uart_board (\<lambda>_. True) line_out line_in"
    using test_uart_ok by (simp_all add: uart_board_def com1 quiet_board_def)
  have inbox: "line_in (k_dev ?k) = typed_bytes ?is @ []" and shell: "k_serial_console ?k = root_shell"
    by (simp_all add: typing_kernel_def)
  obtain lg where tick: "tick forked_scheduler logger_new = (lg, Inr (after_tick forked_scheduler))"
    using tick_after_tick by blast
  define sent1 where "sent1 = [116, 105, 109, 101]
    @ crlf_bytes (writeln NORMAL @ writeln (lit ''1'') @ prompt root_shell)"
  define sent2 where "sent2 = sent1 @ [120]
    @ crlf_bytes (writeln NORMAL @ writeln (RED @ lit ''ERROR: Command not found.'') @ prompt root_shell)"
  let ?c = "\<lambda>line out. \<lparr>c_timer = increment timer_new, c_log = lg, c_sched = after_tick forked_scheduler,
    c_line = line, c_sent = out\<rparr>"
  have typed: "each (console_step etc_disk root_shell) [Typed 116, Typed 105, Tick, Typed 109, Typed 101] (view line_out ?k)
      = (?c (lit ''time'') [116, 105, 109, 101], Inr ())"
    by (simp add: console_step_def view_def typing_kernel_def tick root_shell_def)
  have "command_reply etc_disk (increment timer_new) lg root_shell (lit ''time'') (after_tick forked_scheduler)
      = Inr (after_tick forked_scheduler, writeln (lit ''1''))"
    by (simp add: command_reply_def command_word_def is_whitespace_def get_elapsed_def increment_def timer_new_def
        fmt_dec_def radix_digits.simps digit_char_def)
  then have first: "each (console_step etc_disk root_shell) [Typed 13] (?c (lit ''time'') [116, 105, 109, 101])
      = (?c [] sent1, Inr ())"
    by (simp add: console_step_def say_def sent1_def del: lit_simps)
  have "command_reply etc_disk (increment timer_new) lg root_shell (lit ''x'') (after_tick forked_scheduler)
      = Inr (after_tick forked_scheduler, writeln (RED @ lit ''ERROR: Command not found.''))"
    by (simp add: command_reply_def command_word_def is_whitespace_def)
  then have second: "each (console_step etc_disk root_shell) [Typed 120, Typed 13] (?c [] sent1) = (?c [] sent2, Inr ())"
    by (simp add: console_step_def say_def sent2_def) 
  have split: "?is = [Typed 116, Typed 105, Tick, Typed 109, Typed 101] @ [Typed 13] @ [Typed 120, Typed 13]" by simp
  have run: "?run = (?c [] sent2, Inr ())"
    by (simp only: split each_append typed first second sbind_simps)
  from console_refines [OF line TrueI inbox, of etc_disk, unfolded shell run fst_conv snd_conv]
  show ?thesis
    by (auto simp: arrival_of_def view_def increment_def timer_new_def sent1_def sent2_def
        simp del: crlf_bytes_simps lit_simps run_arrivals.simps)
qed

end
