(* ===== verification/Greetings.thy ===== *)
theory Greetings
  imports Console
begin

text \<open>
  What happens when the enter key is pressed again and again: the console on the screen never scrolls
  and never clears (\<^verbatim>\<open>vga.rs\<close>, \<^verbatim>\<open>shell.rs\<close>, \<^verbatim>\<open>keyboard.rs\<close>), so every greeting starts where the last one
  ended and the greetings run off the lower edge of the screen, into the memory behind the framebuffer.
\<close>

section \<open>Where the cursor goes\<close>

text \<open>The cursor after a text, from the start \<open>(x, y)\<close> of the line, \<open>n\<close> characters into it.\<close>

function cursor_after :: "rstr \<Rightarrow> usize \<Rightarrow> usize \<Rightarrow> usize \<Rightarrow> usize \<times> usize \<Rightarrow> usize \<times> usize" where
  "cursor_after [] x y n at = at"
| "cursor_after (c # cs) x y n at =
     (if c = 10 then cursor_after cs 8 (y + 16) 0 (8, y + 16)
      else if c = 13 then cursor_after cs 8 y 0 (8, y)
      else if c = 9 then cursor_after cs (x + 64) y n (x + 64, y)
      else if c = 27 then cursor_after (drop 1 (dropWhile (\<lambda>x. x \<noteq> 109) cs)) x y n at
      else cursor_after cs x y (Suc n) (x + 8 * n, y))"
  by pat_completeness auto
termination
proof (relation "measure (\<lambda>(cs, _). length cs)", goal_cases)
qed (auto simp: le_imp_less_Suc length_dropWhile_le diff_le_self order.trans [OF diff_le_self])

abbreviation cursor_at :: "vga \<Rightarrow> usize \<times> usize" where
  "cursor_at v \<equiv> (cur_x (v_cursor v), cur_y (v_cursor v))"

lemma cursor_at_set [simp]: "cursor_at (set_cursor v x y fg bg) = (x, y)"
  by (simp add: set_cursor_def)

lemma sbind_Inr_cases:
  assumes "sbind m f = (s', Inr y)"
  obtains s x where "m = (s, Inr x)" "f s x = (s', Inr y)"
  using assms by (auto simp: sbind_Inr_iff)

lemma usize_add_Inr: "usize_add a b = Inr n \<Longrightarrow> n = a + b"
  by (simp add: usize_add_def split: if_splits)

lemma usize_mul_Inr: "usize_mul a b = Inr n \<Longrightarrow> n = a * b"
  by (simp add: usize_mul_def split: if_splits)

lemma write_str_loop_cursor:
  "font_ok (v_font (fst s)) \<Longrightarrow> write_str_loop rd cs x y fg bg n s = (s', Inr ()) \<Longrightarrow>
    cursor_at (fst s') = cursor_after cs x y n (cursor_at (fst s))"
proof (induction cs arbitrary: x y fg bg n s rule: length_induct)
  case (1 cs)
  show ?case
  proof (cases cs)
    case Nil
    then show ?thesis using 1 by (simp add: write_str_loop.simps(1))
  next
    case (Cons c ds)
    have IH: "cursor_at (fst s') = cursor_after es x y n (cursor_at (fst s))"
      if "write_str_loop rd es x y fg bg n s = (s', Inr ())" "length es \<le> length ds" "font_ok (v_font (fst s))"
      for es x y fg bg n s
      by (rule 1(1) [rule_format, OF _ that(3,1)]) (use that(2) Cons in simp)
    have f: "font_ok (v_font (fst s))" by (rule 1(2))
    have font: "font_ok g" if "font_new rd path = Inr g" for path g
      using that by (auto simp: font_new_def intro: parse_font_ok)
    have drop: "length (drop 1 (dropWhile P ds)) \<le> length ds" for P
      using length_dropWhile_le [of P ds] by simp
    note run = 1(3) [unfolded Cons write_str_loop.simps(2) Let_def]
    show ?thesis
      unfolding Cons cursor_after.simps
      using run f drop
      by (auto simp: usize_Inr sbind_Inr_iff dest!: usize_add_Inr usize_mul_Inr IH font
          split: if_splits prod.splits sum.splits)
  qed
qed

section \<open>One greeting\<close>

text \<open>The first line of a message goes into the cursor's row; what follows starts below it.\<close>

lemma kept_set_cursor [simp]:
  "kept_above (set_cursor v a b c d) = kept_above v" "room (set_cursor v a b c d) = room v"
  by (simp_all add: fun_eq_iff kept_above_def room_def set_cursor_def on_screen_def vga_fits_def pixel_at_def pixel_offset_def)

lemma message_row:
  assumes "font_ok (v_font v)" "\<forall>c\<in>set line. printable c" "line \<noteq> []" "cell_on_screen v x y (length line)"
    and "fonts_load rd" "\<forall>c\<in>set others. c < 256"
    and "room v X Y" "8 + 64 * (length others + k) \<le> X" "y + 16 + 16 * (length others + k) \<le> Y"
  shows "\<exists>m1. screen.painted v mem m1 (\<lambda>px py. x \<le> px \<and> px < x + 8 * length line \<and> y - 12 \<le> py \<and> py < y + 4)
      (text_color (v_font v) fg bg line x (y - 12))
    \<and> written (y + 4) X Y k (v, m1) (write_str rd (line @ 10 # others) (set_cursor v x y fg bg, mem))"
proof -
  let ?v = "set_cursor v x y fg bg" and ?w = "set_cursor v 8 (y + 16) fg bg"
  have cell: "cell_on_screen v (x + 8 * 0) y (length line)" using assms(4) by simp
  obtain m1 where m1: "write_str_loop rd (line @ 10 # others) x y fg bg 0 (?v, mem)
      = write_str_loop rd (10 # others) x y fg bg (length line) (set_cursor v (x + 8 * (length line - 1)) y fg bg, m1)"
    "screen.painted v mem m1 (\<lambda>px py. x \<le> px \<and> px < x + 8 * length line \<and> y - 12 \<le> py \<and> py < y + 4)
      (text_color (v_font v) fg bg line x (y - 12))"
    using write_str_loop_text [of ?v line x 0 y rd "10 # others" fg bg mem] assms(1-3) cell
    unfolding cell_rows [OF cell] by auto
  have y: "usize_add y 16 = Inr (y + 16)" "12 \<le> y"
    using assms(4,7,9) by (auto simp: usize_add_def room_def cell_on_screen_def)
  have "write_str rd (line @ 10 # others) (?v, mem) = write_str_loop rd others 8 (y + 16) fg bg 0 (?w, m1)"
  proof -
    have "v_cursor ?v = \<lparr>cur_x = x, cur_y = y, cur_fg = fg, cur_bg = bg\<rparr>" by (simp add: set_cursor_def)
    then show ?thesis
      using assms(1) y(1) by (simp add: write_str_def m1(1)) (simp add: write_str_loop.simps(2) Let_def)
  qed
  moreover have "written (y + 4) X Y k (?w, m1) (write_str_loop rd others 8 (y + 16) fg bg 0 (?w, m1))"
  proof (rule write_str_loop_kept [OF assms(5,6)])
    show "writable (y + 4) X Y (length others + k) ?w"
      using assms(1,4,7-9) by (simp add: writable_def cell_on_screen_def room_def vga_fits_def) (simp add: set_cursor_def)
  qed (use assms(8) in \<open>simp_all add: set_cursor_def\<close>)
  ultimately show ?thesis
    using m1(2) written_same [of v ?w "y + 4" X Y k m1] by (intro exI [of _ m1]) simp
qed

text \<open>The greeting of the console, from wherever the cursor is.\<close>

lemma display_greeting:
  assumes "font_ok (v_font v)" "\<forall>c\<in>set line. printable c" "line \<noteq> []" "cell_on_screen v x y (length line)"
    and "fonts_load rd" "\<forall>c\<in>set (others @ prompt sh). c < 256"
    and "file_text rd (lit ''initrd/etc/motd'') = Inr (line @ 10 # others)"
    and "n = length others + 1 + length (prompt sh) + k" "room v X Y" "8 + 64 * n \<le> X" "y + 16 + 16 * n \<le> Y"
  shows "\<exists>vm' m1. display (\<lambda>s vm. Some (write_fmt rd s vm)) rd sh (set_cursor v x y fg bg, mem) = Some (vm', Inr ())
    \<and> screen.painted v mem m1 (\<lambda>px py. x \<le> px \<and> px < x + 8 * length line \<and> y - 12 \<le> py \<and> py < y + 4)
        (text_color (v_font v) fg bg line x (y - 12))
    \<and> same_screen v (fst vm') \<and> kept_above v (y + 4) m1 (snd vm')"
proof -
  let ?k = "length (prompt sh)"
  have fits: "8 + 64 * (length (others @ [10]) + ?k) \<le> X" "y + 16 + 16 * (length (others @ [10]) + ?k) \<le> Y"
    using assms(8,10,11) by simp_all
  obtain m1 vm2 where 1: "screen.painted v mem m1
        (\<lambda>px py. x \<le> px \<and> px < x + 8 * length line \<and> y - 12 \<le> py \<and> py < y + 4) (text_color (v_font v) fg bg line x (y - 12))"
      "write_str rd (line @ 10 # (others @ [10])) (set_cursor v x y fg bg, mem) = (vm2, Inr ())"
      "writable (y + 4) X Y ?k (fst vm2)" "same_screen v (fst vm2)" "kept_above v (y + 4) m1 (snd vm2)"
    using message_row [OF assms(1-5) _ assms(9) fits, of mem fg bg] assms(6) by (fastforce simp: written_def)
  have "written (y + 4) X Y 0 vm2 (write_str rd (prompt sh) vm2)"
    using assms(6) 1(3) by (intro write_str_kept [OF assms(5)]) simp_all
  then obtain vm3 where 3: "write_str rd (prompt sh) vm2 = (vm3, Inr ())"
      "same_screen (fst vm2) (fst vm3)" "kept_above (fst vm2) (y + 4) (snd vm2) (snd vm3)"
    by (auto simp: written_def)
  have "display (\<lambda>s vm. Some (write_fmt rd s vm)) rd sh (set_cursor v x y fg bg, mem) = Some (vm3, Inr ())"
    using 1(2) 3(1) assms(7) by (simp add: display_def writeln_def)
  moreover have "kept_above v (y + 4) m1 (snd vm3)"
    using kept_above_trans [OF 1(5)] 3(3) same_screen_geometry(5) [OF 1(4)] by simp
  ultimately show ?thesis using 1(1) same_screen_trans [OF 1(4) 3(2)] by blast
qed

text \<open>A message of plain lines, and a prompt of plain characters and escape sequences.\<close>

lemma cursor_after_lines:
  "\<forall>c\<in>set s. c = 10 \<or> printable c \<Longrightarrow> cursor_after (s @ [10]) x y n at = (8, y + 16 * (count_list s 10 + 1))"
  by (induction s arbitrary: x y n at) (auto simp: printable_def)

lemma cursor_after_shown:
  "\<forall>c\<in>set (unescaped s). printable c \<Longrightarrow>
    cursor_after s x y n at = (if unescaped s = [] then at else (x + 8 * (n + length (unescaped s) - 1), y))"
proof (induction s arbitrary: n at rule: unescaped.induct)
  case (2 c cs)
  then show ?case by (cases "c = 27") (auto simp: printable_def)
qed simp

definition greeting_length :: "rstr \<Rightarrow> shell \<Rightarrow> nat" where
  "greeting_length motd sh = length motd + 1 + length (prompt sh)"

lemma display_kept:
  assumes "fonts_load rd" "file_text rd (lit ''initrd/etc/motd'') = Inr motd"
    and "\<forall>c\<in>set motd. c = 10 \<or> printable c" "\<forall>c\<in>set (prompt sh). c < 256"
    and "\<forall>c\<in>set (unescaped (prompt sh)). printable c" "unescaped (prompt sh) \<noteq> []"
    and "writable r X Y (greeting_length motd sh + k) (fst vm)"
  obtains vm' where "display (\<lambda>s vm. Some (write_fmt rd s vm)) rd sh vm = Some (vm', Inr ())"
    "writable r X Y k (fst vm')" "same_screen (fst vm) (fst vm')"
    "cursor_at (fst vm') = (8 * length (unescaped (prompt sh)),
       cur_y (v_cursor (fst vm)) + 16 * (count_list motd 10 + 1))"
proof -
  have latin: "\<forall>c\<in>set (motd @ [10]). c < 256" using assms(3) by (auto simp: printable_def)
  have "writable r X Y (length (motd @ [10]) + (length (prompt sh) + k)) (fst vm)"
    using assms(7) by (simp add: greeting_length_def add.assoc)
  from write_str_kept [OF assms(1) latin this] obtain vm1 where
    1: "write_str rd (motd @ [10]) vm = (vm1, Inr ())" "writable r X Y (length (prompt sh) + k) (fst vm1)"
      "same_screen (fst vm) (fst vm1)"
    by (auto simp: written_def)
  from write_str_kept [OF assms(1,4) 1(2)] obtain vm2 where
    2: "write_str rd (prompt sh) vm1 = (vm2, Inr ())" "writable r X Y k (fst vm2)" "same_screen (fst vm1) (fst vm2)"
    by (auto simp: written_def)
  have fonts: "font_ok (v_font (fst vm))" "font_ok (v_font (fst vm1))"
    using assms(7) 1(2) by (simp_all add: writable_def)
  have "cursor_at (fst vm1) = (8, cur_y (v_cursor (fst vm)) + 16 * (count_list motd 10 + 1))"
    using write_str_loop_cursor [OF fonts(1) 1(1) [unfolded write_str_def Let_def]] cursor_after_lines [OF assms(3)]
    by simp
  then have "cursor_at (fst vm2) = (8 * length (unescaped (prompt sh)),
      cur_y (v_cursor (fst vm)) + 16 * (count_list motd 10 + 1))"
    using write_str_loop_cursor [OF fonts(2) 2(1) [unfolded write_str_def Let_def]] cursor_after_shown [OF assms(5)]
      assms(6) by (cases "unescaped (prompt sh)") simp_all
  moreover have "display (\<lambda>s vm. Some (write_fmt rd s vm)) rd sh vm = Some (vm2, Inr ())"
    using 1(1) 2(1) assms(2) by (simp add: display_def writeln_def)
  ultimately show thesis using 2(2) same_screen_trans [OF 1(3) 2(3)] by (intro that)
qed

lemma display_taller:
  "display (\<lambda>s vm. Some (write_fmt rd s vm)) rd sh (taller h vm)
     = map_option (apfst (taller h)) (display (\<lambda>s vm. Some (write_fmt rd s vm)) rd sh vm)"
  unfolding display_def write_fmt_str
  using write_str_taller [of rd _ h "(v, mem)" for v mem]
  by (auto simp: obind_def write_str_taller split: sum.split prod.split)

text \<open>
  A greeting that starts below the lower edge: the screen is as before, and the first line of the
  message is in the memory behind the framebuffer, where the rows of a taller screen would be.
\<close>

lemma display_below:
  assumes "fonts_load rd" "file_text rd (lit ''initrd/etc/motd'') = Inr (line @ 10 # others)"
    and "\<forall>c\<in>set line. printable c" "line \<noteq> []" "\<forall>c\<in>set (others @ prompt sh). c < 256"
    and "writable r X Y (greeting_length (line @ 10 # others) sh) v"
    and "v_cursor v = \<lparr>cur_x = x, cur_y = y, cur_fg = fg, cur_bg = bg\<rparr>"
    and "unat (v_height v) + 12 \<le> y" "x + 8 * length line \<le> unat (v_width v)"
  obtains v' mem' where "display (\<lambda>s vm. Some (write_fmt rd s vm)) rd sh (v, mem) = Some ((v', mem'), Inr ())"
    "\<And>px py. on_screen v px py \<Longrightarrow> pixel_at v mem' px py = pixel_at v mem px py"
    "\<And>px py. x \<le> px \<Longrightarrow> px < x + 8 * length line \<Longrightarrow> y - 12 \<le> py \<Longrightarrow> py < y + 4 \<Longrightarrow>
       pixel_at v mem' px py = text_color (v_font v) fg bg line x (y - 12) px py"
proof -
  let ?n = "length others + 1 + length (prompt sh)"
  define h where "h = (word_of_nat (y + 4) :: u64)"
  let ?t = "v\<lparr>v_height := h\<rparr>"
  have w: "vga_fits v" "font_ok (v_font v)" "room v X Y" "8 + 64 * ?n \<le> X" "y + 16 + 16 * ?n \<le> Y"
    using assms(6,7) by (auto simp: writable_def greeting_length_def)
  have "y + 4 < 2 ^ 64" using w(3,5) by (simp add: room_def)
  then have h: "unat h = y + 4" unfolding h_def unat_of_nat by simp
  have same: "pixel_at ?t = pixel_at v" "room ?t = room v"
    by (simp_all add: fun_eq_iff pixel_at_def pixel_offset_def room_def)
  have "room v X y" by (rule room_le [OF w(3)]) (use w(5) in simp_all)
  then have fits: "vga_fits ?t" using w(1) h by (simp add: vga_fits_def room_def)
  have "cell_on_screen ?t x y (length line)" using fits h assms(8,9) by (simp add: cell_on_screen_def)
  moreover have "room ?t X Y" using w(3) same(2) by simp
  moreover have "set_cursor ?t x y fg bg = ?t" using assms(7) by (simp add: set_cursor_def)
  ultimately obtain vm' m1 where
    d: "display (\<lambda>s vm. Some (write_fmt rd s vm)) rd sh (?t, mem) = Some (vm', Inr ())"
      "screen.painted ?t mem m1 (\<lambda>px py. x \<le> px \<and> px < x + 8 * length line \<and> y - 12 \<le> py \<and> py < y + 4)
        (text_color (v_font v) fg bg line x (y - 12))"
      "kept_above ?t (y + 4) m1 (snd vm')"
    using display_greeting [of ?t line x y rd others sh ?n 0 X Y fg bg mem] assms(1-5) w(2,4,5) by auto
  from d(1) obtain v' mem' where run: "display (\<lambda>s vm. Some (write_fmt rd s vm)) rd sh (v, mem) = Some ((v', mem'), Inr ())"
      "vm' = (v'\<lparr>v_height := h\<rparr>, mem')"
    using display_taller [of rd sh h "(v, mem)"]
    by (cases "display (\<lambda>s vm. Some (write_str rd s vm)) rd sh (v, mem)") (auto simp: taller_def)
  have drawn: "pixel_at v mem' px py
      = (if x \<le> px \<and> px < x + 8 * length line \<and> y - 12 \<le> py
         then text_color (v_font v) fg bg line x (y - 12) px py else pixel_at v mem px py)"
    if "on_screen ?t px py" "py < y + 4" for px py
    using painted_screen(1) [OF d(2) that(1)] d(3) that run(2) unfolding kept_above_def same by auto
  show thesis
  proof (rule that [OF run(1)])
    fix px py
    show "pixel_at v mem' px py = pixel_at v mem px py" if "on_screen v px py"
      using drawn [of px py] that fits h assms(8) by (auto simp: on_screen_def)
    show "pixel_at v mem' px py = text_color (v_font v) fg bg line x (y - 12) px py"
      if "x \<le> px" "px < x + 8 * length line" "y - 12 \<le> py" "py < y + 4"
      using drawn [of px py] that fits h assms(9) by (auto simp: on_screen_def)
  qed
qed

section \<open>Pressing enter again and again\<close>

fun enter_presses :: "'d board \<Rightarrow> initrd \<Rightarrow> nat \<Rightarrow> 'd kernel \<Rightarrow> ('d kernel \<times> unit result) option" where
  "enter_presses b rd 0 k = Some (k, Inr ())"
| "enter_presses b rd (Suc n) k = obind (enter_presses b rd n k) (\<lambda>k _. keyboard_handler b rd k)"

lemma enter_pressed:
  assumes "fst (port_in (machine_ports b) 0x60 (k_dev k)) = 0x1C" "k_vga_console k = Some sh"
    and "display (\<lambda>s vm. Some (write_fmt rd s vm)) rd sh (k_screen k) = Some (vm, Inr ())"
  obtains k' where "keyboard_handler b rd k = Some (k', Inr ())" "k_vga_console k' = Some sh" "k_screen k' = vm"
proof -
  obtain d where d: "port_in (machine_ports b) 0x60 (k_dev k) = (0x1C, d)"
    using assms(1) by (cases "port_in (machine_ports b) 0x60 (k_dev k)") simp
  obtain k' where "keyboard_handler b rd k = Some (k', Inr ()) \<and> k_vga_console k' = Some sh \<and> k_screen k' = vm"
    using d assms(2,3)
    by (simp add: keyboard_handler_def keyboard_interpret_def keyboard_read_def keyboard_new_def scan_value_def
        lock_vga_console_def end_interrupt_def Let_def del: lit_simps)
  then show thesis by (intro that) blast+
qed

lemma greetings_kept:
  assumes "\<forall>d. fst (port_in (machine_ports b) 0x60 d) = 0x1C" "k_vga_console k = Some sh"
    and "fonts_load rd" "file_text rd (lit ''initrd/etc/motd'') = Inr motd"
    and "\<forall>c\<in>set motd. c = 10 \<or> printable c" "\<forall>c\<in>set (prompt sh). c < 256"
    and "\<forall>c\<in>set (unescaped (prompt sh)). printable c" "unescaped (prompt sh) \<noteq> []"
  shows "writable r X Y (greeting_length motd sh * n + j) (fst (k_screen k)) \<Longrightarrow>
    \<exists>k'. enter_presses b rd n k = Some (k', Inr ()) \<and> k_vga_console k' = Some sh
      \<and> same_screen (fst (k_screen k)) (fst (k_screen k')) \<and> writable r X Y j (fst (k_screen k'))
      \<and> cur_y (v_cursor (fst (k_screen k'))) = cur_y (v_cursor (fst (k_screen k))) + 16 * (count_list motd 10 + 1) * n
      \<and> (n \<noteq> 0 \<longrightarrow> cur_x (v_cursor (fst (k_screen k'))) = 8 * length (unescaped (prompt sh)))"
proof (induction n arbitrary: j)
  case (Suc n)
  from Suc.IH [of "greeting_length motd sh + j"] Suc.prems obtain k1 where
    k1: "enter_presses b rd n k = Some (k1, Inr ())" "k_vga_console k1 = Some sh"
      "same_screen (fst (k_screen k)) (fst (k_screen k1))" "writable r X Y (greeting_length motd sh + j) (fst (k_screen k1))"
      "cur_y (v_cursor (fst (k_screen k1))) = cur_y (v_cursor (fst (k_screen k))) + 16 * (count_list motd 10 + 1) * n"
    by (auto simp: algebra_simps)
  obtain vm where vm: "display (\<lambda>s vm. Some (write_fmt rd s vm)) rd sh (k_screen k1) = Some (vm, Inr ())"
      "writable r X Y j (fst vm)" "same_screen (fst (k_screen k1)) (fst vm)"
      "cursor_at (fst vm) = (8 * length (unescaped (prompt sh)),
         cur_y (v_cursor (fst (k_screen k1))) + 16 * (count_list motd 10 + 1))"
    by (rule display_kept [OF assms(3-8) k1(4)])
  obtain k2 where "keyboard_handler b rd k1 = Some (k2, Inr ())" "k_vga_console k2 = Some sh" "k_screen k2 = vm"
    by (rule enter_pressed [OF assms(1) [rule_format] k1(2) vm(1)])
  then show ?case
    using k1(1,5) vm(2,4) same_screen_trans [OF k1(3) vm(3)] by (simp add: algebra_simps)
qed (simp add: assms(2))

lemma below_screen_outside:
  assumes "unat (v_height v) \<le> py" "vga_fits v" "room v X Y" "py < Y + 4" "px < unat (v_width v)"
  shows "\<not> framebuffer_byte v (v_address v + word_of_nat (pixel_offset v px py))"
proof -
  have "unat (v_height v) * unat (v_pitch v) \<le> pixel_offset v px py"
    using mult_le_mono1 [OF assms(1)] by (simp add: pixel_offset_def trans_le_add1)
  moreover have "pixel_offset v px py < (Y + 4) * unat (v_pitch v)"
  proof -
    have "px * 4 < unat (v_pitch v)" using assms(2,5) by (simp add: vga_fits_def)
    moreover have "Suc py * unat (v_pitch v) \<le> (Y + 4) * unat (v_pitch v)"
      using assms(4) by (intro mult_le_mono1) simp
    ultimately show ?thesis by (simp add: pixel_offset_def)
  qed
  then have "unat (v_address v) + pixel_offset v px py < 2 ^ 64" using assms(3) by (simp add: room_def)
  then have "unat (v_address v + word_of_nat (pixel_offset v px py)) = unat (v_address v) + pixel_offset v px py"
    by (simp add: unat_word_ariths unat_of_nat)
  ultimately show ?thesis by (simp add: framebuffer_byte_def)
qed

text \<open>
  Claim C11. The console on the screen does not scroll. When enter is held and \<open>n\<close> of its scan codes arrive,
  every interrupt returns and the cursor ends after the prompt, lower by \<open>n\<close> times the lines of the message
  and one. Once that is below the lower edge of the screen, the next press still returns, but shows nothing: no pixel of the screen changes, and the greeting is
  written to memory that does not belong to the framebuffer, where its first line can be read.
  (\<open>writable\<close> says that the address space does not end before.)
\<close>

theorem greetings_leave_screen:
  assumes "\<forall>d. fst (port_in (machine_ports b) 0x60 d) = 0x1C" "k_vga_console k = Some sh" "k_screen k = (v, mem)"
    and "fonts_load rd" "file_text rd (lit ''initrd/etc/motd'') = Inr (line @ 10 # others)"
    and "\<forall>c\<in>set line. printable c" "line \<noteq> []" "\<forall>c\<in>set others. c = 10 \<or> printable c"
    and "\<forall>c\<in>set (prompt sh). c < 256" "\<forall>c\<in>set (unescaped (prompt sh)). printable c" "unescaped (prompt sh) \<noteq> []"
    and "8 * length (unescaped (prompt sh)) + 8 * length line \<le> unat (v_width v)"
    and "y = cur_y (v_cursor v) + 16 * (count_list others 10 + 2) * n" "0 < n" "unat (v_height v) + 12 \<le> y"
    and "writable r X Y (greeting_length (line @ 10 # others) sh * (n + 1)) v"
  shows "\<exists>k1 k2. enter_presses b rd n k = Some (k1, Inr ()) \<and> keyboard_handler b rd k1 = Some (k2, Inr ())
    \<and> cursor_at (fst (k_screen k1)) = (8 * length (unescaped (prompt sh)), y)
    \<and> (\<forall>px py. on_screen v px py \<longrightarrow>
         pixel_at v (snd (k_screen k2)) px py = pixel_at v (snd (k_screen k1)) px py)
    \<and> (let x = 8 * length (unescaped (prompt sh)); v1 = fst (k_screen k1) in
       \<forall>px py. x \<le> px \<and> px < x + 8 * length line \<and> y - 12 \<le> py \<and> py < y + 4 \<longrightarrow>
         \<not> framebuffer_byte v (v_address v + word_of_nat (pixel_offset v px py))
         \<and> pixel_at v (snd (k_screen k2)) px py
           = glyph_color (v_font v1) (cur_fg (v_cursor v1)) (cur_bg (v_cursor v1))
               (line ! ((px - x) div 8)) ((px - x) mod 8) (py - (y - 12)))"
proof -
  let ?motd = "line @ 10 # others" and ?x = "8 * length (unescaped (prompt sh))"
  have "10 \<notin> set line" using assms(6) by (auto simp: printable_def)
  then have lines: "count_list ?motd 10 + 1 = count_list others 10 + 2" by simp
  have motd: "\<forall>c\<in>set ?motd. c = 10 \<or> printable c" using assms(6,8) by auto
  have "writable r X Y (greeting_length ?motd sh * n + greeting_length ?motd sh) (fst (k_screen k))"
    using assms(3,16) by (simp add: algebra_simps)
  from greetings_kept [OF assms(1,2,4,5) motd assms(9-11) this] obtain k1 where
    "enter_presses b rd n k = Some (k1, Inr ()) \<and> k_vga_console k1 = Some sh
      \<and> same_screen (fst (k_screen k)) (fst (k_screen k1))
      \<and> writable r X Y (greeting_length ?motd sh) (fst (k_screen k1))
      \<and> cur_y (v_cursor (fst (k_screen k1))) = cur_y (v_cursor (fst (k_screen k))) + 16 * (count_list ?motd 10 + 1) * n
      \<and> (n \<noteq> 0 \<longrightarrow> cur_x (v_cursor (fst (k_screen k1))) = ?x)" ..
  then have k1: "enter_presses b rd n k = Some (k1, Inr ())" "k_vga_console k1 = Some sh"
      "same_screen (fst (k_screen k)) (fst (k_screen k1))"
      "writable r X Y (greeting_length ?motd sh) (fst (k_screen k1))"
      "cur_y (v_cursor (fst (k_screen k1))) = cur_y (v_cursor (fst (k_screen k))) + 16 * (count_list ?motd 10 + 1) * n"
      "n \<noteq> 0 \<longrightarrow> cur_x (v_cursor (fst (k_screen k1))) = ?x" by blast+
  have cursor_y: "cur_y (v_cursor (fst (k_screen k1))) = y"
    using k1(5) unfolding lines assms(3,13) by simp
  have cursor_x: "cur_x (v_cursor (fst (k_screen k1))) = ?x" using k1(6) assms(14) by simp
  have same_v: "same_screen v (fst (k_screen k1))" using k1(3) assms(3) by simp
  obtain v1 m1 where screen: "k_screen k1 = (v1, m1)" by (cases "k_screen k1")
  obtain fg bg where cursor: "v_cursor v1 = \<lparr>cur_x = ?x, cur_y = y, cur_fg = fg, cur_bg = bg\<rparr>"
    using cursor_x cursor_y screen by (cases "v_cursor v1") simp
  have geometry: "unat (v_height v1) + 12 \<le> y" "?x + 8 * length line \<le> unat (v_width v1)"
    using same_v assms(12,15) screen by (simp_all add: same_screen_def)
  have low: "y \<le> Y" using k1(4) cursor_y by (simp add: writable_def)
  note same = same_screen_geometry [OF same_v, unfolded screen fst_conv]
  have "\<forall>c\<in>set others. c < 256" using assms(8) by (auto simp: printable_def)
  then have chars: "\<forall>c\<in>set (others @ prompt sh). c < 256" using assms(9) unfolding set_append by blast
  obtain v2 m2 where
    2: "display (\<lambda>s vm. Some (write_fmt rd s vm)) rd sh (v1, m1) = Some ((v2, m2), Inr ())"
      "\<And>px py. on_screen v1 px py \<Longrightarrow> pixel_at v1 m2 px py = pixel_at v1 m1 px py"
      "\<And>px py. ?x \<le> px \<Longrightarrow> px < ?x + 8 * length line \<Longrightarrow> y - 12 \<le> py \<Longrightarrow> py < y + 4 \<Longrightarrow>
         pixel_at v1 m2 px py = text_color (v_font v1) fg bg line ?x (y - 12) px py"
    using display_below [OF assms(4,5,6,7) chars _ cursor geometry, of r X Y m1] k1(4) screen by auto
  obtain k2 where k2: "keyboard_handler b rd k1 = Some (k2, Inr ())" "k_screen k2 = (v2, m2)"
    by (rule enter_pressed [OF assms(1) [rule_format] k1(2), of rd "(v2, m2)"]) (use 2(1) screen in simp)
  have "\<not> framebuffer_byte v (v_address v + word_of_nat (pixel_offset v px py))"
    if "y - 12 \<le> py" "py < y + 4" "px < ?x + 8 * length line" for px py
    by (rule below_screen_outside [where X = X and Y = Y])
      (use that assms(12,15,16) geometry same_v low in \<open>auto simp: writable_def\<close>)
  then show ?thesis
    using k1(1) k2 2(2,3) screen cursor unfolding same by (auto simp: text_color_def Let_def)
qed

lemma greetings_leave_screen_witness:
  "\<exists>k1 k2. enter_presses enter_board boot_rd 2 (dark_kernel\<lparr>k_vga_console := Some root_shell\<rparr>) = Some (k1, Inr ())
    \<and> keyboard_handler enter_board boot_rd k1 = Some (k2, Inr ())
    \<and> pixel_at small_screen (snd (k_screen k2)) 0 0 = pixel_at small_screen (snd (k_screen k1)) 0 0
    \<and> \<not> framebuffer_byte small_screen (v_address small_screen + word_of_nat (pixel_offset small_screen 160 76))"
proof -
  have fonts: "fonts_load boot_rd"
    using boot_font load_plain_font [of boot_rd BOLD_FONT 60]
    by (simp add: fonts_load_def contents_boot_rd boot_contents_def NORMAL_FONT_def BOLD_FONT_def)
  have room: "writable 0 14984 3768 (greeting_length (lit ''Welcome.'' @ 10 # []) root_shell * (2 + 1)) small_screen"
    using root_prompt(1) by (simp add: writable_def greeting_length_def room_def) (simp add: small_screen_def)
  have chars: "\<forall>c\<in>set (lit ''Welcome.''). printable c" "lit ''Welcome.'' \<noteq> []" by (simp_all add: printable_def)
  have prompt: "unescaped (prompt root_shell) \<noteq> []" using root_prompt_shown(1) by auto
  have width: "8 * length (unescaped (prompt root_shell)) + 8 * length (lit ''Welcome.'') \<le> unat (v_width small_screen)"
    using root_prompt_shown(1) by (simp add: small_screen_def)
  have below: "(88::nat) = cur_y (v_cursor small_screen) + 16 * (count_list ([]::rstr) 10 + 2) * 2"
      "unat (v_height small_screen) + 12 \<le> 88"
    by (simp_all add: small_screen_def)
  have key: "\<forall>d. fst (port_in (machine_ports enter_board) 0x60 d) = 0x1C" by (simp add: enter_board_def)
  have kernel: "k_vga_console (dark_kernel\<lparr>k_vga_console := Some root_shell\<rparr>) = Some root_shell"
      "k_screen (dark_kernel\<lparr>k_vga_console := Some root_shell\<rparr>) = (small_screen, \<lambda>_. 0)"
    by (simp_all add: dark_kernel_def)
  have corner: "on_screen small_screen 0 0" by (simp add: on_screen_def) (simp add: small_screen_def)
  from greetings_leave_screen [OF key kernel fonts boot_motd chars _ root_prompt(2) root_prompt_shown(2) prompt
      width below(1) _ below(2) room]
  show ?thesis using corner root_prompt_shown(1) by (auto simp: Let_def simp del: lit_simps)
qed

end
