(* ===== verification/Crash.thy ===== *)
theory Crash
  imports Console
begin

text \<open>
  How a panic of a running kernel ends, where the handlers of \<^verbatim>\<open>interrupts.rs\<close> meet the panic handler of
  \<^verbatim>\<open>main.rs\<close>. The kernel is built without unwinding, so the locks of the code that panicked stay
  held; \<^verbatim>\<open>keyboard.rs\<close> and \<^verbatim>\<open>intro.rs\<close> hold the one the panic handler needs first.
\<close>

section \<open>Locks at a panic\<close>

text \<open>
  \<^verbatim>\<open>VGA\<close> is locked wherever the keyboard's handler can panic: by the initialiser of \<^verbatim>\<open>VGA_CONSOLE\<close> and
  during \<^verbatim>\<open>display\<close>. The handlers of the timer and of the serial line never take it, and no
  handler panics with \<^verbatim>\<open>LOGGER\<close> locked: its guard lives for one call of \<^verbatim>\<open>log\<close> or, in the shell's
  \<^verbatim>\<open>logs\<close>, for writes to the serial line, which cannot fail.
\<close>

definition crash :: "interrupt_index \<Rightarrow> initrd \<Rightarrow> rstr \<Rightarrow> 'd kernel \<Rightarrow> 'd kernel \<times> ending" where
  "crash line rd msg k =
     (let ((vm, lg), end) = panic_handler (line = KeyboardLine) False rd msg (k_screen k, k_log k)
      in (k\<lparr>k_screen := vm, k_log := lg\<rparr>, end))"

lemma crash_keyboard: "crash KeyboardLine rd msg k = (k, Deadlocked)"
  by (simp add: crash_def panic_handler_def split: prod.split)

section \<open>A greeting that cannot be shown\<close>

lemma write_str_no_glyph:
  "256 < c \<Longrightarrow> c \<in> set (unescaped t) \<Longrightarrow> font_ok (v_font (fst vm)) \<Longrightarrow> snd (write_str rd (writeln t) vm) \<noteq> Inr ()"
  using write_str_loop_no_glyph [of c vm "writeln t"] unescaped_append [of t "[10]"]
  unfolding write_str_def Let_def writeln_def by blast

lemma display_no_glyph:
  assumes "file_text rd (lit ''initrd/etc/motd'') = Inr t" "256 < c" "c \<in> set (unescaped t)"
    and "font_ok (v_font (fst vm))"
  obtains vm' p where "display (\<lambda>s vm. Some (write_fmt rd s vm)) rd sh vm = Some (vm', Inl p)"
proof -
  obtain vm' r where w: "write_str rd (writeln t) vm = (vm', r)" by (cases "write_str rd (writeln t) vm")
  moreover have "r \<noteq> Inr ()" using write_str_no_glyph [OF assms(2-4), of rd] w by simp
  then obtain p where "r = Inl p" by (cases r) auto
  ultimately have "display (\<lambda>s vm. Some (write_fmt rd s vm)) rd sh vm = Some (vm', Inl p)"
    using assms(1) by (simp add: display_def)
  then show thesis by (rule that)
qed

text \<open>
  Claim C18. A message of the day with a character above U+0100 (outside an escape sequence) stops the
  machine at the first press of enter, in whatever state the console on the screen is: the keyboard's
  handler panics with the screen locked, so the panic handler waits for the lock for ever, and shows and
  logs nothing.
\<close>

theorem enter_without_glyph_hangs:
  assumes "fst (port_in (machine_ports b) 0x60 (k_dev k)) = 0x1C" "font_ok (v_font (fst (k_screen k)))"
    and "file_text rd (lit ''initrd/etc/motd'') = Inr t" "256 < c" "c \<in> set (unescaped t)"
  shows "\<exists>k' p. keyboard_handler b rd k = Some (k', Inl p) \<and> crash KeyboardLine rd msg k' = (k', Deadlocked)"
proof -
  obtain d where key: "port_in (machine_ports b) 0x60 (k_dev k) = (0x1C, d)"
    using assms(1) by (cases "port_in (machine_ports b) 0x60 (k_dev k)") simp
  let ?k = "k\<lparr>k_dev := d,
    k_log := trace (k_log k) (lit ''Received scan code (0x'' @ fmt_hex (unat (0x1C::u8)) @ lit '') from keyboard.'')\<rparr>"
  have run: "keyboard_interpret (machine_ports b) rd keyboard_new k = obind (Some (lock_vga_console rd ?k)) (\<lambda>k shell.
      map_option (\<lambda>(vm, r). (k\<lparr>k_screen := vm\<rparr>, r)) (display (\<lambda>s vm. Some (write_fmt rd s vm)) rd shell (k_screen k)))"
    using key by (simp add: keyboard_interpret_def keyboard_read_def keyboard_new_def scan_value_def Let_def
        del: lit_simps)
  have "\<exists>k' p. keyboard_interpret (machine_ports b) rd keyboard_new k = Some (k', Inl p)"
  proof (cases "lock_vga_console rd ?k")
    case (Pair k1 r)
    show ?thesis
    proof (cases r)
      case (Inr sh)
      have "same_screen (fst (k_screen ?k)) (fst (k_screen k1))"
        using Pair vga_console_screen [OF same_screen_refl, of "k_screen ?k" rd]
        by (auto simp: lock_vga_console_def simp del: lit_simps split: option.splits prod.splits sum.splits)
      then have "font_ok (v_font (fst (k_screen k1)))" using assms(2) by (simp add: same_screen_def del: lit_simps)
      from display_no_glyph [OF assms(3-5) this] obtain vm' p where
        "display (\<lambda>s vm. Some (write_fmt rd s vm)) rd sh (k_screen k1) = Some (vm', Inl p)" .
      then show ?thesis unfolding run Pair Inr by simp
    qed (use run Pair in simp)
  qed
  then show ?thesis by (auto simp: keyboard_handler_def crash_keyboard)
qed

section \<open>A path that does not exist\<close>

lemma crash_shown:
  assumes "line \<noteq> KeyboardLine" "k_screen k = (v, mem)"
    and "panic_handler False False rd msg ((v, mem), k_log k) = (((v', mem'), lg'), Halted)"
  shows "crash line rd msg k = (k\<lparr>k_screen := (v', mem'), k_log := lg'\<rparr>, Halted)"
  using assms by (simp add: crash_def)

text \<open>
  Claim C19. Enter after \<^verbatim>\<open>readelf\<close> and a path that is not in the ramdisk ends the kernel: the handler of
  the serial line panics with \<^verbatim>\<open>unwrap\<close> on a missing file, after nothing but the reset sequence and the line
  break went out, and the panic handler shows its banner on the screen, appends the panic to the log and halts. The
  console keeps the line it could not run.
\<close>

theorem readelf_missing_shows_panic:
  assumes "uart (machine_ports b) (s_address s) ready sent inbox" "s_address s \<le> 0xFFFA" "ready (k_dev k)"
    and "inbox (k_dev k) = 13 # rest" "command_word (buffer (k_serial_console k)) = lit ''readelf''"
    and "command_argument (buffer (k_serial_console k)) \<notin> fst ` set (initrd_contents rd)"
    and "font_new rd BOLD_FONT = Inr bf" "font_new rd NORMAL_FONT = Inr nf"
    and "k_screen k = (v, mem)" "cell_on_screen v 8 24 14"
    and "logs lg' = logs (k_log k) @ [\<lparr>log_level = Fatal, log_message = lit ''The kernel has panicked.'' @ [10] @ msg\<rparr>]"
    and "\<forall>g\<in>set (logs lg'). \<forall>c\<in>set (log_message g). c < 256"
    and "n = length (concat (map (\<lambda>g. writeln (fmt_log g)) (logs lg')))" "room v (8 + 64 * n) (56 + 16 * n)"
  shows "\<exists>d v' mem'. serial_handler b rd s k = Some (k\<lparr>k_dev := d\<rparr>, Inl UnwrapNone)
    \<and> sent d = sent (k_dev k) @ crlf_bytes (writeln NORMAL)
    \<and> crash COM1Line rd msg (k\<lparr>k_dev := d\<rparr>) = (k\<lparr>k_dev := d, k_screen := (v', mem'), k_log := lg'\<rparr>, Halted)
    \<and> (\<forall>px py. 8 \<le> px \<and> px < 120 \<and> 12 \<le> py \<and> py < 28 \<longrightarrow> pixel_at v mem' px py
         = glyph_color bf (color_value Red) (color_value Black)
             (lit ''[KERNEL PANIC]'' ! ((px - 8) div 8)) ((px - 8) mod 8) (py - 12))"
proof -
  let ?line = "buffer (k_serial_console k)"
  have line: "line_ok (machine_ports b) s ready sent inbox" using assms(1,2) by (simp add: line_ok_def)
  have "elf_new rd (command_argument ?line) = Inl UnwrapNone"
    using ramdisk.lookup_absent [OF assms(6)] by (simp add: elf_new_def)
  then have "command_reply rd (k_timer k) (k_log k) (k_serial_console k) ?line (k_sched k) = Inl UnwrapNone"
    using assms(5) by (simp add: command_reply_def)
  then obtain d where d: "serial_handler b rd s k = Some (k\<lparr>k_dev := d\<rparr>, Inl UnwrapNone)"
      "sent d = sent (k_dev k) @ crlf_bytes (writeln NORMAL)"
    by (rule serial_handler_enter_panics [OF line assms(3,4)])
  obtain v' mem' m1 m2 where shown: "panic_handler False False rd msg ((v, mem), k_log k) = (((v', mem'), lg'), Halted)"
      "screen.painted v m1 m2 (\<lambda>px py. 8 \<le> px \<and> px < 120 \<and> 12 \<le> py \<and> py < 28)
        (text_color bf (color_value Red) (color_value Black) (lit ''[KERNEL PANIC]'') 8 12)"
      "kept_above v 44 m2 mem'"
    using panic_shown [OF assms(7,8,10-14), of mem] by blast
  have "crash COM1Line rd msg (k\<lparr>k_dev := d\<rparr>) = (k\<lparr>k_dev := d, k_screen := (v', mem'), k_log := lg'\<rparr>, Halted)"
    using shown(1) assms(9) by (intro crash_shown) simp_all
  then show ?thesis
    using d banner_pixels [OF assms(10) shown(3,2)] by (intro exI conjI) auto
qed

text \<open>A message with a Cyrillic letter, and \<^verbatim>\<open>readelf x\<close> at the serial line.\<close>

definition cyrillic_disk :: initrd where
  "cyrillic_disk = ramdisk_with [(lit ''initrd/etc/motd'', [0xD1, 0x84])]"

lemma enter_without_glyph_hangs_witness:
  "\<exists>k p. keyboard_handler enter_board cyrillic_disk (dark_kernel\<lparr>k_vga_console := Some root_shell\<rparr>) = Some (k, Inl p)
    \<and> crash KeyboardLine cyrillic_disk (lit ''boom'') k = (k, Deadlocked)"
proof (rule enter_without_glyph_hangs [where t = "[0x444]" and c = "0x444"])
  show "file_text cyrillic_disk (lit ''initrd/etc/motd'') = Inr [0x444]"
    by (simp add: file_text_def cyrillic_disk_def ramdisk.lookup_present) code_simp
qed (simp_all add: enter_board_def dark_kernel_def)

lemma readelf_missing_shows_panic_witness:
  "\<exists>k vm. serial_handler uart_board boot_rd (serial_new COM1) (typing_kernel [13]
      \<lparr>k_serial_console := root_shell\<lparr>buffer := lit ''readelf x''\<rparr>\<rparr>) = Some (k, Inl UnwrapNone)
    \<and> line_out (k_dev k) = crlf_bytes (writeln NORMAL)
    \<and> snd (crash COM1Line boot_rd (lit ''boom'') k) = Halted"
proof -
  let ?k = "typing_kernel [13] \<lparr>k_serial_console := root_shell\<lparr>buffer := lit ''readelf x''\<rparr>\<rparr>"
  define g where
    "g = \<lparr>log_level = Fatal, log_message = lit ''The kernel has panicked.'' @ [10] @ lit ''boom''\<rparr>"
  define n where "n = length (concat (map (\<lambda>g. writeln (fmt_log g)) (logs \<lparr>logs = [g]\<rparr>)))"
  have "n < 100" by (simp add: n_def g_def fmt_log_def writeln_def level_label_def code_consts ESC_def)
  moreover have "room small_screen 6408 1656" by (simp add: room_def small_screen_def)
  ultimately have room: "room small_screen (8 + 64 * n) (56 + 16 * n)"
    by (auto intro: room_le)
  have line: "uart (machine_ports uart_board) (s_address (serial_new COM1)) (\<lambda>_. True) line_out line_in"
      "s_address (serial_new COM1) \<le> 0xFFFA"
    using test_uart_ok by (simp_all add: uart_board_def com1)
  have fonts: "font_new boot_rd BOLD_FONT = Inr (plain_font 60)" "font_new boot_rd NORMAL_FONT = Inr (plain_font 24)"
    by (rule load_plain_font, simp add: contents_boot_rd boot_contents_def NORMAL_FONT_def BOLD_FONT_def)+
  have word: "command_word (buffer (k_serial_console ?k)) = lit ''readelf''"
      "command_argument (buffer (k_serial_console ?k)) \<notin> fst ` set (initrd_contents boot_rd)"
    by (simp_all add: command_word_def command_argument_def is_whitespace_def contents_boot_rd boot_contents_def
        NORMAL_FONT_def BOLD_FONT_def)
  have fields: "line_in (k_dev ?k) = 13 # []" "k_screen ?k = (small_screen, \<lambda>_. 0)" "k_log ?k = logger_new"
      "line_out (k_dev ?k) = []"
    by (simp_all add: typing_kernel_def)
  have log: "logs \<lparr>logs = [g]\<rparr> = logs (k_log ?k) @ [\<lparr>log_level = Fatal,
      log_message = lit ''The kernel has panicked.'' @ [10] @ lit ''boom''\<rparr>]"
    by (simp add: typing_kernel_def logger_new_def g_def)
  have latin: "\<forall>g\<in>set (logs \<lparr>logs = [g]\<rparr>). \<forall>c\<in>set (log_message g). c < 256" by (simp add: g_def)
  have cell: "cell_on_screen small_screen 8 24 14" by simp
  from readelf_missing_shows_panic [OF line TrueI fields(1) word fonts fields(2) cell log latin n_def room]
  show ?thesis using fields(4) by (auto simp del: lit_simps)
qed

section \<open>A picture that does not exist\<close>

text \<open>
  \<^verbatim>\<open>intro::initialize\<close> holds the screen's lock throughout: without its first picture the boot stops in a
  panic that is never shown.
\<close>

theorem missing_picture_hangs:
  assumes "lit ''initrd/usr/share/images/logo.ppm'' \<notin> fst ` set (initrd_contents rd)"
  shows "intro_initialize rd pkg_version commit_hash pkg_authors vm = (vm, Inl UnwrapNone)"
    and "panic_handler True False rd msg (vm, lg) = ((vm, lg), Deadlocked)"
  using ramdisk.lookup_absent [OF assms]
  by (simp_all add: intro_initialize_def intro_pictures_def intro_image_def image_new_def panic_handler_def Let_def
      del: lit_simps)

end
