(* ===== verification/Acpi.thy ===== *)
theory Acpi
  imports Kernel_Prelude
begin

text \<open>
  The ACPI tables, \<^verbatim>\<open>kernel/src/acpi.rs\<close>. \<^verbatim>\<open>AcpiTables::from_rsdp\<close>, a function of the crate \<^verbatim>\<open>acpi\<close>,
  is the parameter \<open>from_rsdp\<close>; it calls back the two operations of the handler that it is given,
  both of which are \<^verbatim>\<open>todo!\<close> here. Nothing else in the kernel calls this module.
\<close>

section \<open>Definitions\<close>

text \<open>The handler's interface (trait \<^verbatim>\<open>AcpiHandler\<close>), over the type of mapped regions.\<close>

record 'm acpi_handler =
  map_region :: "usize \<Rightarrow> usize \<Rightarrow> 'm result"
  unmap_region :: "'m \<Rightarrow> unit result"

definition map_physical_region :: "usize \<Rightarrow> usize \<Rightarrow> 'm result" where
  "map_physical_region physical_address len = Inl Todo"

definition unmap_physical_region :: "'m \<Rightarrow> unit result" where
  "unmap_physical_region region = Inl Todo"

definition Handler :: "'m acpi_handler" where
  "Handler = \<lparr>map_region = map_physical_region, unmap_region = unmap_physical_region\<rparr>"

record 'a acpi =
  tables :: 'a

text \<open>
  The address is the boot loader's answer to the request for the root pointer. \<open>from_rsdp\<close> may panic
  through the handler; its own \<^verbatim>\<open>Err\<close> is \<open>None\<close>.
\<close>

definition acpi_new ::
    "('m acpi_handler \<Rightarrow> usize \<Rightarrow> 'a option result) \<Rightarrow> usize option \<Rightarrow> 'a acpi result" where
  "acpi_new from_rsdp response =
     rbind (unwrap_option response) (\<lambda>rsdp.
     rbind (from_rsdp Handler rsdp) (\<lambda>answer.
     rbind (unwrap_result answer) (\<lambda>tables. Inr \<lparr>tables = tables\<rparr>)))"

section \<open>What the crate meets\<close>

text \<open>
  \<^verbatim>\<open>from_rsdp\<close> first maps the root pointer's structure through the handler, whatever the handler does,
  and goes on with the region it gets.
\<close>

definition maps_first :: "('m acpi_handler \<Rightarrow> usize \<Rightarrow> 'a option result) \<Rightarrow> usize \<Rightarrow> bool" where
  "maps_first from_rsdp len =
     (\<exists>rest. \<forall>h rsdp. from_rsdp h rsdp = rbind (map_region h rsdp len) (rest h rsdp))"

lemma handler_is_todo [simp]:
  "map_region Handler address len = Inl Todo" "unmap_region Handler region = Inl Todo"
  by (simp_all add: Handler_def map_physical_region_def unmap_physical_region_def)

text \<open>The tables are never built: without an answer the request panics, and with one the handler does.\<close>

lemma acpi_new_panics:
  assumes "maps_first from_rsdp len"
  shows "acpi_new from_rsdp response = Inl (if response = None then UnwrapNone else Todo)"
  using assms by (cases response) (auto simp: acpi_new_def maps_first_def)

text \<open>The hypothesis can hold: a reader that keeps the region that it maps.\<close>

lemma acpi_new_panics_mapping:
  "acpi_new (\<lambda>h rsdp. rbind (map_region h rsdp 36) (\<lambda>region. Inr (Some region))) (Some 0xE0000)
     = (Inl Todo :: nat acpi result)"
proof -
  have "maps_first (\<lambda>(h :: nat acpi_handler) rsdp. rbind (map_region h rsdp 36) (\<lambda>region. Inr (Some region))) 36"
    unfolding maps_first_def by (rule exI [of _ "\<lambda>_ _ region. Inr (Some region)"]) simp
  from acpi_new_panics [OF this, of "Some 0xE0000"] show ?thesis by simp
qed

end
