(* ===== verification/Build_Script.thy ===== *)
theory Build_Script
  imports Rust_Text
begin

text \<open>
  The build scripts and the user-land stub. The build script of the kernel, \<^verbatim>\<open>kernel/build.rs\<close>, asks git for
  the commit that the boot screen shows (\<^verbatim>\<open>env!("COMMIT_HASH")\<close>). The result of running a command is the
  parameter \<open>run\<close>: \<open>None\<close> when it cannot be started, else what it wrote, whatever its exit code. The lines
  printed so far stay printed when the script panics.
\<close>

section \<open>The build script of the kernel\<close>

definition link_lines :: "rstr list" where
  "link_lines =
     [lit ''cargo:rustc-link-arg=-Tkernel/linker.ld'', lit ''cargo:rerun-if-changed=kernel/linker.ld'']"

definition build_main :: "(rstr \<Rightarrow> rstr list \<Rightarrow> u8 list option) \<Rightarrow> rstr list \<times> unit result" where
  "build_main run =
     sbind (link_lines,
       rbind (unwrap_result (run (lit ''git'') [lit ''rev-parse'', lit ''--short'', lit ''HEAD'']))
         (\<lambda>stdout. unwrap_result (from_utf8 stdout))) (\<lambda>printed hash.
     (printed @ [lit ''cargo:rustc-env=COMMIT_HASH='' @ hash, lit ''cargo:rerun-if-changed=.git/HEAD''],
      Inr ()))"

text \<open>The script succeeds exactly when git can be started and writes UTF-8; a failing git is not noticed.\<close>

lemma build_main_ok_iff:
  "snd (build_main run) = Inr ()
     \<longleftrightarrow> (\<exists>hash. Option.bind (run (lit ''git'') [lit ''rev-parse'', lit ''--short'', lit ''HEAD'']) from_utf8
           = Some hash)"
  by (cases "run (lit ''git'') [lit ''rev-parse'', lit ''--short'', lit ''HEAD'']")
    (auto simp: build_main_def unwrap_result_def simp del: lit_simps split: option.splits)

section \<open>The init program\<close>

text \<open>
  \<^verbatim>\<open>userland/init\<close>: \<^verbatim>\<open>main\<close> is empty, and a panic, of which there is no source, would loop for ever. Its build
  script needs nothing from outside.
\<close>

definition init_main :: "'s \<Rightarrow> 's \<times> unit result" where
  "init_main s = (s, Inr ())"

partial_function (option) init_panic :: "rstr \<Rightarrow> 'a option" where
  [code]: "init_panic info = init_panic info"

lemma init_panic_never_returns: "init_panic info = None"
proof -
  have "init_panic info = Some y \<Longrightarrow> False" for y :: 'a
    by (rule init_panic.raw_induct [where P = "\<lambda>_ _. False"])
  then show ?thesis by (cases "init_panic info :: 'a option") auto
qed

definition init_build_main :: "rstr list" where
  "init_build_main =
     [lit ''cargo:rustc-link-arg=-Tuserland/init/linker.ld'', lit ''cargo:rerun-if-changed=userland/init/linker.ld'']"

end
