(* ===== verification/Spec2Isabelle.thy ===== *)
theory Spec2Isabelle
  imports Calendar Ustar Elf Timer Scheduler Image Shell Memory Interrupts Segments Intro Panic Kernel Console Greetings Crash Acpi
    Build_Script
begin

text \<open>
  A verification development of NeurOS, a hobby operating system for x86-64 written in Rust. The
  program is the kernel under \<^verbatim>\<open>kernel/src\<close>; the user-land stub under \<^verbatim>\<open>userland\<close> does nothing yet.

  \<^bold>\<open>How the kernel works.\<close> The boot loader (Limine) enters \<open>kmain\<close>, which runs the initialisers of
  the components in a fixed order: segment tables, memory and heap, interrupts, processor count, RAM
  disk, scheduler, boot screen, serial shell, user mode. It then enables interrupts and halts the processor
  between them. From there on everything happens in the handlers of three interrupt lines: the timer
  counts and rotates the scheduler's queue, the keyboard shows the greeting on the screen when enter is
  pressed, and the serial port feeds its bytes to the shell. All files (fonts, pictures, configuration)
  come from the RAM disk, a ustar archive in memory. A panic anywhere runs the panic handler, which
  shows the log on the screen and halts.

  \<^bold>\<open>The theories,\<close> in the order in which they build on each other:

  \<^item> \<open>Kernel_Prelude\<close>: integers, panics as values (\<open>rbind\<close>, \<open>sbind\<close>), checked arithmetic,
    slices, little-endian reads, \<^verbatim>\<open>for\<close> loops (\<open>each\<close>). \<open>Rust_Text\<close>: characters,
    UTF-8, number formatting and parsing, splitting and trimming, as Rust's standard library does them.
  \<^item> \<open>Logger\<close> (\<^verbatim>\<open>logger.rs\<close>, \<^verbatim>\<open>ansi.rs\<close>): the log is a list of records that only the six macros extend;
    \<open>fmt_log\<close> is its \<^verbatim>\<open>Display\<close>.
  \<^item> \<open>Initrd_File\<close>, \<open>Initrd\<close> (\<^verbatim>\<open>initrd.rs\<close>): \<open>parse_timestamp\<close> and the \<^verbatim>\<open>Display\<close> of an entry; the
    archive reader over memory as a function from addresses to bytes. \<open>Calendar\<close> specifies the calendar
    that \<open>parse_timestamp\<close> computes, \<open>Ustar\<close> the archive format by an encoder.
  \<^item> \<open>Elf\<close> (\<^verbatim>\<open>elf.rs\<close>), \<open>Font\<close> (\<^verbatim>\<open>font.rs\<close>), \<open>Image\<close> (\<^verbatim>\<open>image.rs\<close>): the three file readers,
    with encoders as their specification.
  \<^item> \<open>Timer\<close>, \<open>Process\<close>, \<open>Scheduler\<close> (\<^verbatim>\<open>timer.rs\<close>, \<^verbatim>\<open>process.rs\<close>, \<^verbatim>\<open>scheduler.rs\<close>,
    \<^verbatim>\<open>syscall.rs\<close>): the counter, the queue with its time slice, and the system calls.
  \<^item> \<open>Vga\<close> (\<^verbatim>\<open>vga.rs\<close>) on \<open>Pixel_Surface\<close>: the state is the console's record and the memory that
    holds the framebuffer; \<open>write_str_loop\<close> is the text writer. \<open>Intro\<close> (\<^verbatim>\<open>intro.rs\<close>): the boot screen.
  \<^item> \<open>Serial\<close> (\<^verbatim>\<open>serial.rs\<close>): the 16550 driver over port operations. \<open>Shell\<close> (\<^verbatim>\<open>shell.rs\<close>): the
    configuration, the greeting and the handler of one typed byte.
  \<^item> \<open>Memory\<close> (\<^verbatim>\<open>memory.rs\<close>): frame allocator and heap mapping. \<open>Segments\<close> (\<^verbatim>\<open>gdt.rs\<close>,
    \<^verbatim>\<open>userspace.rs\<close>): descriptor table, segment registers, user mode.
  \<^item> \<open>Keyboard\<close> (\<^verbatim>\<open>keyboard.rs\<close>): the record \<open>kernel\<close> of the state that the handlers share, and the scan
    code handler. \<open>Interrupts\<close> (\<^verbatim>\<open>interrupts.rs\<close>): every handler, the table, the masks, and the step
    relation \<open>kernel_step\<close>. \<open>Text_Layout\<close>: what a text looks like on the screen, as characters with a font and a
    colour (\<open>styled\<close>) in cells (\<open>place\<close>) that make a picture (\<open>picture\<close>), and that the writer of \<open>Vga\<close> shows it.
    \<open>Panic\<close> (\<^verbatim>\<open>main.rs\<close>): the panic handler.
  \<^item> \<open>Boot_Image\<close>: a complete concrete machine, the input of witnesses. \<open>Sessions\<close>: a line typed while the
    timer ticks, and the first press of enter. \<open>Kernel\<close> (\<^verbatim>\<open>main.rs\<close>, \<^verbatim>\<open>smp.rs\<close>): \<open>kmain\<close>.
  \<^item> \<open>Console\<close>: the serial console as an abstract state machine (\<open>console_step\<close>, on ticks and typed bytes) and the
    simulation of it by the handlers. \<open>Greetings\<close>: where repeated presses of enter lead, since the screen does
    not scroll. \<open>Crash\<close>: how a panic in a handler ends (\<open>crash\<close>), given the lock that the handler holds.
  \<^item> \<open>Acpi\<close> (\<^verbatim>\<open>acpi.rs\<close>) and \<open>Build_Script\<close> (\<^verbatim>\<open>kernel/build.rs\<close>, \<^verbatim>\<open>userland/init\<close>) stand alone, as in the source.

  \<^bold>\<open>How the code is represented.\<close> A struct is a record, an enum a datatype. \<^verbatim>\<open>u8\<close> to \<^verbatim>\<open>u64\<close> are words;
  \<^verbatim>\<open>usize\<close> is \<open>nat\<close> with the 64-bit bound checked by every operation on it. The build is the \<^verbatim>\<open>dev\<close> profile that the
  \<^verbatim>\<open>Makefile\<close> uses by default, so an arithmetic overflow is a panic. A panic is a value of \<open>panic\<close> (its kind, not its
  message); what was written before it is kept where a caller can see it. A function on a mutable
  state takes it and returns it. \<^verbatim>\<open>write!\<close> on the screen or the serial port renders its arguments into one
  string first and writes that once, because both writers override \<^verbatim>\<open>write_fmt\<close>. A static that is
  built lazily is built where the code first uses it.

  \<^bold>\<open>Loops that may not end\<close> are \<^verbatim>\<open>partial_function (option)\<close>: \<open>initrd_loop\<close> (the archive reader looks for
  a zero block), \<open>wait_transmit\<close>, \<open>wait_received\<close> (polling the port) and \<open>init_panic\<close>. \<open>None\<close> is a computation that does
  not return, and the properties that say that something returns prove \<open>Some\<close>. There is no fuel. All other loops are structural or have a
  measure.

  \<^bold>\<open>Parameters,\<close> for code that is not in the repository: port input and output (\<open>ports\<close>), the page tables of
  the crate \<^verbatim>\<open>x86_64\<close> (\<open>paging\<close>), the descriptor table and registers (\<open>cpu\<close>), the interrupt controllers of the crate
  \<^verbatim>\<open>pic8259\<close> and the table register (\<open>board\<close>), the ACPI table reader, and the answers of the boot loader (\<open>machine\<close>). What
  is relied on is a named predicate next to its use (\<open>uart\<close>, \<open>maps_pages\<close>, \<open>appends_in_order\<close>, \<open>star_accepts\<close>,
  \<open>quiet_board\<close>, \<open>memory_ready\<close>, \<open>maps_first\<close>), and a witness gives an instance of each that a property uses. The
  strings of \<^verbatim>\<open>env!\<close> are arguments.

  \<^bold>\<open>Interfaces.\<close> \<open>asset_store\<close> is the look-up that every file reader relies on, provided by the RAM disk
  (\<open>ramdisk\<close>); \<open>record_format\<close> the fixed-size records of an ELF file (\<open>elf_header_format\<close>,
  \<open>elf_program_format\<close>, \<open>elf_section_format\<close>); \<open>round_robin\<close> a rotating queue with a period (\<open>rr\<close>, the scheduler);
  \<open>pixel_surface\<close> a surface on which single pixels are drawn (\<open>screen\<close>, the framebuffer); \<open>frame_allocator\<close> what the
  mapping of the heap needs of the allocator (\<open>frames\<close>).

  \<^bold>\<open>What is shown.\<close> Claims are numbered in the order of their importance.
  \<^item> Readers: reading what the encoder of the format wrote gives it back (archive, ELF, images); when
    a reader succeeds and how it fails otherwise; \<open>parse_timestamp\<close> equals the Gregorian calendar, with the exact days
    on which it panics instead.
  \<^item> Scheduler and timer: an invariant of all reachable states, refinement of the round robin, no
    starvation, fresh identifiers.
  \<^item> Screen: each operation draws exactly the pixels it should, and changes no memory outside the framebuffer as
    long as the text stays on the screen; what happens below the screen and without a glyph. The first greeting and the panic
    screen are given pixel by pixel.
  \<^item> Serial port and shell: output is complete and in order, a typed line is edited, echoed and run as
    \<open>command_reply\<close> says; polling a dead transmitter does not return. Of the UART
    it is assumed only that a byte is sent when the transmitter was empty, so the polling is what makes the output complete.
  \<^item> Memory: every usable frame is handed out once; initialisation maps the heap to distinct usable frames
    and disturbs nothing else.
  \<^item> The kernel as a whole: \<open>kmain\<close> gets through all initialisers with exactly the log of the boot; an
    invariant of every state that interrupts can reach; under any interleaving of typed bytes and ticks the handlers refine the
    abstract console, panics included, so that typing and ticking do not disturb each other; the panic handler shows
    banner and log, or hangs when the log cannot be drawn.
  \<^item> The kernel when things go wrong: greetings leave the screen at its lower edge without a panic; a message of the day
    without a glyph, or a missing picture, hangs the machine with the screen locked; a wrong path after \<^verbatim>\<open>readelf\<close> ends in the panic
    screen.

  \<^bold>\<open>Not modelled.\<close>
  \<^item> Locks, except at a panic, where the one that is held decides whether the panic handler hangs: the handlers run one
    after the other with interrupts off, on one processor, and \<^verbatim>\<open>without_interrupts\<close> only protects that.
  \<^item> The panic handler before the screen was first used, when \<^verbatim>\<open>VGA.lock()\<close> would build the static first (and read its font
    from the RAM disk): it gets a console that is already built.
  \<^item> In the result of \<open>kmain\<close>, the loaded interrupt table and the page tables: what they are is a result of
    \<open>interrupts_initialize\<close> and \<open>memory_initialize\<close>, and the claims about those say it.
  \<^item> The heap allocator (crate \<^verbatim>\<open>linked_list_allocator\<close>): allocations are taken to succeed. The flush of
    the translation buffer after a mapping.
  \<^item> The register contents of the interrupt frame: its text in the log is a parameter.
  \<^item> Messages of panics raised by the code, which the panic handler gets as the argument \<open>panic_info\<close>.
  \<^item> The idle loops of \<^verbatim>\<open>tick\<close> and \<^verbatim>\<open>halt\<close>: what follows \<^verbatim>\<open>tick\<close> is \<open>kernel_step\<close>, and nothing follows \<^verbatim>\<open>halt\<close>, which is
    the ending \<open>Halted\<close>.
\<close>

end
